(* ===== verification/Prelude.thy ===== *)
theory Prelude
  imports Complex_Main "HOL-Library.List_Lexorder" "HOL-Library.Char_ord"
    "HOL-Library.Product_Lexorder"
begin

text \<open>
  What every component shares: the exceptions the Python code raises and lets through, the
  state-and-exception monad in which the methods of the limiter are written, the numbers and
  the number formatting of Lua, and the decimal notation of integers.

  Numbers. Python integers are \<open>int\<close>. Python floats and Lua numbers (both IEEE doubles in the
  program) are exact rationals \<open>rat\<close>: every integer the program computes with (milliseconds,
  counters, scores) is below \<open>2 ^ 53\<close> and hence exact, and the fractions (the window weight,
  delays in seconds) are taken without the rounding of the last bit.
\<close>

section \<open>Exceptions and the Python monad\<close>

datatype exn =
    ValueError | RuntimeError | KeyError | TypeError | AssertionError | OverflowError
  | NotImplementedError | AttributeError | ImportError | ModuleNotFoundError | OSError
  | JSONDecodeError
  | NoScriptError | ResponseError | RedisConnectionError
  | AcquireTimeout
  | UserError string

text \<open>The subclasses of \<^verbatim>\<open>redis.RedisError\<close>.\<close>

definition is_redis_error :: "exn \<Rightarrow> bool" where
  "is_redis_error e = (e \<in> {NoScriptError, ResponseError, RedisConnectionError})"

type_synonym ('w, 'a) py = "'w \<Rightarrow> (exn + 'a) \<times> 'w"

definition py_return :: "'a \<Rightarrow> ('w, 'a) py" where
  "py_return x = (\<lambda>w. (Inr x, w))"

definition py_raise :: "exn \<Rightarrow> ('w, 'a) py" where
  "py_raise e = (\<lambda>w. (Inl e, w))"

definition py_bind :: "('w, 'a) py \<Rightarrow> ('a \<Rightarrow> ('w, 'b) py) \<Rightarrow> ('w, 'b) py" where
  "py_bind m f = (\<lambda>w. case m w of (Inl e, w') \<Rightarrow> (Inl e, w') | (Inr x, w') \<Rightarrow> f x w')"

definition py_then :: "('w, unit) py \<Rightarrow> ('w, 'b) py \<Rightarrow> ('w, 'b) py" where
  "py_then m n = py_bind m (\<lambda>_. n)"

definition py_get :: "('w \<Rightarrow> 'a) \<Rightarrow> ('w, 'a) py" where
  "py_get f = (\<lambda>w. (Inr (f w), w))"

definition py_modify :: "('w \<Rightarrow> 'w) \<Rightarrow> ('w, unit) py" where
  "py_modify f = (\<lambda>w. (Inr (), f w))"

text \<open>\<^verbatim>\<open>try: m  except E: h\<close>, where the handler receives the exception, and \<^verbatim>\<open>try: m  finally: f\<close>,
  where an exception of the final block replaces the pending one.\<close>

definition py_catch :: "('w, 'a) py \<Rightarrow> (exn \<Rightarrow> ('w, 'a) py) \<Rightarrow> ('w, 'a) py" where
  "py_catch m h = (\<lambda>w. case m w of (Inl e, w') \<Rightarrow> h e w' | (Inr x, w') \<Rightarrow> (Inr x, w'))"

definition py_finally :: "('w, 'a) py \<Rightarrow> ('w, unit) py \<Rightarrow> ('w, 'a) py" where
  "py_finally m f = (\<lambda>w. case m w of (r, w') \<Rightarrow>
     (case f w' of (Inl e, w'') \<Rightarrow> (Inl e, w'') | (Inr _, w'') \<Rightarrow> (r, w'')))"

definition py_if :: "bool \<Rightarrow> ('w, unit) py \<Rightarrow> ('w, unit) py" where
  "py_if b m = (if b then m else py_return ())"

named_theorems py_simps \<open>unfolding of the Python monad\<close>

lemmas py_defs [py_simps] =
  py_return_def py_raise_def py_bind_def py_then_def py_get_def py_modify_def
  py_catch_def py_finally_def py_if_def

lemma py_bind_assoc: "py_bind (py_bind m f) g = py_bind m (\<lambda>x. py_bind (f x) g)"
  by (rule ext) (simp add: py_bind_def split: prod.split sum.split)

lemma py_bind_return_left [simp]: "py_bind (py_return x) f = f x"
  by (simp add: py_bind_def py_return_def)

lemma py_catch_return [simp]: "py_catch (py_return x) h = py_return x"
  by (simp add: py_catch_def py_return_def)

section \<open>Options\<close>

lemma option_eqI: "(\<And>y. a = Some y \<longleftrightarrow> b = Some y) \<Longrightarrow> a = b"
  by (cases a; cases b) auto

section \<open>Decimal notation of integers\<close>

definition digit :: "int \<Rightarrow> char" where
  "digit d = char_of (48 + d)"

function dec_pos :: "int \<Rightarrow> string" where
  "dec_pos i = (if i < 10 then [digit i] else dec_pos (i div 10) @ [digit (i mod 10)])"
  by pat_completeness auto
termination
  by (relation "measure nat") auto

declare dec_pos.simps [simp del]

definition dec_int :: "int \<Rightarrow> string" where
  "dec_int i = (if i < 0 then CHR ''-'' # dec_pos (- i) else dec_pos i)"

definition is_digit :: "char \<Rightarrow> bool" where
  "is_digit c = (48 \<le> (of_char c :: int) \<and> (of_char c :: int) \<le> 57)"

definition digit_val :: "char \<Rightarrow> int" where
  "digit_val c = of_char c - 48"

fun undec :: "int \<Rightarrow> string \<Rightarrow> int" where
  "undec acc [] = acc"
| "undec acc (c # cs) = undec (10 * acc + digit_val c) cs"

lemma undec_append: "undec acc (xs @ ys) = undec (undec acc xs) ys"
  by (induction xs arbitrary: acc) auto

lemma digit_val_digit [simp]: "0 \<le> d \<Longrightarrow> d < 10 \<Longrightarrow> digit_val (digit d) = d"
  by (simp add: digit_def digit_val_def of_char_of)

lemma is_digit_digit [simp]: "0 \<le> d \<Longrightarrow> d < 10 \<Longrightarrow> is_digit (digit d)"
  by (simp add: digit_def is_digit_def of_char_of)

lemma undec_dec_pos [simp]: "0 \<le> i \<Longrightarrow> undec 0 (dec_pos i) = i"
proof (induction i rule: dec_pos.induct)
  case (1 i)
  show ?case
  proof (cases "i < 10")
    case True
    with "1.prems" show ?thesis by (simp add: dec_pos.simps [of i])
  next
    case False
    then have "undec 0 (dec_pos i) = undec (i div 10) [digit (i mod 10)]"
      using "1.IH" by (simp add: dec_pos.simps [of i] undec_append)
    then show ?thesis by simp
  qed
qed

lemma dec_pos_inject: "0 \<le> i \<Longrightarrow> 0 \<le> j \<Longrightarrow> dec_pos i = dec_pos j \<longleftrightarrow> i = j"
  by (metis undec_dec_pos)

lemma dec_pos_digits: "0 \<le> i \<Longrightarrow> list_all is_digit (dec_pos i)"
proof (induction i rule: dec_pos.induct)
  case (1 i)
  then show ?case by (cases "i < 10") (simp_all add: dec_pos.simps [of i])
qed

lemma dec_pos_nonempty [simp]: "dec_pos i \<noteq> []"
  by (subst dec_pos.simps) simp

lemma dec_int_nonempty [simp]: "dec_int i \<noteq> []"
  by (simp add: dec_int_def)

lemma minus_not_digit [simp]: "\<not> is_digit CHR ''-''"
  by (simp add: is_digit_def)

lemma dec_pos_no_minus: "0 \<le> i \<Longrightarrow> dec_pos i \<noteq> CHR ''-'' # cs"
  using dec_pos_digits [of i] by force

lemma dec_int_inject [simp]: "dec_int i = dec_int j \<longleftrightarrow> i = j"
proof
  assume eq: "dec_int i = dec_int j"
  show "i = j"
    using eq dec_pos_no_minus [of i] dec_pos_no_minus [of j]
      dec_pos_no_minus [of i, THEN not_sym] dec_pos_no_minus [of j, THEN not_sym]
    by (cases "i < 0"; cases "j < 0") (simp_all add: dec_int_def dec_pos_inject)
qed simp

lemma dec_int_chars: "list_all (\<lambda>c. is_digit c \<or> c = CHR ''-'') (dec_int i)"
  using dec_pos_digits [of i] dec_pos_digits [of "- i"]
  by (auto simp: dec_int_def list_all_iff)

end
