(* ===== verification/Numbers.thy ===== *)
theory Numbers
  imports Prelude
begin

text \<open>
  The conversions of numbers the program relies on: \<^verbatim>\<open>tostring\<close> of a Lua 5.1 number (the C format
  \<^verbatim>\<open>%.14g\<close>), which builds the keys of the window counters and the metadata of a buffered task, the
  truncation of a Lua number to an integer in a Redis reply, and Python's \<^verbatim>\<open>round(x, 3)\<close>.
\<close>

section \<open>Rounding\<close>

definition is_integral :: "rat \<Rightarrow> bool" where
  "is_integral x = (of_int \<lfloor>x\<rfloor> = x)"

lemma is_integral_of_int [simp]: "is_integral (of_int i)"
  by (simp add: is_integral_def)

lemma is_integral_iff: "is_integral x \<longleftrightarrow> (\<exists>i. x = of_int i)"
  by (auto simp: is_integral_def intro: sym)

text \<open>A number of a Lua reply table becomes a Redis integer by dropping its fraction.\<close>

definition redis_int :: "rat \<Rightarrow> int" where
  "redis_int x = (if x < 0 then \<lceil>x\<rceil> else \<lfloor>x\<rfloor>)"

lemma redis_int_of_int [simp]: "redis_int (of_int i) = i"
  by (simp add: redis_int_def)

lemma redis_int_numeral [simp]:
  "redis_int 0 = 0" "redis_int 1 = 1" "redis_int (numeral n) = numeral n"
  by (simp_all add: redis_int_def)

lemma redis_int_bounds: "x - 1 < of_int (redis_int x)" "of_int (redis_int x) < x + 1"
  by (simp_all add: redis_int_def floor_less_iff) (linarith)+

text \<open>Rounding to the nearest integer, ties to the even one.\<close>

definition round_half_even :: "rat \<Rightarrow> int" where
  "round_half_even x =
     (let f = \<lfloor>x\<rfloor>; d = x - of_int f
      in if d < 1 / 2 then f else if d > 1 / 2 then f + 1
         else if even f then f else f + 1)"

definition py_round3 :: "rat \<Rightarrow> rat" where
  "py_round3 x = of_int (round_half_even (x * 1000)) / 1000"

lemma round_half_even_bounds:
  "x - 1 / 2 \<le> of_int (round_half_even x)" "of_int (round_half_even x) \<le> x + 1 / 2"
  by (auto simp: round_half_even_def Let_def) (linarith+)?

lemma round_half_even_of_int [simp]: "round_half_even (of_int i) = i"
  by (simp add: round_half_even_def)

lemma py_round3_bounds: "x - 1 / 2000 \<le> py_round3 x" "py_round3 x \<le> x + 1 / 2000"
  using round_half_even_bounds [of "x * 1000"] by (auto simp: py_round3_def)

lemma round_half_even_mono: "x \<le> y \<Longrightarrow> round_half_even x \<le> round_half_even y"
proof (cases "\<lfloor>x\<rfloor> = \<lfloor>y\<rfloor>")
  case True
  assume "x \<le> y"
  with True show ?thesis by (auto simp: round_half_even_def Let_def)
next
  case False
  assume "x \<le> y"
  with False have "\<lfloor>x\<rfloor> + 1 \<le> \<lfloor>y\<rfloor>" using floor_mono [of x y] by linarith
  moreover have "round_half_even x \<le> \<lfloor>x\<rfloor> + 1" "\<lfloor>y\<rfloor> \<le> round_half_even y"
    by (auto simp: round_half_even_def Let_def)
  ultimately show ?thesis by linarith
qed

lemma py_round3_mono: "x \<le> y \<Longrightarrow> py_round3 x \<le> py_round3 y"
  by (auto simp: py_round3_def intro!: divide_right_mono round_half_even_mono)

section \<open>The text of a Lua number\<close>

text \<open>The decimal exponent of a positive number: 400 steps reach every double.\<close>

fun exp10 :: "nat \<Rightarrow> rat \<Rightarrow> int \<Rightarrow> rat \<times> int" where
  "exp10 0 a e = (a, e)"
| "exp10 (Suc n) a e =
     (if a \<ge> 10 then exp10 n (a / 10) (e + 1)
      else if a < 1 then exp10 n (a * 10) (e - 1) else (a, e))"

definition strip_zeros :: "string \<Rightarrow> string" where
  "strip_zeros s = rev (dropWhile (\<lambda>c. c = CHR ''0'') (rev s))"

definition pad_left :: "nat \<Rightarrow> string \<Rightarrow> string" where
  "pad_left n s = replicate (n - length s) CHR ''0'' @ s"

text \<open>Fourteen significant digits of a positive number, with its decimal exponent.\<close>

definition digits14 :: "rat \<Rightarrow> int \<times> int" where
  "digits14 a =
     (let (m, e) = exp10 400 a 0; d = round_half_even (m * 10 ^ 13)
      in if d = 10 ^ 14 then (10 ^ 13, e + 1) else (d, e))"

definition frac_part :: "string \<Rightarrow> string" where
  "frac_part f = (let z = strip_zeros f in if z = [] then [] else CHR ''.'' # z)"

definition fmt_g14 :: "rat \<Rightarrow> string" where
  "fmt_g14 a =
     (let (d, e) = digits14 a; ds = dec_int d
      in if e < - 4 \<or> 14 \<le> e
         then take 1 ds @ frac_part (drop 1 ds) @ ''e'' @ (if e < 0 then ''-'' else ''+'')
              @ pad_left 2 (dec_int \<bar>e\<bar>)
         else if 0 \<le> e then take (nat (e + 1)) ds @ frac_part (drop (nat (e + 1)) ds)
         else ''0'' @ frac_part (replicate (nat (- e - 1)) CHR ''0'' @ ds))"

definition lua_tostring :: "rat \<Rightarrow> string" where
  "lua_tostring x =
     (if is_integral x \<and> \<bar>x\<bar> < 10 ^ 14 then dec_int \<lfloor>x\<rfloor>
      else if x < 0 then CHR ''-'' # fmt_g14 (- x) else fmt_g14 x)"

lemma lua_tostring_int [simp]: "\<bar>i\<bar> < 10 ^ 14 \<Longrightarrow> lua_tostring (of_int i) = dec_int i"
proof -
  assume "\<bar>i\<bar> < 10 ^ 14"
  then have "of_int \<bar>i\<bar> < (of_int (10 ^ 14) :: rat)" by (simp only: of_int_less_iff)
  then show ?thesis by (simp add: lua_tostring_def)
qed

end
