(* ===== verification/Zset.thy ===== *)
theory Zset
  imports Numbers
begin

text \<open>
  Redis sorted sets, as the scripts use them: the task buffer \<^verbatim>\<open>{id}:buffer\<close> (scored by priority)
  and the lease set \<^verbatim>\<open>{id}:concurrency\<close> (scored by lease expiry). A sorted set holds each
  member once, with a score, ordered by score and, where scores are equal, by the bytes of the
  member. The locale \<open>sorted_set\<close> is the contract of the commands; the ordered association
  list below is what the laws of the server are stated with.
\<close>

section \<open>The contract of the sorted-set commands\<close>

locale sorted_set =
  fixes empty :: 'z
    and add :: "rat \<Rightarrow> string \<Rightarrow> 'z \<Rightarrow> 'z"
    and remove :: "string \<Rightarrow> 'z \<Rightarrow> 'z"
    and prune :: "rat \<Rightarrow> 'z \<Rightarrow> 'z"
    and score :: "'z \<Rightarrow> string \<Rightarrow> rat option"
    and head :: "'z \<Rightarrow> string option"
    and size :: "'z \<Rightarrow> nat"
    and invar :: "'z \<Rightarrow> bool"
  assumes invar_empty: "invar empty"
    and invar_add: "invar z \<Longrightarrow> invar (add sc m z)"
    and invar_remove: "invar z \<Longrightarrow> invar (remove m z)"
    and invar_prune: "invar z \<Longrightarrow> invar (prune mx z)"
    and score_empty: "score empty = Map.empty"
    and score_add: "invar z \<Longrightarrow> score (add sc m z) = (score z)(m \<mapsto> sc)"
    and score_remove: "invar z \<Longrightarrow> score (remove m z) = (score z)(m := None)"
    and score_prune: "invar z \<Longrightarrow> score (prune mx z) m =
      (case score z m of Some sc \<Rightarrow> (if mx < sc then Some sc else None) | None \<Rightarrow> None)"
    and finite_score: "finite (dom (score z))"
    and size_score: "invar z \<Longrightarrow> size z = card (dom (score z))"
    and head_None: "invar z \<Longrightarrow> head z = None \<longleftrightarrow> score z = Map.empty"
    and head_Some: "invar z \<Longrightarrow> head z = Some m \<Longrightarrow> \<exists>sc. score z m = Some sc \<and>
      (\<forall>m' sc'. score z m' = Some sc' \<longrightarrow> (sc, m) \<le> (sc', m'))"
begin

lemma size_add: "invar z \<Longrightarrow> size (add sc m z) = (if score z m = None then size z + 1 else size z)"
  by (auto simp: size_score invar_add score_add finite_score card_insert_if domIff)

lemma size_add_le: "invar z \<Longrightarrow> size (add sc m z) \<le> size z + 1"
  by (simp add: size_add)

lemma size_remove:
  "invar z \<Longrightarrow> size (remove m z) = (if score z m = None then size z else size z - 1)"
proof -
  assume inv: "invar z"
  have dom: "dom ((score z)(m := None)) = dom (score z) - {m}" by auto
  show ?thesis
    by (simp add: size_score invar_remove score_remove inv card_Diff_singleton_if domIff dom)
qed

lemma size_prune_le: "invar z \<Longrightarrow> size (prune mx z) \<le> size z"
proof -
  assume inv: "invar z"
  have "dom (score (prune mx z)) \<subseteq> dom (score z)"
    by (auto simp: score_prune [OF inv] dom_def split: option.splits if_splits)
  then show ?thesis
    by (simp add: size_score inv invar_prune card_mono finite_score)
qed

lemma size_remove_head: "invar z \<Longrightarrow> head z = Some m \<Longrightarrow> size (remove m z) + 1 = size z"
proof -
  assume inv: "invar z" and hd: "head z = Some m"
  from head_Some [OF inv hd] obtain sc where sc: "score z m = Some sc" by blast
  then have "card (dom (score z)) \<noteq> 0" using finite_score by (auto simp: card_eq_0_iff)
  with sc show ?thesis by (simp add: size_remove [OF inv] size_score [OF inv])
qed

lemma size_zero: "invar z \<Longrightarrow> size z = 0 \<longleftrightarrow> head z = None"
  by (simp add: size_score head_None finite_score)

end

section \<open>Sorted sets as ordered lists\<close>

type_synonym zset = "(rat \<times> string) list"

definition zrem :: "string \<Rightarrow> zset \<Rightarrow> zset" where
  "zrem m z = filter (\<lambda>e. snd e \<noteq> m) z"

definition zadd :: "rat \<Rightarrow> string \<Rightarrow> zset \<Rightarrow> zset" where
  "zadd sc m z = insort (sc, m) (zrem m z)"

definition zprune :: "rat \<Rightarrow> zset \<Rightarrow> zset" where
  "zprune mx z = filter (\<lambda>e. mx < fst e) z"

definition zscore :: "zset \<Rightarrow> string \<Rightarrow> rat option" where
  "zscore z = map_of (map (\<lambda>e. (snd e, fst e)) z)"

definition zhead :: "zset \<Rightarrow> string option" where
  "zhead z = (case z of [] \<Rightarrow> None | e # _ \<Rightarrow> Some (snd e))"

definition zinv :: "zset \<Rightarrow> bool" where
  "zinv z = (sorted z \<and> distinct (map snd z))"

lemma zscore_Some_iff: "zinv z \<Longrightarrow> zscore z m = Some sc \<longleftrightarrow> (sc, m) \<in> set z"
proof -
  assume "zinv z"
  then have "distinct (map fst (map (\<lambda>e. (snd e, fst e)) z))" by (simp add: zinv_def comp_def)
  then have "zscore z m = Some sc \<longleftrightarrow> (m, sc) \<in> (\<lambda>e. (snd e, fst e)) ` set z"
    by (metis list.set_map map_of_eq_Some_iff zscore_def)
  then show ?thesis by force
qed

lemma dom_zscore: "dom (zscore z) = snd ` set z"
  by (force simp: zscore_def dom_map_of_conv_image_fst image_image)

lemma zscore_None_iff: "zscore z m = None \<longleftrightarrow> m \<notin> snd ` set z"
  by (metis domIff dom_zscore)

lemma set_zadd: "set (zadd sc m z) = insert (sc, m) (set (zrem m z))"
  by (simp add: zadd_def set_insort_key)

lemma set_zrem: "set (zrem m z) = {e \<in> set z. snd e \<noteq> m}"
  by (auto simp: zrem_def)

lemma distinct_snd_insort:
  "distinct (map snd z) \<Longrightarrow> snd e \<notin> snd ` set z \<Longrightarrow> distinct (map snd (insort e z))"
  by (induction z) (auto simp: set_insort_key)

lemma zinv_zrem: "zinv z \<Longrightarrow> zinv (zrem m z)"
  by (auto simp: zinv_def zrem_def sorted_wrt_filter distinct_map_filter)

lemma zinv_zadd: "zinv z \<Longrightarrow> zinv (zadd sc m z)"
  using zinv_zrem [of z m]
  by (auto simp: zinv_def zadd_def sorted_insort set_zrem intro!: distinct_snd_insort)

lemma zinv_zprune: "zinv z \<Longrightarrow> zinv (zprune mx z)"
  by (auto simp: zinv_def zprune_def sorted_wrt_filter distinct_map_filter)

lemma zscore_zrem: "zinv z \<Longrightarrow> zscore (zrem m z) = (zscore z)(m := None)"
  by (intro ext option_eqI) (auto simp: zscore_Some_iff zinv_zrem set_zrem)

lemma zscore_zadd: "zinv z \<Longrightarrow> zscore (zadd sc m z) = (zscore z)(m \<mapsto> sc)"
  by (intro ext option_eqI) (auto simp: zscore_Some_iff zinv_zadd set_zadd set_zrem)

lemma zscore_zprune: "zinv z \<Longrightarrow> zscore (zprune mx z) m =
  (case zscore z m of Some sc \<Rightarrow> (if mx < sc then Some sc else None) | None \<Rightarrow> None)"
proof (rule option_eqI)
  fix y assume inv: "zinv z"
  have "zscore (zprune mx z) m = Some y \<longleftrightarrow> zscore z m = Some y \<and> mx < y"
    using inv by (simp add: zscore_Some_iff zinv_zprune, simp add: zprune_def)
  then show "zscore (zprune mx z) m = Some y \<longleftrightarrow>
    (case zscore z m of Some sc \<Rightarrow> (if mx < sc then Some sc else None) | None \<Rightarrow> None) = Some y"
    by (auto split: option.splits)
qed

lemma length_zscore: "zinv z \<Longrightarrow> length z = card (dom (zscore z))"
  using distinct_card [of "map snd z"] by (simp add: dom_zscore zinv_def)

interpretation zs: sorted_set "[]" zadd zrem zprune zscore zhead length zinv
proof unfold_locales
  fix z m assume inv: "zinv z" and hd: "zhead z = Some m"
  then obtain sc zs where z: "z = (sc, m) # zs" by (auto simp: zhead_def split: list.splits)
  with inv have "\<forall>e \<in> set z. (sc, m) \<le> e" by (auto simp: zinv_def)
  moreover from z have "zscore z m = Some sc" using zscore_Some_iff [OF inv] by simp
  ultimately show "\<exists>sc. zscore z m = Some sc \<and>
      (\<forall>m' sc'. zscore z m' = Some sc' \<longrightarrow> (sc, m) \<le> (sc', m'))"
    using zscore_Some_iff [OF inv] by blast
qed (simp_all add: zinv_zadd zinv_zrem zinv_zprune zscore_zadd zscore_zrem zscore_zprune
     dom_zscore length_zscore, simp_all add: zinv_def zscore_def zhead_def split: list.split)

lemmas zset_simps = zs.invar_empty zs.invar_add zs.invar_remove zs.invar_prune
  zs.score_empty zs.score_add zs.score_remove zs.score_prune

lemma zhead_in_set: "zhead z = Some m \<Longrightarrow> m \<in> snd ` set z"
  by (auto simp: zhead_def split: list.splits)

end
