(* ===== verification/Redis.thy ===== *)
theory Redis
  imports Zset
begin

text \<open>
  The Redis server. The program does not contain it, so the commands it answers are a
  parameter of the model: a record \<open>'s redis\<close> of operations on an unknown server state
  \<open>'s\<close>. What the program relies on is the documented effect of each command on the keyspace,
  stated as the locale \<open>redis_server\<close>: one equation per command over the observation
  \<open>look\<close>, which maps every live key to its value and its expiry time. Commands are only
  specified on keys that hold the type the command is for, and expiry times only for positive
  whole numbers of milliseconds; \<^verbatim>\<open>SET PX\<close> and \<^verbatim>\<open>PEXPIRE\<close> refuse a fractional one. The
  clock of the server is a Unix time of at most eleven digits (up to the year 5138). The
  in-memory keyspace \<open>mem_redis\<close> at the end satisfies every law.
\<close>

section \<open>Values and keyspaces\<close>

datatype hval = HText string | HNum int

datatype rvalue =
    RStr string
  | RCnt int  \<comment> \<open>a string that holds an integer, as \<^verbatim>\<open>INCR\<close> leaves it\<close>
  | RZset zset
  | RList "string list"
  | RHash "string \<rightharpoonup> hval"

type_synonym entry = "rvalue \<times> rat option"
type_synonym keyspace = "string \<rightharpoonup> entry"

definition ttl_of :: "entry option \<Rightarrow> rat option" where
  "ttl_of e = (case e of Some (_, d) \<Rightarrow> d | None \<Rightarrow> None)"

definition zset_of :: "entry option \<Rightarrow> zset" where
  "zset_of e = (case e of Some (RZset z, _) \<Rightarrow> z | _ \<Rightarrow> [])"

definition list_of :: "entry option \<Rightarrow> string list" where
  "list_of e = (case e of Some (RList xs, _) \<Rightarrow> xs | _ \<Rightarrow> [])"

definition cnt_of :: "entry option \<Rightarrow> int" where
  "cnt_of e = (case e of Some (RCnt n, _) \<Rightarrow> n | _ \<Rightarrow> 0)"

definition str_of :: "entry option \<Rightarrow> string option" where
  "str_of e = (case e of Some (RStr v, _) \<Rightarrow> Some v | _ \<Rightarrow> None)"

definition hash_of :: "entry option \<Rightarrow> string \<rightharpoonup> hval" where
  "hash_of e = (case e of Some (RHash h, _) \<Rightarrow> h | _ \<Rightarrow> Map.empty)"

definition holds_zset :: "entry option \<Rightarrow> bool" where
  "holds_zset e = (case e of None \<Rightarrow> True | Some (RZset z, _) \<Rightarrow> zinv z | _ \<Rightarrow> False)"

definition holds_list :: "entry option \<Rightarrow> bool" where
  "holds_list e = (case e of None \<Rightarrow> True | Some (RList _, _) \<Rightarrow> True | _ \<Rightarrow> False)"

definition holds_cnt :: "entry option \<Rightarrow> bool" where
  "holds_cnt e = (case e of None \<Rightarrow> True | Some (RCnt _, _) \<Rightarrow> True | _ \<Rightarrow> False)"

definition holds_str :: "entry option \<Rightarrow> bool" where
  "holds_str e = (case e of None \<Rightarrow> True | Some (RStr _, _) \<Rightarrow> True | _ \<Rightarrow> False)"

definition holds_hash :: "entry option \<Rightarrow> bool" where
  "holds_hash e = (case e of None \<Rightarrow> True | Some (RHash _, _) \<Rightarrow> True | _ \<Rightarrow> False)"

text \<open>An empty sorted set or list is the absence of its key.\<close>

definition put_zset :: "zset \<Rightarrow> entry option \<Rightarrow> entry option" where
  "put_zset z e = (if z = [] then None else Some (RZset z, ttl_of e))"

definition put_list :: "string list \<Rightarrow> entry option \<Rightarrow> entry option" where
  "put_list xs e = (if xs = [] then None else Some (RList xs, ttl_of e))"

definition with_ttl :: "rat \<Rightarrow> entry option \<Rightarrow> entry option" where
  "with_ttl d e = (case e of Some (v, _) \<Rightarrow> Some (v, Some d) | None \<Rightarrow> None)"

text \<open>What is left of an entry at a time \<open>t\<close> (milliseconds).\<close>

definition alive_at :: "rat \<Rightarrow> entry option \<Rightarrow> entry option" where
  "alive_at t e = (case e of Some (v, Some d) \<Rightarrow> (if t < d then e else None) | _ \<Rightarrow> e)"

named_theorems entry_simps \<open>reading and writing entries of a keyspace\<close>

lemma zset_of_simps [simp]:
  "zset_of None = []" "zset_of (Some (RZset z, d)) = z" "zset_of (put_zset z e) = z"
  by (simp_all add: zset_of_def put_zset_def)

lemma list_of_simps [simp]:
  "list_of None = []" "list_of (Some (RList xs, d)) = xs" "list_of (put_list xs e) = xs"
  by (simp_all add: list_of_def put_list_def)

lemma cnt_of_simps [simp]: "cnt_of None = 0" "cnt_of (Some (RCnt n, d)) = n"
  by (simp_all add: cnt_of_def)

lemma cnt_of_with_ttl [simp]: "cnt_of (with_ttl d e) = cnt_of e"
  by (simp add: with_ttl_def cnt_of_def split: option.split prod.split rvalue.split)

lemma str_of_simps [simp]: "str_of None = None" "str_of (Some (RStr v, d)) = Some v"
  by (simp_all add: str_of_def)

lemma hash_of_simps [simp]: "hash_of None = Map.empty" "hash_of (Some (RHash h, d)) = h"
  by (simp_all add: hash_of_def)

lemma ttl_of_simps [simp]: "ttl_of None = None" "ttl_of (Some (v, d)) = d"
  by (simp_all add: ttl_of_def)

lemma holds_simps [simp]:
  "holds_zset None" "holds_zset (Some (RZset z, d)) = zinv z"
  "holds_list None" "holds_list (Some (RList xs, d))"
  "holds_cnt None" "holds_cnt (Some (RCnt n, d))"
  "holds_str None" "holds_str (Some (RStr v, d))"
  "holds_hash None" "holds_hash (Some (RHash h, d))"
  by (simp_all add: holds_zset_def holds_list_def holds_cnt_def holds_str_def holds_hash_def)

lemma holds_put [simp]:
  "zinv z \<Longrightarrow> holds_zset (put_zset z e)" "holds_list (put_list xs e)"
  by (simp_all add: put_zset_def put_list_def)

lemma holds_with_ttl [simp]:
  "holds_cnt (with_ttl d e) = holds_cnt e" "holds_list (with_ttl d e) = holds_list e"
  by (simp_all add: with_ttl_def holds_cnt_def holds_list_def split: option.split prod.split rvalue.split)

lemma list_of_with_ttl [simp]: "list_of (with_ttl d e) = list_of e"
  by (simp add: with_ttl_def list_of_def split: option.split prod.split rvalue.split)

lemma zinv_zset_of [simp]: "holds_zset e \<Longrightarrow> zinv (zset_of e)"
  by (auto simp: holds_zset_def zset_of_def zs.invar_empty split: option.splits rvalue.splits)

lemma holds_alive_at [simp]:
  "holds_zset e \<Longrightarrow> holds_zset (alive_at t e)" "holds_list e \<Longrightarrow> holds_list (alive_at t e)"
  "holds_cnt e \<Longrightarrow> holds_cnt (alive_at t e)" "holds_str e \<Longrightarrow> holds_str (alive_at t e)"
  "holds_hash e \<Longrightarrow> holds_hash (alive_at t e)"
  by (auto simp: alive_at_def split: option.splits prod.splits)

section \<open>The commands\<close>

record 's redis =
  r_TIME :: "'s \<Rightarrow> int \<times> int"
  r_GET :: "string \<Rightarrow> 's \<Rightarrow> string option"
  r_GET_number :: "string \<Rightarrow> 's \<Rightarrow> int option"
  r_SET_PX :: "string \<Rightarrow> string \<Rightarrow> rat \<Rightarrow> 's \<Rightarrow> (exn + unit) \<times> 's"
  r_SET_NX_EX :: "string \<Rightarrow> string \<Rightarrow> int \<Rightarrow> 's \<Rightarrow> bool \<times> 's"
  r_INCR :: "string \<Rightarrow> 's \<Rightarrow> 's"
  r_PEXPIRE :: "string \<Rightarrow> rat \<Rightarrow> 's \<Rightarrow> (exn + unit) \<times> 's"
  r_DEL :: "string \<Rightarrow> 's \<Rightarrow> int \<times> 's"
  r_ZADD :: "string \<Rightarrow> rat \<Rightarrow> string \<Rightarrow> 's \<Rightarrow> 's"
  r_ZREM :: "string \<Rightarrow> string \<Rightarrow> 's \<Rightarrow> int \<times> 's"
  r_ZCARD :: "string \<Rightarrow> 's \<Rightarrow> int"
  r_ZSCORE :: "string \<Rightarrow> string \<Rightarrow> 's \<Rightarrow> rat option"
  r_ZRANGE_0_0 :: "string \<Rightarrow> 's \<Rightarrow> string option"
  r_ZREMRANGEBYSCORE :: "string \<Rightarrow> rat \<Rightarrow> 's \<Rightarrow> 's"
  r_RPUSH :: "string \<Rightarrow> string \<Rightarrow> 's \<Rightarrow> 's"
  r_LPOP :: "string \<Rightarrow> 's \<Rightarrow> string option \<times> 's"
  r_HGET :: "string \<Rightarrow> string \<Rightarrow> 's \<Rightarrow> hval option"
  r_HSET :: "string \<Rightarrow> string \<Rightarrow> hval \<Rightarrow> 's \<Rightarrow> 's"
  r_HINCRBY :: "string \<Rightarrow> string \<Rightarrow> 's \<Rightarrow> int \<times> 's"
  r_PUBLISH :: "string \<Rightarrow> string \<Rightarrow> 's \<Rightarrow> 's"

text \<open>The time of the server in milliseconds, exactly and as the scripts compute it.\<close>

definition clock_ms :: "'s redis \<Rightarrow> 's \<Rightarrow> rat" where
  "clock_ms R s = (case r_TIME R s of (sec, usec) \<Rightarrow> of_int sec * 1000 + of_int usec / 1000)"

section \<open>The documented behaviour\<close>

locale redis_server =
  fixes R :: "'s redis"
    and look :: "'s \<Rightarrow> keyspace"
    and elapses :: "'s \<Rightarrow> 's \<Rightarrow> bool"
  assumes TIME_range: "r_TIME R s = (sec, usec) \<Longrightarrow>
      0 \<le> sec \<and> sec < 100000000000 \<and> 0 \<le> usec \<and> usec < 1000000"
    and GET: "holds_str (look s k) \<Longrightarrow> r_GET R k s = str_of (look s k)"
    and GET_number: "holds_cnt (look s k) \<Longrightarrow>
      r_GET_number R k s = (if look s k = None then None else Some (cnt_of (look s k)))"
    and SET_PX: "is_integral ttl \<Longrightarrow> 0 < ttl \<Longrightarrow> fst (r_SET_PX R k v ttl s) = Inr () \<and>
      look (snd (r_SET_PX R k v ttl s)) = (look s)(k \<mapsto> (RStr v, Some (clock_ms R s + ttl)))"
    and SET_PX_fraction: "\<not> is_integral ttl \<Longrightarrow> r_SET_PX R k v ttl s = (Inl ResponseError, s)"
    and SET_NX_EX: "0 < ex \<Longrightarrow>
      fst (r_SET_NX_EX R k v ex s) = (look s k = None) \<and>
      look (snd (r_SET_NX_EX R k v ex s)) = (if look s k = None
        then (look s)(k \<mapsto> (RStr v, Some (clock_ms R s + 1000 * of_int ex))) else look s)"
    and INCR: "holds_cnt (look s k) \<Longrightarrow> look (r_INCR R k s) =
      (look s)(k \<mapsto> (RCnt (cnt_of (look s k) + 1), ttl_of (look s k)))"
    and PEXPIRE: "is_integral ttl \<Longrightarrow> 0 < ttl \<Longrightarrow> fst (r_PEXPIRE R k ttl s) = Inr () \<and>
      look (snd (r_PEXPIRE R k ttl s)) = (look s)(k := with_ttl (clock_ms R s + ttl) (look s k))"
    and PEXPIRE_fraction: "\<not> is_integral ttl \<Longrightarrow> r_PEXPIRE R k ttl s = (Inl ResponseError, s)"
    and DEL: "fst (r_DEL R k s) = (if look s k = None then 0 else 1) \<and>
      look (snd (r_DEL R k s)) = (look s)(k := None)"
    and ZADD: "holds_zset (look s k) \<Longrightarrow> look (r_ZADD R k sc m s) =
      (look s)(k := put_zset (zadd sc m (zset_of (look s k))) (look s k))"
    and ZREM: "holds_zset (look s k) \<Longrightarrow>
      fst (r_ZREM R k m s) = (if zscore (zset_of (look s k)) m = None then 0 else 1) \<and>
      look (snd (r_ZREM R k m s)) =
        (look s)(k := put_zset (zrem m (zset_of (look s k))) (look s k))"
    and ZCARD: "holds_zset (look s k) \<Longrightarrow> r_ZCARD R k s = int (length (zset_of (look s k)))"
    and ZSCORE: "holds_zset (look s k) \<Longrightarrow> r_ZSCORE R k m s = zscore (zset_of (look s k)) m"
    and ZRANGE_0_0: "holds_zset (look s k) \<Longrightarrow> r_ZRANGE_0_0 R k s = zhead (zset_of (look s k))"
    and ZREMRANGEBYSCORE: "holds_zset (look s k) \<Longrightarrow> look (r_ZREMRANGEBYSCORE R k mx s) =
      (look s)(k := put_zset (zprune mx (zset_of (look s k))) (look s k))"
    and RPUSH: "holds_list (look s k) \<Longrightarrow> look (r_RPUSH R k v s) =
      (look s)(k := put_list (list_of (look s k) @ [v]) (look s k))"
    and LPOP: "holds_list (look s k) \<Longrightarrow>
      fst (r_LPOP R k s) = (case list_of (look s k) of [] \<Rightarrow> None | x # _ \<Rightarrow> Some x) \<and>
      look (snd (r_LPOP R k s)) = (look s)(k := put_list (tl (list_of (look s k))) (look s k))"
    and HGET: "holds_hash (look s k) \<Longrightarrow> r_HGET R k f s = hash_of (look s k) f"
    and HSET: "holds_hash (look s k) \<Longrightarrow> look (r_HSET R k f h s) =
      (look s)(k \<mapsto> (RHash ((hash_of (look s k))(f \<mapsto> h)), ttl_of (look s k)))"
    and HINCRBY: "holds_hash (look s k) \<Longrightarrow>
      hash_of (look s k) f = None \<and> n = 0 \<or> hash_of (look s k) f = Some (HNum n) \<Longrightarrow>
      fst (r_HINCRBY R k f s) = n + 1 \<and> look (snd (r_HINCRBY R k f s)) =
        (look s)(k \<mapsto> (RHash ((hash_of (look s k))(f \<mapsto> HNum (n + 1))), ttl_of (look s k)))"
    and PUBLISH: "look (r_PUBLISH R c v s) = look s"
    and TIME_frozen [simp]:
      "r_TIME R (snd (r_SET_PX R k v ttl s)) = r_TIME R s"
      "r_TIME R (snd (r_SET_NX_EX R k v ex s)) = r_TIME R s"
      "r_TIME R (r_INCR R k s) = r_TIME R s"
      "r_TIME R (snd (r_PEXPIRE R k ttl s)) = r_TIME R s"
      "r_TIME R (snd (r_DEL R k s)) = r_TIME R s"
      "r_TIME R (r_ZADD R k sc m s) = r_TIME R s"
      "r_TIME R (snd (r_ZREM R k m s)) = r_TIME R s"
      "r_TIME R (r_ZREMRANGEBYSCORE R k mx s) = r_TIME R s"
      "r_TIME R (r_RPUSH R k v s) = r_TIME R s"
      "r_TIME R (snd (r_LPOP R k s)) = r_TIME R s"
      "r_TIME R (r_HSET R k f h s) = r_TIME R s"
      "r_TIME R (snd (r_HINCRBY R k f s)) = r_TIME R s"
      "r_TIME R (r_PUBLISH R c v s) = r_TIME R s"
    and elapses: "elapses s s' \<Longrightarrow> clock_ms R s \<le> clock_ms R s' \<and>
      (\<forall>k. look s' k = alive_at (clock_ms R s') (look s k))"
begin

lemma clock_frozen [simp]:
  "clock_ms R (snd (r_SET_PX R k v ttl s)) = clock_ms R s"
  "clock_ms R (snd (r_SET_NX_EX R k v ex s)) = clock_ms R s"
  "clock_ms R (r_INCR R k s) = clock_ms R s"
  "clock_ms R (snd (r_PEXPIRE R k ttl s)) = clock_ms R s"
  "clock_ms R (snd (r_DEL R k s)) = clock_ms R s"
  "clock_ms R (r_ZADD R k sc m s) = clock_ms R s"
  "clock_ms R (snd (r_ZREM R k m s)) = clock_ms R s"
  "clock_ms R (r_ZREMRANGEBYSCORE R k mx s) = clock_ms R s"
  "clock_ms R (r_RPUSH R k v s) = clock_ms R s"
  "clock_ms R (snd (r_LPOP R k s)) = clock_ms R s"
  "clock_ms R (r_HSET R k f h s) = clock_ms R s"
  "clock_ms R (snd (r_HINCRBY R k f s)) = clock_ms R s"
  "clock_ms R (r_PUBLISH R c v s) = clock_ms R s"
  by (simp_all add: clock_ms_def)

lemmas reads = GET GET_number ZCARD ZSCORE ZRANGE_0_0 HGET

lemmas writes = SET_PX [THEN conjunct2] SET_PX [THEN conjunct1] SET_NX_EX [THEN conjunct1]
  SET_NX_EX [THEN conjunct2] INCR PEXPIRE [THEN conjunct1] PEXPIRE [THEN conjunct2]
  DEL [THEN conjunct1] DEL [THEN conjunct2] ZADD ZREM [THEN conjunct1] ZREM [THEN conjunct2]
  ZREMRANGEBYSCORE RPUSH LPOP [THEN conjunct1] LPOP [THEN conjunct2] HSET PUBLISH

end

end
