(* ===== verification/Sliding_Window.thy ===== *)
theory Sliding_Window
  imports Redis
begin

text \<open>
  The sliding window counter that \<^verbatim>\<open>consume.lua\<close>, \<^verbatim>\<open>acquire.lua\<close> and \<^verbatim>\<open>health.lua\<close> evaluate: two
  adjacent fixed windows, the previous one weighted by the part of it that the sliding window
  still covers. The second half is the arithmetic the scripts' guarantees rest on.
\<close>

section \<open>The computation of the scripts\<close>

definition lua_now_ms :: "'s redis \<Rightarrow> 's \<Rightarrow> int" where
  "lua_now_ms R s = (case r_TIME R s of (sec, usec) \<Rightarrow> sec * 1000 + usec div 1000)"

definition window_start :: "rat \<Rightarrow> int \<Rightarrow> rat" where
  "window_start w now = of_int \<lfloor>of_int now / w\<rfloor> * w"

definition window_weight :: "rat \<Rightarrow> int \<Rightarrow> rat" where
  "window_weight w now = (w - (of_int now - window_start w now)) / w"

definition window_estimate :: "rat \<Rightarrow> int \<Rightarrow> int \<Rightarrow> int \<Rightarrow> rat" where
  "window_estimate w now previous current = of_int current + of_int previous * window_weight w now"

definition window_reset :: "rat \<Rightarrow> int \<Rightarrow> rat" where
  "window_reset w now = max 0 (window_start w now + w - of_int now)"

definition window_remaining :: "int \<Rightarrow> rat \<Rightarrow> int" where
  "window_remaining limit estimated = max 0 \<lfloor>of_int limit - estimated\<rfloor>"

definition window_key :: "string \<Rightarrow> rat \<Rightarrow> string" where
  "window_key base start = base @ '':'' @ lua_tostring start"

text \<open>The counters of the current and the previous fixed window, read from the server.\<close>

definition read_count :: "'s redis \<Rightarrow> string \<Rightarrow> 's \<Rightarrow> int" where
  "read_count R k s = (case r_GET_number R k s of Some n \<Rightarrow> n | None \<Rightarrow> 0)"

definition current_key :: "'s redis \<Rightarrow> string \<Rightarrow> rat \<Rightarrow> 's \<Rightarrow> string" where
  "current_key R base w s = window_key base (window_start w (lua_now_ms R s))"

definition previous_key :: "'s redis \<Rightarrow> string \<Rightarrow> rat \<Rightarrow> 's \<Rightarrow> string" where
  "previous_key R base w s = window_key base (window_start w (lua_now_ms R s) - w)"

section \<open>The weight and the estimate\<close>

lemma window_start_int [simp]: "window_start (of_int w) now = of_int (now div w * w)"
  by (simp add: window_start_def floor_divide_of_int_eq)

lemma window_start_le: "0 < w \<Longrightarrow> window_start w now \<le> of_int now"
proof -
  assume "0 < w"
  then have "of_int \<lfloor>of_int now / w\<rfloor> * w \<le> (of_int now / w) * w"
    by (intro mult_right_mono) simp_all
  with \<open>0 < w\<close> show ?thesis by (simp add: window_start_def)
qed

lemma window_start_gt: "0 < w \<Longrightarrow> of_int now - w < window_start w now"
  using floor_correct [of "of_int now / w"] by (simp add: window_start_def field_simps)

lemma window_weight_bounds: "0 < w \<Longrightarrow> 0 < window_weight w now \<and> window_weight w now \<le> 1"
  using window_start_le [of w now] window_start_gt [of w now]
  by (simp add: window_weight_def field_simps)

lemma window_weight_ge0: "0 < w \<Longrightarrow> 0 \<le> window_weight w now"
  using window_weight_bounds by (simp add: less_imp_le)

lemma window_reset_bounds: "0 < w \<Longrightarrow> 0 < window_reset w now \<and> window_reset w now \<le> w"
  using window_start_le [of w now] window_start_gt [of w now] by (simp add: window_reset_def)

lemma window_weight_reset: "0 < w \<Longrightarrow> window_weight w now = window_reset w now / w"
  using window_start_gt [of w now] by (simp add: window_weight_def window_reset_def algebra_simps)

lemma window_estimate_lower: "0 < w \<Longrightarrow> 0 \<le> p \<Longrightarrow> of_int c \<le> window_estimate w now p c"
  using window_weight_ge0 [of w now] by (simp add: window_estimate_def)

lemma window_estimate_upper: "0 < w \<Longrightarrow> 0 \<le> p \<Longrightarrow> window_estimate w now p c \<le> of_int (p + c)"
  using mult_left_le [of "window_weight w now" "of_int p"] window_weight_bounds [of w now]
  by (simp add: window_estimate_def)

text \<open>An estimate below the limit leaves room in the current fixed window.\<close>

lemma estimate_below_limit: "0 < w \<Longrightarrow> 0 \<le> p \<Longrightarrow> window_estimate w now p c < of_int limit \<Longrightarrow> c < limit"
  using window_estimate_lower [of w p c now] by linarith

text \<open>Within one fixed window the estimate only falls while the counters stay.\<close>

lemma window_estimate_antimono:
  assumes "0 < w" "0 \<le> p" "now \<le> now'" "window_start w now = window_start w now'"
  shows "window_estimate w now' p c \<le> window_estimate w now p c"
proof -
  have "window_weight w now' \<le> window_weight w now"
    using assms by (simp add: window_weight_def divide_right_mono)
  then show ?thesis using assms(2) by (simp add: window_estimate_def mult_left_mono)
qed

lemma window_remaining_nonneg [simp]: "0 \<le> window_remaining limit e"
  by (simp add: window_remaining_def)

lemma window_remaining_zero: "window_remaining limit e = 0 \<longleftrightarrow> of_int limit - e < 1"
  by (simp add: window_remaining_def max_def floor_less_iff not_le) linarith

lemma window_remaining_le: "of_int c \<le> e \<Longrightarrow> c \<le> limit \<Longrightarrow> window_remaining limit e \<le> limit - c"
proof -
  assume "of_int c \<le> e" "c \<le> limit"
  then have "\<lfloor>of_int limit - e\<rfloor> \<le> \<lfloor>of_int (limit - c) :: rat\<rfloor>" by (intro floor_mono) simp
  then show ?thesis using \<open>c \<le> limit\<close> by (simp add: window_remaining_def)
qed

section \<open>Fixed windows and sliding intervals\<close>

text \<open>An interval of one window length meets at most two fixed windows, so a log of times
  with at most \<open>L\<close> entries per fixed window has at most \<open>2 * L\<close> in any such interval.\<close>

definition in_window :: "int \<Rightarrow> int \<Rightarrow> int list \<Rightarrow> nat" where
  "in_window w q ts = length (filter (\<lambda>t. t div w = q) ts)"

definition in_interval :: "int \<Rightarrow> int \<Rightarrow> int list \<Rightarrow> nat" where
  "in_interval a w ts = length (filter (\<lambda>t. a \<le> t \<and> t < a + w) ts)"

lemma interval_two_windows:
  "0 < (w::int) \<Longrightarrow> a \<le> t \<Longrightarrow> t < a + w \<Longrightarrow> t div w = a div w \<or> t div w = a div w + 1"
proof -
  assume w: "0 < w" and "a \<le> t" and t: "t < a + w"
  then have "a div w \<le> t div w" by (simp add: zdiv_mono1)
  moreover from w t have "t div w \<le> (a + w) div w" by (intro zdiv_mono1) simp_all
  ultimately show ?thesis using w by auto
qed

lemma length_filter_disj:
  "length (filter (\<lambda>x. P x \<or> Q x) xs) \<le> length (filter P xs) + length (filter Q xs)"
  by (induction xs) auto

lemma length_filter_imp: "(\<And>x. P x \<Longrightarrow> Q x) \<Longrightarrow> length (filter P xs) \<le> length (filter Q xs)"
  by (induction xs) auto

lemma in_interval_le:
  assumes w: "0 < w" and le: "\<And>q. in_window w q ts \<le> L"
  shows "in_interval a w ts \<le> 2 * L"
proof -
  have "in_interval a w ts \<le>
      length (filter (\<lambda>t. t div w = a div w \<or> t div w = a div w + 1) ts)"
    unfolding in_interval_def using interval_two_windows [OF w] by (intro length_filter_imp) blast
  also have "\<dots> \<le> in_window w (a div w) ts + in_window w (a div w + 1) ts"
    unfolding in_window_def by (rule length_filter_disj)
  also have "\<dots> \<le> 2 * L" using le [of "a div w"] le [of "a div w + 1"] by simp
  finally show ?thesis .
qed

lemma in_window_append [simp]: "in_window w q (ts @ us) = in_window w q ts + in_window w q us"
  by (simp add: in_window_def)

lemma in_window_single [simp]: "in_window w q [t] = (if t div w = q then 1 else 0)"
  by (simp add: in_window_def)

lemma in_window_Nil [simp]: "in_window w q [] = 0"
  by (simp add: in_window_def)

end
