(* ===== verification/Lua_Scripts.thy ===== *)
theory Lua_Scripts
  imports Sliding_Window
begin

text \<open>
  The six scripts under \<^verbatim>\<open>src/redis_rate_limiter/lua/\<close>. Redis runs a script atomically, with
  the server time frozen, so each script is one function from a server state to a reply and the
  next state; a command that the server refuses aborts the script, and the writes made so far
  stay. A positional reply array is a record whose fields name the positions.
  \<^verbatim>\<open>cjson.decode\<close> is a library of the server and hence a parameter: it takes the text of a buffer
  member to the fields that the script reads, or to nothing when the text is not such an object
  (the members are only written by \<^verbatim>\<open>schedule.lua\<close>).
\<close>

section \<open>consume.lua\<close>

definition acquire_marker :: string where
  "acquire_marker = ''__redis_rate_limiter_acquire_marker__''"

record task_data =
  td_id :: string
  td_func_path :: string
  td_inflight_key :: string
  td_arrived_at :: rat
  td_max_age :: "rat option"
  td_timeout_ms :: "rat option"

type_synonym cjson = "string \<Rightarrow> task_data option"

record consume_args =
  ca_base_key :: string
  ca_buffer_key :: string
  ca_concurrency_key :: string
  ca_dlq_key :: string
  ca_window :: rat
  ca_limit :: int
  ca_max_concurrency :: int
  ca_max_age :: "int option"
  ca_lease_duration :: "int option"
  ca_worker_id :: string

record consume_reply =
  cr_status :: int
  cr_task :: "string option"
  cr_remaining :: int
  cr_active :: int
  cr_reset_in_ms :: int
  cr_buffer :: int
  cr_previous :: int
  cr_current :: int

definition last_consumer_key :: "string \<Rightarrow> string" where
  "last_consumer_key base = base @ '':last_consumer''"

definition last_caller_key :: "string \<Rightarrow> string" where
  "last_caller_key base = base @ '':last_caller''"

definition signal_key :: "string \<Rightarrow> string \<Rightarrow> string" where
  "signal_key base task_id = base @ '':acquire:'' @ task_id"

definition window_ms :: "rat \<Rightarrow> rat" where
  "window_ms window = window * 1000"

definition counter_ttl :: "rat \<Rightarrow> rat" where
  "counter_ttl window = 2 * window_ms window + 10000"

definition yield_reply :: "int \<Rightarrow> consume_reply" where
  "yield_reply active_now = \<lparr>cr_status = - 3, cr_task = None, cr_remaining = 0, cr_active = active_now,
     cr_reset_in_ms = 0, cr_buffer = 0, cr_previous = 0, cr_current = 0\<rparr>"

text \<open>The telemetry of one call, with the status of a blocked call.\<close>

definition consume_telemetry :: "'s redis \<Rightarrow> consume_args \<Rightarrow> int \<Rightarrow> 's \<Rightarrow> consume_reply" where
  "consume_telemetry R a active_now s =
     (let w = window_ms (ca_window a); now = lua_now_ms R s;
          cur = read_count R (current_key R (ca_base_key a) w s) s;
          prev = read_count R (previous_key R (ca_base_key a) w s) s
      in \<lparr>cr_status = 0, cr_task = None,
          cr_remaining = window_remaining (ca_limit a) (window_estimate w now prev cur),
          cr_active = active_now,
          cr_reset_in_ms = redis_int (window_reset w now),
          cr_buffer = r_ZCARD R (ca_buffer_key a) s,
          cr_previous = prev, cr_current = cur\<rparr>)"

text \<open>A task older than its maximum age goes to the dead letter queue, an acquire marker is
  dropped; either way the deduplication marker is cleared.\<close>

definition consume_expired ::
  "'s redis \<Rightarrow> consume_args \<Rightarrow> string \<Rightarrow> task_data \<Rightarrow> consume_reply \<Rightarrow> 's \<Rightarrow> consume_reply \<times> 's" where
  "consume_expired R a raw td t s =
     (let s1 = (if td_func_path td \<noteq> acquire_marker then r_RPUSH R (ca_dlq_key a) raw s else s);
          s2 = snd (r_DEL R (td_inflight_key td) s1)
      in (t\<lparr>cr_status := - 1, cr_buffer := cr_buffer t - 1\<rparr>, s2))"

text \<open>Admission: count the task, take the lease, wake the caller of an acquire marker.\<close>

definition consume_signal ::
  "'s redis \<Rightarrow> consume_args \<Rightarrow> task_data \<Rightarrow> 's \<Rightarrow> (exn + unit) \<times> 's" where
  "consume_signal R a td s =
     (if td_func_path td = acquire_marker
      then (let k = signal_key (ca_base_key a) (td_id td); s1 = r_RPUSH R k (td_id td) s
            in case td_timeout_ms td of
                 None \<Rightarrow> (Inl ResponseError, s1)
               | Some timeout \<Rightarrow> r_PEXPIRE R k timeout s1)
      else (Inr (), s))"

definition count_admission :: "'s redis \<Rightarrow> string \<Rightarrow> rat \<Rightarrow> int \<Rightarrow> 's \<Rightarrow> (exn + unit) \<times> 's" where
  "count_admission R key ttl current_count s =
     (let s1 = r_INCR R key s
      in if current_count = 0 then r_PEXPIRE R key ttl s1 else (Inr (), s1))"

definition consume_admit ::
  "'s redis \<Rightarrow> consume_args \<Rightarrow> string \<Rightarrow> task_data \<Rightarrow> consume_reply \<Rightarrow> 's
     \<Rightarrow> (exn + consume_reply) \<times> 's" where
  "consume_admit R a raw td t s =
     (let w = window_ms (ca_window a); ttl = counter_ttl (ca_window a);
          lease = (case ca_lease_duration a of Some l \<Rightarrow> l | None \<Rightarrow> 30);
          timestamp = fst (r_TIME R s)
      in case count_admission R (current_key R (ca_base_key a) w s) ttl (cr_current t) s of
           (Inl e, s1) \<Rightarrow> (Inl e, s1)
         | (Inr _, s1) \<Rightarrow>
             (let s2 = r_ZADD R (ca_concurrency_key a) (of_int (timestamp + lease)) (td_id td) s1
              in case consume_signal R a td s2 of
                   (Inl e, s3) \<Rightarrow> (Inl e, s3)
                 | (Inr _, s3) \<Rightarrow>
                     (case r_SET_PX R (last_consumer_key (ca_base_key a)) (ca_worker_id a) ttl s3 of
                        (Inl e, s4) \<Rightarrow> (Inl e, s4)
                      | (Inr _, s4) \<Rightarrow>
                          (Inr (t\<lparr>cr_status := 1, cr_task := Some raw,
                                  cr_remaining := cr_remaining t - 1, cr_active := cr_active t + 1,
                                  cr_buffer := cr_buffer t - 1, cr_current := cr_current t + 1\<rparr>), s4))))"

definition marker_deadline_passed :: "task_data \<Rightarrow> int \<Rightarrow> bool" where
  "marker_deadline_passed td now =
     (td_func_path td = acquire_marker \<and>
      (case td_timeout_ms td of None \<Rightarrow> False
       | Some timeout \<Rightarrow> td_arrived_at td + timeout \<le> of_int now))"

definition task_expired :: "consume_args \<Rightarrow> task_data \<Rightarrow> int \<Rightarrow> bool" where
  "task_expired a td timestamp =
     (let max_age = (case ca_max_age a of Some m \<Rightarrow> m | None \<Rightarrow> 3600);
          effective = (case td_max_age td of Some m \<Rightarrow> m | None \<Rightarrow> of_int max_age)
      in effective < of_int (timestamp - \<lfloor>td_arrived_at td / 1000\<rfloor>))"

definition consume_head ::
  "'s redis \<Rightarrow> consume_args \<Rightarrow> string \<Rightarrow> task_data \<Rightarrow> consume_reply \<Rightarrow> 's
     \<Rightarrow> (exn + consume_reply) \<times> 's" where
  "consume_head R a raw td t s =
     (let s1 = snd (r_ZREM R (ca_buffer_key a) raw s)
      in if task_expired a td (fst (r_TIME R s))
         then (case consume_expired R a raw td t s1 of (r, s2) \<Rightarrow> (Inr r, s2))
         else if marker_deadline_passed td (lua_now_ms R s)
         then (Inr (t\<lparr>cr_status := - 2, cr_buffer := cr_buffer t - 1\<rparr>),
               snd (r_DEL R (td_inflight_key td) s1))
         else consume_admit R a raw td t s1)"

definition consume_attempt ::
  "'s redis \<Rightarrow> cjson \<Rightarrow> consume_args \<Rightarrow> int \<Rightarrow> 's \<Rightarrow> (exn + consume_reply) \<times> 's" where
  "consume_attempt R decode a active_now s =
     (let t = consume_telemetry R a active_now s; w = window_ms (ca_window a)
      in if window_estimate w (lua_now_ms R s) (cr_previous t) (cr_current t) < of_int (ca_limit a)
            \<and> active_now < ca_max_concurrency a
         then (case r_ZRANGE_0_0 R (ca_buffer_key a) s of
                 None \<Rightarrow> (Inr t, s)
               | Some raw \<Rightarrow>
                   (case decode raw of
                      None \<Rightarrow> (Inl ResponseError, s)
                    | Some td \<Rightarrow> consume_head R a raw td t s))
         else (Inr t, s))"

definition must_yield :: "string \<Rightarrow> string option \<Rightarrow> string option \<Rightarrow> bool" where
  "must_yield worker last_consumer last_caller =
     (last_consumer = Some worker \<and> last_caller \<noteq> None \<and> last_caller \<noteq> Some worker)"

definition prune_leases :: "'s redis \<Rightarrow> string \<Rightarrow> 's \<Rightarrow> 's" where
  "prune_leases R k s = r_ZREMRANGEBYSCORE R k (of_int (fst (r_TIME R s) - 1)) s"

definition consume_lua ::
  "'s redis \<Rightarrow> cjson \<Rightarrow> consume_args \<Rightarrow> 's \<Rightarrow> (exn + consume_reply) \<times> 's" where
  "consume_lua R decode a s =
     (let base = ca_base_key a; worker = ca_worker_id a;
          s1 = prune_leases R (ca_concurrency_key a) s;
          active_now = r_ZCARD R (ca_concurrency_key a) s1;
          last_consumer = r_GET R (last_consumer_key base) s1;
          last_caller = r_GET R (last_caller_key base) s1
      in case r_SET_PX R (last_caller_key base) worker (counter_ttl (ca_window a)) s1 of
           (Inl e, s2) \<Rightarrow> (Inl e, s2)
         | (Inr _, s2) \<Rightarrow>
             (if must_yield worker last_consumer last_caller
              then (Inr (yield_reply active_now), s2)
              else consume_attempt R decode a active_now s2))"

section \<open>schedule.lua\<close>

text \<open>\<^verbatim>\<open>string.gsub(task_json, '}$', fields .. '}', 1)\<close>: only a brace at the very end is replaced.\<close>

definition inject_metadata :: "string \<Rightarrow> rat \<Rightarrow> rat option \<Rightarrow> string" where
  "inject_metadata task_json now override =
     (let fields = '',\"__meta_arrived_at\":'' @ lua_tostring now
            @ (case override of None \<Rightarrow> [] | Some m \<Rightarrow> '',\"__meta_max_age\":'' @ lua_tostring m)
      in if task_json \<noteq> [] \<and> last task_json = CHR ''}''
         then butlast task_json @ fields @ ''}'' else task_json)"

definition schedule_lua ::
  "'s redis \<Rightarrow> string \<Rightarrow> string \<Rightarrow> rat \<Rightarrow> rat option \<Rightarrow> 's \<Rightarrow> 's" where
  "schedule_lua R buffer_key task_json priority override s =
     r_ZADD R buffer_key priority (inject_metadata task_json (of_int (lua_now_ms R s)) override) s"

section \<open>acquire.lua\<close>

record acquire_reply =
  ar_allowed :: int
  ar_remaining :: int
  ar_reset_in_ms :: int
  ar_previous :: int
  ar_current :: int

definition acquire_lua ::
  "'s redis \<Rightarrow> string \<Rightarrow> rat \<Rightarrow> int \<Rightarrow> 's \<Rightarrow> (exn + acquire_reply) \<times> 's" where
  "acquire_lua R base window limit s =
     (let w = window_ms window; now = lua_now_ms R s;
          key = current_key R base w s;
          cur = read_count R key s;
          prev = read_count R (previous_key R base w s) s;
          estimated = window_estimate w now prev cur;
          remaining = window_remaining limit estimated;
          reset = redis_int (window_reset w now)
      in if estimated < of_int limit
         then (case count_admission R key (counter_ttl window) cur s of
                 (Inl e, s1) \<Rightarrow> (Inl e, s1)
               | (Inr _, s1) \<Rightarrow>
                   (Inr \<lparr>ar_allowed = 1, ar_remaining = remaining - 1, ar_reset_in_ms = reset,
                         ar_previous = prev, ar_current = cur + 1\<rparr>, s1))
         else (Inr \<lparr>ar_allowed = 0, ar_remaining = remaining, ar_reset_in_ms = reset,
                    ar_previous = prev, ar_current = cur\<rparr>, s))"

section \<open>health.lua\<close>

record health_reply =
  hr_previous :: int
  hr_current :: int
  hr_estimated :: int
  hr_active :: int
  hr_reset_in_ms :: int
  hr_buffer :: int

definition health_lua :: "'s redis \<Rightarrow> string \<Rightarrow> string \<Rightarrow> string \<Rightarrow> rat \<Rightarrow> 's \<Rightarrow> health_reply" where
  "health_lua R base buffer_key concurrency_key window s =
     (let w = window_ms window; now = lua_now_ms R s;
          cur = read_count R (current_key R base w s) s;
          prev = read_count R (previous_key R base w s) s
      in \<lparr>hr_previous = prev, hr_current = cur,
          hr_estimated = redis_int (window_estimate w now prev cur),
          hr_active = r_ZCARD R concurrency_key s,
          hr_reset_in_ms = redis_int (window_reset w now),
          hr_buffer = r_ZCARD R buffer_key s\<rparr>)"

section \<open>renew.lua and release.lua\<close>

definition renew_lua :: "'s redis \<Rightarrow> string \<Rightarrow> string \<Rightarrow> int \<Rightarrow> 's \<Rightarrow> int \<times> 's" where
  "renew_lua R concurrency_key task_id lease_duration s =
     (case r_ZSCORE R concurrency_key task_id s of
        Some _ \<Rightarrow> (1, r_ZADD R concurrency_key (of_int (fst (r_TIME R s) + lease_duration)) task_id s)
      | None \<Rightarrow> (0, s))"

definition release_lua ::
  "'s redis \<Rightarrow> string \<Rightarrow> string \<Rightarrow> string \<Rightarrow> string \<Rightarrow> string \<Rightarrow> 's \<Rightarrow> (int \<times> int) \<times> 's" where
  "release_lua R concurrency_key inflight_key channel task_id worker_id s =
     (if task_id \<noteq> []
      then (case r_ZREM R concurrency_key task_id s of (n, s1) \<Rightarrow>
            (case r_DEL R inflight_key s1 of (m, s2) \<Rightarrow>
             ((n, m), r_PUBLISH R channel worker_id s2)))
      else ((0, 0), r_PUBLISH R channel worker_id s))"

end
