(* ===== verification/Keys.thy ===== *)
theory Keys
  imports Lua_Scripts
begin

text \<open>
  The keys of one limiter: their construction in \<^verbatim>\<open>DistributedRateLimiterMixin.__init__\<close> and
  \<^verbatim>\<open>get_inflight_key\<close> beside those the scripts build, the type each key holds, and the facts that
  keep them apart.
\<close>

section \<open>Construction\<close>

definition buffer_key :: "string \<Rightarrow> string" where
  "buffer_key i = i @ '':buffer''"

definition concurrency_key :: "string \<Rightarrow> string" where
  "concurrency_key i = i @ '':concurrency''"

definition dlq_key :: "string \<Rightarrow> string" where
  "dlq_key i = i @ '':dlq''"

definition drain_signal_channel :: "string \<Rightarrow> string" where
  "drain_signal_channel i = i @ '':drain_signal''"

definition get_inflight_key :: "string \<Rightarrow> string \<Rightarrow> string" where
  "get_inflight_key i task_id = i @ '':inflight:'' @ task_id"

text \<open>The arguments with which a limiter calls \<^verbatim>\<open>consume.lua\<close>.\<close>

definition args_for :: "string \<Rightarrow> consume_args \<Rightarrow> bool" where
  "args_for i a = (ca_base_key a = i \<and> ca_buffer_key a = buffer_key i
     \<and> ca_concurrency_key a = concurrency_key i \<and> ca_dlq_key a = dlq_key i)"

text \<open>The type of every key of a limiter.\<close>

definition typed :: "string \<Rightarrow> keyspace \<Rightarrow> bool" where
  "typed i K = (holds_zset (K (buffer_key i)) \<and> holds_zset (K (concurrency_key i))
     \<and> holds_list (K (dlq_key i)) \<and> holds_str (K (last_consumer_key i))
     \<and> holds_str (K (last_caller_key i))
     \<and> (\<forall>x. holds_cnt (K (window_key i x)))
     \<and> (\<forall>t. holds_str (K (get_inflight_key i t)))
     \<and> (\<forall>t. holds_list (K (signal_key i t))))"

section \<open>Keys of different kinds differ\<close>

definition num_char :: "char \<Rightarrow> bool" where
  "num_char c = (is_digit c \<or> c \<in> {CHR ''-'', CHR ''.'', CHR ''e'', CHR ''+''})"

lemma dec_int_num: "list_all num_char (dec_int i)"
  using dec_int_chars [of i] by (auto simp: list_all_iff num_char_def)

lemma num_take [simp]: "list_all num_char s \<Longrightarrow> list_all num_char (take n s)"
  by (auto simp: list_all_iff dest: in_set_takeD)

lemma num_drop [simp]: "list_all num_char s \<Longrightarrow> list_all num_char (drop n s)"
  by (auto simp: list_all_iff dest: in_set_dropD)

lemma num_zero [simp]: "num_char CHR ''0''"
  by (simp add: num_char_def is_digit_def)

lemma num_strip_zeros [simp]: "list_all num_char s \<Longrightarrow> list_all num_char (strip_zeros s)"
  unfolding list_all_iff strip_zeros_def by (metis set_dropWhileD set_rev)

lemma num_frac_part [simp]: "list_all num_char s \<Longrightarrow> list_all num_char (frac_part s)"
  by (simp add: frac_part_def Let_def) (simp add: num_char_def)

lemma num_pad_left [simp]: "list_all num_char s \<Longrightarrow> list_all num_char (pad_left n s)"
  by (auto simp: pad_left_def list_all_iff)

lemma num_fmt_g14: "list_all num_char (fmt_g14 a)"
proof -
  obtain d e where "digits14 a = (d, e)" by force
  moreover have "num_char CHR ''e''" "num_char CHR ''-''" "num_char CHR ''+''"
    by (simp_all add: num_char_def)
  moreover have "list_all num_char (replicate n CHR ''0'')" for n by (simp add: list_all_iff)
  ultimately show ?thesis by (simp add: fmt_g14_def Let_def dec_int_num)
qed

lemma num_lua_tostring: "list_all num_char (lua_tostring x)"
  using num_fmt_g14 [of x] num_fmt_g14 [of "- x"] dec_int_num [of "\<lfloor>x\<rfloor>"]
  by (simp add: lua_tostring_def, simp add: num_char_def)

lemma lua_tostring_neq: "\<not> list_all num_char s \<Longrightarrow> lua_tostring x \<noteq> s"
  using num_lua_tostring [of x] by auto

lemmas key_defs = buffer_key_def concurrency_key_def dlq_key_def get_inflight_key_def
  last_consumer_key_def last_caller_key_def signal_key_def window_key_def

lemma window_key_neq [simp]:
  "window_key i x \<noteq> buffer_key i" "window_key i x \<noteq> concurrency_key i"
  "window_key i x \<noteq> dlq_key i" "window_key i x \<noteq> last_consumer_key i"
  "window_key i x \<noteq> last_caller_key i" "window_key i x \<noteq> get_inflight_key i t"
  "window_key i x \<noteq> signal_key i t"
  by (simp_all add: key_defs lua_tostring_neq num_char_def is_digit_def)

lemmas window_key_neq' [simp] = window_key_neq [THEN not_sym]

lemma key_neq [simp]:
  "buffer_key i \<noteq> concurrency_key i" "buffer_key i \<noteq> dlq_key i"
  "buffer_key i \<noteq> last_consumer_key i" "buffer_key i \<noteq> last_caller_key i"
  "buffer_key i \<noteq> get_inflight_key i t" "buffer_key i \<noteq> signal_key i t"
  "concurrency_key i \<noteq> dlq_key i"
  "concurrency_key i \<noteq> last_consumer_key i" "concurrency_key i \<noteq> last_caller_key i"
  "concurrency_key i \<noteq> get_inflight_key i t" "concurrency_key i \<noteq> signal_key i t"
  "dlq_key i \<noteq> last_consumer_key i" "dlq_key i \<noteq> last_caller_key i"
  "dlq_key i \<noteq> get_inflight_key i t" "dlq_key i \<noteq> signal_key i t"
  "last_consumer_key i \<noteq> last_caller_key i"
  "last_consumer_key i \<noteq> get_inflight_key i t" "last_consumer_key i \<noteq> signal_key i t"
  "last_caller_key i \<noteq> get_inflight_key i t" "last_caller_key i \<noteq> signal_key i t"
  "get_inflight_key i t \<noteq> signal_key i u"
  by (simp_all add: key_defs)

lemmas key_neq' [simp] = key_neq [THEN not_sym]

lemma key_inject [simp]:
  "get_inflight_key i t = get_inflight_key i u \<longleftrightarrow> t = u"
  "signal_key i t = signal_key i u \<longleftrightarrow> t = u"
  by (simp_all add: key_defs)

lemma window_key_inject:
  "\<bar>m\<bar> < 10 ^ 14 \<Longrightarrow> \<bar>n\<bar> < 10 ^ 14 \<Longrightarrow>
    window_key i (of_int m) = window_key i (of_int n) \<longleftrightarrow> m = n"
  by (simp add: window_key_def)

lemma typedD:
  assumes "typed i K"
  shows "holds_zset (K (buffer_key i))" "holds_zset (K (concurrency_key i))"
    "holds_list (K (dlq_key i))" "holds_str (K (last_consumer_key i))"
    "holds_str (K (last_caller_key i))" "holds_cnt (K (window_key i x))"
    "holds_str (K (get_inflight_key i t))" "holds_list (K (signal_key i t))"
  using assms by (simp_all add: typed_def)

text \<open>Writing a key with a value of its type keeps the types.\<close>

lemma typed_upd:
  assumes "typed i K"
  shows "holds_zset e \<Longrightarrow> typed i (K(buffer_key i := e))"
    "holds_zset e \<Longrightarrow> typed i (K(concurrency_key i := e))"
    "holds_list e \<Longrightarrow> typed i (K(dlq_key i := e))"
    "holds_str e \<Longrightarrow> typed i (K(last_consumer_key i := e))"
    "holds_str e \<Longrightarrow> typed i (K(last_caller_key i := e))"
    "holds_cnt e \<Longrightarrow> typed i (K(window_key i x := e))"
    "holds_str e \<Longrightarrow> typed i (K(get_inflight_key i t := e))"
    "holds_list e \<Longrightarrow> typed i (K(signal_key i t := e))"
  using assms by (auto simp: typed_def)

lemma typed_empty [simp]: "typed i Map.empty"
  by (simp add: typed_def)

lemma typed_alive: "typed i K \<Longrightarrow> typed i (\<lambda>k. alive_at t (K k))"
  by (simp add: typed_def)

end
