(* ===== verification/Mem_Redis.thy ===== *)
theory Mem_Redis
  imports Redis
begin

text \<open>
  An executable server: the keyspace itself, with the time of day and the messages published.
  It satisfies the laws of \<open>redis_server\<close>, and the concrete runs of the development use it.
\<close>

record mem =
  ks :: keyspace
  sec :: int
  usec :: int
  msgs :: "(string \<times> string) list"

definition mem_ms :: "mem \<Rightarrow> rat" where
  "mem_ms s = of_int (sec s) * 1000 + of_int (usec s) / 1000"

text \<open>Every state has a time a server can report.\<close>

definition mem_TIME :: "mem \<Rightarrow> int \<times> int" where
  "mem_TIME s = (if 0 \<le> sec s \<and> sec s < 100000000000 \<and> 0 \<le> usec s \<and> usec s < 1000000
     then (sec s, usec s) else (0, 0))"

definition mem_clock :: "mem \<Rightarrow> rat" where
  "mem_clock s = (case mem_TIME s of (a, b) \<Rightarrow> of_int a * 1000 + of_int b / 1000)"

definition mem_SET_PX :: "string \<Rightarrow> string \<Rightarrow> rat \<Rightarrow> mem \<Rightarrow> (exn + unit) \<times> mem" where
  "mem_SET_PX k v ttl s = (if is_integral ttl
     then (Inr (), s\<lparr>ks := (ks s)(k \<mapsto> (RStr v, Some (mem_clock s + ttl)))\<rparr>)
     else (Inl ResponseError, s))"

definition mem_SET_NX_EX :: "string \<Rightarrow> string \<Rightarrow> int \<Rightarrow> mem \<Rightarrow> bool \<times> mem" where
  "mem_SET_NX_EX k v ex s = (if ks s k = None
     then (True, s\<lparr>ks := (ks s)(k \<mapsto> (RStr v, Some (mem_clock s + 1000 * of_int ex)))\<rparr>)
     else (False, s))"

definition mem_PEXPIRE :: "string \<Rightarrow> rat \<Rightarrow> mem \<Rightarrow> (exn + unit) \<times> mem" where
  "mem_PEXPIRE k ttl s = (if is_integral ttl
     then (Inr (), s\<lparr>ks := (ks s)(k := with_ttl (mem_clock s + ttl) (ks s k))\<rparr>)
     else (Inl ResponseError, s))"

definition mem_HINCRBY :: "string \<Rightarrow> string \<Rightarrow> mem \<Rightarrow> int \<times> mem" where
  "mem_HINCRBY k f s = (let h = hash_of (ks s k);
       n = (case h f of Some (HNum n) \<Rightarrow> n + 1 | _ \<Rightarrow> 1)
     in (n, s\<lparr>ks := (ks s)(k \<mapsto> (RHash (h(f \<mapsto> HNum n)), ttl_of (ks s k)))\<rparr>))"

definition mem_redis :: "mem redis" where
  "mem_redis = \<lparr>
     r_TIME = mem_TIME,
     r_GET = (\<lambda>k s. str_of (ks s k)),
     r_GET_number = (\<lambda>k s. if ks s k = None then None else Some (cnt_of (ks s k))),
     r_SET_PX = mem_SET_PX,
     r_SET_NX_EX = mem_SET_NX_EX,
     r_INCR = (\<lambda>k s. s\<lparr>ks := (ks s)(k \<mapsto> (RCnt (cnt_of (ks s k) + 1), ttl_of (ks s k)))\<rparr>),
     r_PEXPIRE = mem_PEXPIRE,
     r_DEL = (\<lambda>k s. (if ks s k = None then 0 else 1, s\<lparr>ks := (ks s)(k := None)\<rparr>)),
     r_ZADD = (\<lambda>k sc m s. s\<lparr>ks := (ks s)(k := put_zset (zadd sc m (zset_of (ks s k))) (ks s k))\<rparr>),
     r_ZREM = (\<lambda>k m s. (if zscore (zset_of (ks s k)) m = None then 0 else 1,
       s\<lparr>ks := (ks s)(k := put_zset (zrem m (zset_of (ks s k))) (ks s k))\<rparr>)),
     r_ZCARD = (\<lambda>k s. int (length (zset_of (ks s k)))),
     r_ZSCORE = (\<lambda>k m s. zscore (zset_of (ks s k)) m),
     r_ZRANGE_0_0 = (\<lambda>k s. zhead (zset_of (ks s k))),
     r_ZREMRANGEBYSCORE = (\<lambda>k mx s.
       s\<lparr>ks := (ks s)(k := put_zset (zprune mx (zset_of (ks s k))) (ks s k))\<rparr>),
     r_RPUSH = (\<lambda>k v s. s\<lparr>ks := (ks s)(k := put_list (list_of (ks s k) @ [v]) (ks s k))\<rparr>),
     r_LPOP = (\<lambda>k s. (case list_of (ks s k) of [] \<Rightarrow> None | x # _ \<Rightarrow> Some x,
       s\<lparr>ks := (ks s)(k := put_list (tl (list_of (ks s k))) (ks s k))\<rparr>)),
     r_HGET = (\<lambda>k f s. hash_of (ks s k) f),
     r_HSET = (\<lambda>k f h s. s\<lparr>ks := (ks s)(k \<mapsto> (RHash ((hash_of (ks s k))(f \<mapsto> h)), ttl_of (ks s k)))\<rparr>),
     r_HINCRBY = mem_HINCRBY,
     r_PUBLISH = (\<lambda>c v s. s\<lparr>msgs := msgs s @ [(c, v)]\<rparr>)\<rparr>"

definition mem_elapses :: "mem \<Rightarrow> mem \<Rightarrow> bool" where
  "mem_elapses s s' = (mem_clock s \<le> mem_clock s' \<and>
     ks s' = (\<lambda>k. alive_at (mem_clock s') (ks s k)))"

definition mem_advance :: "int \<Rightarrow> int \<Rightarrow> mem \<Rightarrow> mem" where
  "mem_advance a b s = (let s' = s\<lparr>sec := a, usec := b\<rparr>
     in s'\<lparr>ks := (\<lambda>k. alive_at (mem_clock s') (ks s k))\<rparr>)"

definition mem_start :: "int \<Rightarrow> mem" where
  "mem_start t = \<lparr>ks = Map.empty, sec = t, usec = 0, msgs = []\<rparr>"

lemma mem_clock_ks [simp]: "mem_clock (s\<lparr>ks := k\<rparr>) = mem_clock s"
  by (simp add: mem_clock_def mem_TIME_def)

lemma mem_TIME_frame [simp]:
  "mem_TIME (s\<lparr>ks := k\<rparr>) = mem_TIME s" "mem_TIME (s\<lparr>msgs := m\<rparr>) = mem_TIME s"
  by (simp_all add: mem_TIME_def)

lemma clock_ms_mem: "clock_ms mem_redis s = mem_clock s"
  by (simp add: clock_ms_def mem_redis_def mem_clock_def)

lemma mem_elapses_advance:
  "mem_clock s \<le> mem_clock (s\<lparr>sec := a, usec := b\<rparr>) \<Longrightarrow> mem_elapses s (mem_advance a b s)"
  by (simp add: mem_elapses_def mem_advance_def Let_def)

lemma mem_cmds [simp]:
  "r_TIME mem_redis = mem_TIME"
  "r_GET mem_redis = (\<lambda>k s. str_of (ks s k))"
  "r_GET_number mem_redis = (\<lambda>k s. if ks s k = None then None else Some (cnt_of (ks s k)))"
  "r_SET_PX mem_redis = mem_SET_PX"
  "r_SET_NX_EX mem_redis = mem_SET_NX_EX"
  "r_INCR mem_redis = (\<lambda>k s. s\<lparr>ks := (ks s)(k \<mapsto> (RCnt (cnt_of (ks s k) + 1), ttl_of (ks s k)))\<rparr>)"
  "r_PEXPIRE mem_redis = mem_PEXPIRE"
  "r_DEL mem_redis = (\<lambda>k s. (if ks s k = None then 0 else 1, s\<lparr>ks := (ks s)(k := None)\<rparr>))"
  "r_ZADD mem_redis = (\<lambda>k sc m s. s\<lparr>ks := (ks s)(k := put_zset (zadd sc m (zset_of (ks s k))) (ks s k))\<rparr>)"
  "r_ZREM mem_redis = (\<lambda>k m s. (if zscore (zset_of (ks s k)) m = None then 0 else 1,
       s\<lparr>ks := (ks s)(k := put_zset (zrem m (zset_of (ks s k))) (ks s k))\<rparr>))"
  "r_ZCARD mem_redis = (\<lambda>k s. int (length (zset_of (ks s k))))"
  "r_ZSCORE mem_redis = (\<lambda>k m s. zscore (zset_of (ks s k)) m)"
  "r_ZRANGE_0_0 mem_redis = (\<lambda>k s. zhead (zset_of (ks s k)))"
  "r_ZREMRANGEBYSCORE mem_redis = (\<lambda>k mx s.
       s\<lparr>ks := (ks s)(k := put_zset (zprune mx (zset_of (ks s k))) (ks s k))\<rparr>)"
  "r_RPUSH mem_redis = (\<lambda>k v s. s\<lparr>ks := (ks s)(k := put_list (list_of (ks s k) @ [v]) (ks s k))\<rparr>)"
  "r_LPOP mem_redis = (\<lambda>k s. (case list_of (ks s k) of [] \<Rightarrow> None | x # _ \<Rightarrow> Some x,
       s\<lparr>ks := (ks s)(k := put_list (tl (list_of (ks s k))) (ks s k))\<rparr>))"
  "r_HGET mem_redis = (\<lambda>k f s. hash_of (ks s k) f)"
  "r_HSET mem_redis = (\<lambda>k f h s. s\<lparr>ks := (ks s)(k \<mapsto> (RHash ((hash_of (ks s k))(f \<mapsto> h)), ttl_of (ks s k)))\<rparr>)"
  "r_HINCRBY mem_redis = mem_HINCRBY"
  "r_PUBLISH mem_redis = (\<lambda>c v s. s\<lparr>msgs := msgs s @ [(c, v)]\<rparr>)"
  by (simp_all add: mem_redis_def)

lemmas mem_defs = mem_SET_PX_def mem_SET_NX_EX_def mem_PEXPIRE_def
  mem_HINCRBY_def Let_def clock_ms_mem

interpretation mem: redis_server mem_redis ks mem_elapses
proof unfold_locales
  fix s sec' usec' assume "r_TIME mem_redis s = (sec', usec')"
  then show "0 \<le> sec' \<and> sec' < 100000000000 \<and> 0 \<le> usec' \<and> usec' < 1000000"
    by (auto simp: mem_TIME_def split: if_splits)
next
  fix s :: mem and k f :: string and n :: int
  assume "hash_of (ks s k) f = None \<and> n = 0 \<or> hash_of (ks s k) f = Some (HNum n)"
  then show "fst (r_HINCRBY mem_redis k f s) = n + 1 \<and> ks (snd (r_HINCRBY mem_redis k f s)) =
    (ks s)(k \<mapsto> (RHash ((hash_of (ks s k))(f \<mapsto> HNum (n + 1))), ttl_of (ks s k)))"
    by (auto simp: mem_defs)
qed (simp_all add: mem_defs, simp add: mem_elapses_def)

end
