(* ===== verification/Consume.thy ===== *)
theory Consume
  imports Keys Mem_Redis
begin

text \<open>
  What \<^verbatim>\<open>consume.lua\<close> does to the keyspace, on every branch, for any server that satisfies the
  laws of \<open>redis_server\<close>: the lemmas inside the locale compute the keyspace after each part of
  the script, and the theorems at the end state the guarantees of the script.
\<close>

text \<open>A call of a limiter whose window is a positive whole number of milliseconds.\<close>

definition call_ok :: "string \<Rightarrow> consume_args \<Rightarrow> bool" where
  "call_ok i a = (args_for i a \<and> 0 < ca_window a \<and> is_integral (window_ms (ca_window a)))"

lemma call_ok_keys [simp]:
  assumes "call_ok i a"
  shows "ca_base_key a = i" "ca_buffer_key a = buffer_key i"
    "ca_concurrency_key a = concurrency_key i" "ca_dlq_key a = dlq_key i"
  using assms by (simp_all add: call_ok_def args_for_def)

lemma call_ok_ttl [simp]:
  assumes "call_ok i a"
  shows "is_integral (counter_ttl (ca_window a))" "0 < counter_ttl (ca_window a)"
    "0 < window_ms (ca_window a)"
proof -
  obtain n where "window_ms (ca_window a) = of_int n"
    using assms by (auto simp: call_ok_def is_integral_iff)
  then have "counter_ttl (ca_window a) = of_int (2 * n + 10000)" by (simp add: counter_ttl_def)
  then show "is_integral (counter_ttl (ca_window a))" by (simp only: is_integral_of_int)
  show "0 < window_ms (ca_window a)" using assms by (simp add: call_ok_def window_ms_def)
  then show "0 < counter_ttl (ca_window a)" by (simp add: counter_ttl_def)
qed

text \<open>The keyspace after the self-healing of the leases and the note of the caller.\<close>

definition live_leases :: "int \<Rightarrow> keyspace \<Rightarrow> string \<Rightarrow> zset" where
  "live_leases timestamp K i = zprune (of_int (timestamp - 1)) (zset_of (K (concurrency_key i)))"

definition called_ks :: "string \<Rightarrow> consume_args \<Rightarrow> int \<Rightarrow> rat \<Rightarrow> keyspace \<Rightarrow> keyspace" where
  "called_ks i a timestamp clock K = K(concurrency_key i :=
       put_zset (live_leases timestamp K i) (K (concurrency_key i)),
     last_caller_key i \<mapsto> (RStr (ca_worker_id a), Some (clock + counter_ttl (ca_window a))))"

lemma typed_called [simp]: "typed i K \<Longrightarrow> typed i (called_ks i a t c K)"
  by (simp add: called_ks_def live_leases_def typed_upd typedD zs.invar_prune)

lemma called_ks_other [simp]:
  "called_ks i a t c K (buffer_key i) = K (buffer_key i)"
  "called_ks i a t c K (dlq_key i) = K (dlq_key i)"
  "called_ks i a t c K (window_key i x) = K (window_key i x)"
  "called_ks i a t c K (get_inflight_key i u) = K (get_inflight_key i u)"
  "called_ks i a t c K (signal_key i u) = K (signal_key i u)"
  "called_ks i a t c K (last_consumer_key i) = K (last_consumer_key i)"
  "called_ks i a t c K (last_caller_key i) =
     Some (RStr (ca_worker_id a), Some (c + counter_ttl (ca_window a)))"
  "zset_of (called_ks i a t c K (concurrency_key i)) = live_leases t K i"
  by (simp_all add: called_ks_def)

lemma zinv_live_leases [simp]: "typed i K \<Longrightarrow> zinv (live_leases t K i)"
  by (simp add: live_leases_def zs.invar_prune typedD)

text \<open>The counters, the telemetry and the admission test on a keyspace.\<close>

definition ks_current :: "string \<Rightarrow> rat \<Rightarrow> int \<Rightarrow> keyspace \<Rightarrow> int" where
  "ks_current i w now K = cnt_of (K (window_key i (window_start w now)))"

definition ks_previous :: "string \<Rightarrow> rat \<Rightarrow> int \<Rightarrow> keyspace \<Rightarrow> int" where
  "ks_previous i w now K = cnt_of (K (window_key i (window_start w now - w)))"

definition ks_estimate :: "string \<Rightarrow> rat \<Rightarrow> int \<Rightarrow> keyspace \<Rightarrow> rat" where
  "ks_estimate i w now K = window_estimate w now (ks_previous i w now K) (ks_current i w now K)"

definition ks_telemetry :: "string \<Rightarrow> consume_args \<Rightarrow> int \<Rightarrow> int \<Rightarrow> keyspace \<Rightarrow> consume_reply" where
  "ks_telemetry i a now n K = (let w = window_ms (ca_window a) in
     \<lparr>cr_status = 0, cr_task = None,
      cr_remaining = window_remaining (ca_limit a)
        (window_estimate w now (ks_previous i w now K) (ks_current i w now K)),
      cr_active = n, cr_reset_in_ms = redis_int (window_reset w now),
      cr_buffer = int (length (zset_of (K (buffer_key i)))),
      cr_previous = ks_previous i w now K, cr_current = ks_current i w now K\<rparr>)"

definition has_room :: "string \<Rightarrow> consume_args \<Rightarrow> int \<Rightarrow> int \<Rightarrow> keyspace \<Rightarrow> bool" where
  "has_room i a now n K = (ks_estimate i (window_ms (ca_window a)) now K < of_int (ca_limit a)
     \<and> n < ca_max_concurrency a)"

text \<open>A buffer member as \<^verbatim>\<open>schedule_task\<close> writes it: its deduplication key is the limiter's own, and an
  acquire marker carries a positive whole timeout.\<close>

definition member_ok :: "string \<Rightarrow> task_data \<Rightarrow> bool" where
  "member_ok i td = (td_inflight_key td = get_inflight_key i (td_id td) \<and>
     (td_func_path td = acquire_marker \<longrightarrow>
      (case td_timeout_ms td of Some t \<Rightarrow> is_integral t \<and> 0 < t | None \<Rightarrow> False)))"

definition buffer_ok :: "string \<Rightarrow> cjson \<Rightarrow> keyspace \<Rightarrow> bool" where
  "buffer_ok i decode K = list_all (\<lambda>e. case decode (snd e) of
     Some td \<Rightarrow> member_ok i td | None \<Rightarrow> False) (zset_of (K (buffer_key i)))"

text \<open>The effect of each branch.\<close>

definition popped_ks :: "string \<Rightarrow> string \<Rightarrow> keyspace \<Rightarrow> keyspace" where
  "popped_ks i raw K =
     K(buffer_key i := put_zset (zrem raw (zset_of (K (buffer_key i)))) (K (buffer_key i)))"

definition expired_ks :: "string \<Rightarrow> string \<Rightarrow> task_data \<Rightarrow> keyspace \<Rightarrow> keyspace" where
  "expired_ks i raw td K =
     (if td_func_path td \<noteq> acquire_marker
      then K(dlq_key i := put_list (list_of (K (dlq_key i)) @ [raw]) (K (dlq_key i))) else K)
     (get_inflight_key i (td_id td) := None)"

definition signal_ks :: "string \<Rightarrow> task_data \<Rightarrow> rat \<Rightarrow> keyspace \<Rightarrow> keyspace" where
  "signal_ks i td clock K =
     (if td_func_path td = acquire_marker
      then (let k = signal_key i (td_id td) in case td_timeout_ms td of
              Some t \<Rightarrow> K(k := with_ttl (clock + t) (put_list (list_of (K k) @ [td_id td]) (K k)))
            | None \<Rightarrow> K)
      else K)"

definition counted_entry :: "rat \<Rightarrow> entry option \<Rightarrow> entry" where
  "counted_entry deadline e =
     (RCnt (cnt_of e + 1), if cnt_of e = 0 then Some deadline else ttl_of e)"

definition lease_of :: "consume_args \<Rightarrow> int" where
  "lease_of a = (case ca_lease_duration a of Some l \<Rightarrow> l | None \<Rightarrow> 30)"

definition admitted_ks ::
  "string \<Rightarrow> consume_args \<Rightarrow> task_data \<Rightarrow> int \<Rightarrow> int \<Rightarrow> rat \<Rightarrow> keyspace \<Rightarrow> keyspace" where
  "admitted_ks i a td timestamp now clock K =
     (let ttl = counter_ttl (ca_window a);
          k = window_key i (window_start (window_ms (ca_window a)) now);
          K1 = K(k \<mapsto> counted_entry (clock + ttl) (K k));
          K2 = K1(concurrency_key i := put_zset (zadd (of_int (timestamp + lease_of a)) (td_id td)
                 (zset_of (K1 (concurrency_key i)))) (K1 (concurrency_key i)));
          K3 = signal_ks i td clock K2
      in K3(last_consumer_key i \<mapsto> (RStr (ca_worker_id a), Some (clock + ttl))))"

text \<open>What becomes of the head of the buffer, and the script as a function on keyspaces.\<close>

definition head_spec :: "string \<Rightarrow> consume_args \<Rightarrow> string \<Rightarrow> task_data \<Rightarrow> int \<Rightarrow> int \<Rightarrow> rat
    \<Rightarrow> consume_reply \<Rightarrow> keyspace \<Rightarrow> consume_reply \<times> keyspace" where
  "head_spec i a raw td timestamp now clock t K =
     (if task_expired a td timestamp
      then (t\<lparr>cr_status := - 1, cr_buffer := cr_buffer t - 1\<rparr>, expired_ks i raw td K)
      else if marker_deadline_passed td now
      then (t\<lparr>cr_status := - 2, cr_buffer := cr_buffer t - 1\<rparr>, K(get_inflight_key i (td_id td) := None))
      else (t\<lparr>cr_status := 1, cr_task := Some raw, cr_remaining := cr_remaining t - 1,
              cr_active := cr_active t + 1, cr_buffer := cr_buffer t - 1,
              cr_current := cr_current t + 1\<rparr>,
            admitted_ks i a td timestamp now clock K))"

definition consume_ks :: "string \<Rightarrow> cjson \<Rightarrow> consume_args \<Rightarrow> int \<Rightarrow> int \<Rightarrow> rat \<Rightarrow> keyspace
    \<Rightarrow> consume_reply \<times> keyspace" where
  "consume_ks i decode a timestamp now clock K =
     (let n = int (length (live_leases timestamp K i)); K1 = called_ks i a timestamp clock K;
          t = ks_telemetry i a now n K
      in if must_yield (ca_worker_id a) (str_of (K (last_consumer_key i))) (str_of (K (last_caller_key i)))
         then (yield_reply n, K1)
         else if has_room i a now n K
         then (case zhead (zset_of (K (buffer_key i))) of None \<Rightarrow> (t, K1)
               | Some raw \<Rightarrow> (case decode raw of None \<Rightarrow> (t, K1)
                  | Some td \<Rightarrow> head_spec i a raw td timestamp now clock t (popped_ks i raw K1)))
         else (t, K1))"

context redis_server
begin

lemma read_count: "holds_cnt (look s k) \<Longrightarrow> read_count R k s = cnt_of (look s k)"
  by (simp add: read_count_def GET_number)

lemma window_keys_frozen:
  "r_TIME R s' = r_TIME R s \<Longrightarrow> current_key R b w s' = current_key R b w s"
  "r_TIME R s' = r_TIME R s \<Longrightarrow> previous_key R b w s' = previous_key R b w s"
  "r_TIME R s' = r_TIME R s \<Longrightarrow> lua_now_ms R s' = lua_now_ms R s"
  "r_TIME R s' = r_TIME R s \<Longrightarrow> clock_ms R s' = clock_ms R s"
  by (simp_all add: current_key_def previous_key_def lua_now_ms_def clock_ms_def)

text \<open>Self-healing, the fairness test, and what is left to attempt.\<close>

lemma consume_called:
  assumes ty: "typed i (look s)" and ok: "call_ok i a"
  obtains s2 where "look s2 = called_ks i a (fst (r_TIME R s)) (clock_ms R s) (look s)"
    and "r_TIME R s2 = r_TIME R s"
    and "consume_lua R decode a s =
      (let n = int (length (live_leases (fst (r_TIME R s)) (look s) i))
       in if must_yield (ca_worker_id a) (str_of (look s (last_consumer_key i)))
            (str_of (look s (last_caller_key i)))
          then (Inr (yield_reply n), s2) else consume_attempt R decode a n s2)"
proof -
  define s1 where "s1 = prune_leases R (concurrency_key i) s"
  define p where "p = r_SET_PX R (last_caller_key i) (ca_worker_id a) (counter_ttl (ca_window a)) s1"
  have l1: "look s1 = (look s)(concurrency_key i :=
      put_zset (live_leases (fst (r_TIME R s)) (look s) i) (look s (concurrency_key i)))"
    by (simp add: s1_def prune_leases_def live_leases_def ZREMRANGEBYSCORE typedD(2) [OF ty])
  have t1: "r_TIME R s1 = r_TIME R s" by (simp add: s1_def prune_leases_def)
  have ty1: "typed i (look s1)" using ty by (simp add: l1 typed_upd)
  obtain s2 where p: "p = (Inr (), s2)"
    using SET_PX [of "counter_ttl (ca_window a)"] ok by (metis call_ok_ttl(1,2) p_def prod.collapse)
  have s2: "s2 = snd p" by (simp add: p)
  have l2: "look s2 = called_ks i a (fst (r_TIME R s)) (clock_ms R s) (look s)"
    using SET_PX [of "counter_ttl (ca_window a)"] ok
    by (simp add: s2 p_def l1 called_ks_def window_keys_frozen(4) [OF t1])
  show ?thesis
  proof (rule that [OF l2])
    show "r_TIME R s2 = r_TIME R s" by (simp add: s2 p_def t1)
    have "r_ZCARD R (concurrency_key i) s1 = int (length (live_leases (fst (r_TIME R s)) (look s) i))"
      using typedD(2) [OF ty1] by (simp add: ZCARD, simp add: l1)
    moreover have "r_GET R (last_consumer_key i) s1 = str_of (look s (last_consumer_key i))"
      "r_GET R (last_caller_key i) s1 = str_of (look s (last_caller_key i))"
      using typedD(4,5) [OF ty1] by (simp_all add: GET, simp_all add: l1)
    ultimately show "consume_lua R decode a s =
      (let n = int (length (live_leases (fst (r_TIME R s)) (look s) i))
       in if must_yield (ca_worker_id a) (str_of (look s (last_consumer_key i)))
            (str_of (look s (last_caller_key i)))
          then (Inr (yield_reply n), s2) else consume_attempt R decode a n s2)"
      using ok unfolding consume_lua_def Let_def call_ok_keys [OF ok] s1_def [symmetric]
        p_def [symmetric] p by simp
  qed
qed

text \<open>The part of the script after the fairness test, from a state whose keyspace is known.\<close>

lemma telemetry:
  assumes ty: "typed i (look s)" and ok: "call_ok i a"
  shows "consume_telemetry R a n s = ks_telemetry i a (lua_now_ms R s) n (look s)"
proof -
  have "read_count R (window_key i x) s = cnt_of (look s (window_key i x))" for x
    by (rule read_count) (rule typedD(6) [OF ty])
  with ok ty show ?thesis
    by (simp add: consume_telemetry_def ks_telemetry_def ks_current_def ks_previous_def
        current_key_def previous_key_def Let_def ZCARD typedD)
qed

lemma attempt:
  assumes ty: "typed i (look s)" and ok: "call_ok i a"
  shows "consume_attempt R decode a n s =
    (let t = ks_telemetry i a (lua_now_ms R s) n (look s)
     in if has_room i a (lua_now_ms R s) n (look s)
        then (case zhead (zset_of (look s (buffer_key i))) of None \<Rightarrow> (Inr t, s)
              | Some raw \<Rightarrow> (case decode raw of None \<Rightarrow> (Inl ResponseError, s)
                 | Some td \<Rightarrow> consume_head R a raw td t s))
        else (Inr t, s))"
  using ok ty
  by (simp add: consume_attempt_def telemetry ZRANGE_0_0 typedD has_room_def ks_estimate_def Let_def
      ks_telemetry_def)

lemma expired:
  assumes ty: "typed i (look s)" and ok: "call_ok i a" and m: "member_ok i td"
  shows "fst (consume_expired R a raw td t s) = t\<lparr>cr_status := - 1, cr_buffer := cr_buffer t - 1\<rparr>"
    and "look (snd (consume_expired R a raw td t s)) = expired_ks i raw td (look s)"
  using ok ty m
  by (simp_all add: consume_expired_def Let_def DEL RPUSH typedD expired_ks_def member_ok_def)

lemma signal:
  assumes ty: "typed i (look s)" and ok: "call_ok i a" and m: "member_ok i td"
  obtains s' where "consume_signal R a td s = (Inr (), s')" and "r_TIME R s' = r_TIME R s"
    and "look s' = signal_ks i td (clock_ms R s) (look s)"
proof (cases "td_func_path td = acquire_marker")
  case True
  with m obtain timeout where to: "td_timeout_ms td = Some timeout" "is_integral timeout" "0 < timeout"
    by (auto simp: member_ok_def split: option.splits)
  define s1 where "s1 = r_RPUSH R (signal_key i (td_id td)) (td_id td) s"
  obtain s2 where p: "r_PEXPIRE R (signal_key i (td_id td)) timeout s1 = (Inr (), s2)"
    using PEXPIRE [OF to(2,3)] by (metis prod.collapse)
  have "look s2 = signal_ks i td (clock_ms R s) (look s)"
    using PEXPIRE [OF to(2,3), of "signal_key i (td_id td)" s1] to True ty
    by (simp add: p [unfolded s1_def] s1_def RPUSH typedD signal_ks_def Let_def)
  moreover have "r_TIME R s2 = r_TIME R s"
    using TIME_frozen(4) [of "signal_key i (td_id td)" timeout s1] by (simp add: p [unfolded s1_def] s1_def)
  ultimately show ?thesis
    using True ok to p that [of s2] by (simp add: consume_signal_def Let_def s1_def)
next
  case False
  then show ?thesis using that [of s] by (simp add: consume_signal_def signal_ks_def)
qed

lemma counted:
  assumes h: "holds_cnt (look s k)" and c: "c = cnt_of (look s k)"
    and ttl: "is_integral ttl" "0 < ttl"
  obtains s' where "count_admission R k ttl c s = (Inr (), s')" and "r_TIME R s' = r_TIME R s"
    and "look s' = (look s)(k \<mapsto> counted_entry (clock_ms R s + ttl) (look s k))"
proof (cases "c = 0")
  case True
  define s1 where "s1 = r_INCR R k s"
  obtain s2 where p: "r_PEXPIRE R k ttl s1 = (Inr (), s2)"
    using PEXPIRE [OF ttl] by (metis prod.collapse)
  have "look s2 = (look s)(k \<mapsto> counted_entry (clock_ms R s + ttl) (look s k))"
    using PEXPIRE [OF ttl, of k s1] h c True
    by (simp add: p [unfolded s1_def] s1_def INCR counted_entry_def with_ttl_def)
  moreover have "r_TIME R s2 = r_TIME R s" using TIME_frozen(4) [of k ttl s1] by (simp add: p [unfolded s1_def] s1_def)
  ultimately show ?thesis using True p that [of s2] by (simp add: count_admission_def s1_def)
next
  case False
  then show ?thesis
    using that [of "r_INCR R k s"] h c by (simp add: count_admission_def INCR counted_entry_def)
qed

lemma admitted:
  assumes ty: "typed i (look s)" and ok: "call_ok i a" and m: "member_ok i td"
    and c: "cr_current t = ks_current i (window_ms (ca_window a)) (lua_now_ms R s) (look s)"
  obtains s' where "consume_admit R a raw td t s = (Inr (t\<lparr>cr_status := 1, cr_task := Some raw,
      cr_remaining := cr_remaining t - 1, cr_active := cr_active t + 1,
      cr_buffer := cr_buffer t - 1, cr_current := cr_current t + 1\<rparr>), s')"
    and "r_TIME R s' = r_TIME R s"
    and "look s' = admitted_ks i a td (fst (r_TIME R s)) (lua_now_ms R s) (clock_ms R s) (look s)"
proof -
  define k where "k = window_key i (window_start (window_ms (ca_window a)) (lua_now_ms R s))"
  define ttl where "ttl = counter_ttl (ca_window a)"
  define e where "e = (of_int (fst (r_TIME R s) + lease_of a) :: rat)"
  have ck: "current_key R i (window_ms (ca_window a)) s = k" by (simp add: current_key_def k_def)
  obtain s1 where s1: "count_admission R k ttl (cr_current t) s = (Inr (), s1)"
    "r_TIME R s1 = r_TIME R s" "look s1 = (look s)(k \<mapsto> counted_entry (clock_ms R s + ttl) (look s k))"
    using counted [of s k "cr_current t" ttl] ok typedD(6) [OF ty]
    by (auto simp: c ks_current_def k_def ttl_def)
  have ty1: "typed i (look s1)"
    unfolding s1(3) k_def by (intro typed_upd(6) [OF ty]) (simp add: counted_entry_def)
  define s2 where "s2 = r_ZADD R (concurrency_key i) e (td_id td) s1"
  have l2: "look s2 = (look s1)(concurrency_key i := put_zset (zadd e (td_id td)
      (zset_of (look s1 (concurrency_key i)))) (look s1 (concurrency_key i)))"
    by (simp add: s2_def ZADD typedD [OF ty1])
  have ty2: "typed i (look s2)"
    unfolding l2 by (intro typed_upd(2) [OF ty1]) (simp add: zs.invar_add typedD [OF ty1])
  have t2: "r_TIME R s2 = r_TIME R s" by (simp add: s2_def s1(2))
  obtain s3 where s3: "consume_signal R a td s2 = (Inr (), s3)" "r_TIME R s3 = r_TIME R s"
    "look s3 = signal_ks i td (clock_ms R s) (look s2)"
    using signal [OF ty2 ok m] window_keys_frozen(4) [OF t2] t2 by metis
  obtain s4 where s4: "r_SET_PX R (last_consumer_key i) (ca_worker_id a) ttl s3 = (Inr (), s4)"
    using SET_PX [of ttl] ok by (metis call_ok_ttl(1,2) ttl_def prod.collapse)
  have l4: "look s4 = (look s3)(last_consumer_key i \<mapsto> (RStr (ca_worker_id a), Some (clock_ms R s + ttl)))"
    using SET_PX [of ttl "last_consumer_key i" "ca_worker_id a" s3] ok s4
      window_keys_frozen(4) [OF s3(2)] by (simp add: ttl_def)
  have t4: "r_TIME R s4 = r_TIME R s"
    using TIME_frozen(1) [of "last_consumer_key i" "ca_worker_id a" ttl s3] s3(2) s4 by simp
  show ?thesis
  proof (rule that [OF _ t4])
    show "look s4 = admitted_ks i a td (fst (r_TIME R s)) (lua_now_ms R s) (clock_ms R s) (look s)"
      by (simp add: l4 s3(3) l2 s1(3) admitted_ks_def Let_def k_def ttl_def e_def)
    show "consume_admit R a raw td t s = (Inr (t\<lparr>cr_status := 1, cr_task := Some raw,
      cr_remaining := cr_remaining t - 1, cr_active := cr_active t + 1,
      cr_buffer := cr_buffer t - 1, cr_current := cr_current t + 1\<rparr>), s4)"
      using s1(1) s3(1) [unfolded s2_def e_def] s4 ok
      by (simp add: consume_admit_def Let_def ck ttl_def [symmetric] lease_of_def [symmetric])
  qed
qed

lemma head:
  assumes ty: "typed i (look s)" and ok: "call_ok i a" and m: "member_ok i td"
    and c: "cr_current t = ks_current i (window_ms (ca_window a)) (lua_now_ms R s) (look s)"
  obtains t' s' where "consume_head R a raw td t s = (Inr t', s')" and "r_TIME R s' = r_TIME R s"
    and "(t', look s') = head_spec i a raw td (fst (r_TIME R s)) (lua_now_ms R s) (clock_ms R s) t
      (popped_ks i raw (look s))"
proof -
  define s1 where "s1 = snd (r_ZREM R (buffer_key i) raw s)"
  have l1: "look s1 = popped_ks i raw (look s)"
    by (simp add: s1_def ZREM typedD [OF ty] popped_ks_def)
  have t1: "r_TIME R s1 = r_TIME R s" by (simp add: s1_def)
  note fr = window_keys_frozen [OF t1]
  have ty1: "typed i (look s1)"
    unfolding l1 popped_ks_def by (intro typed_upd(1) [OF ty]) (simp add: zs.invar_remove typedD [OF ty])
  have c1: "cr_current t = ks_current i (window_ms (ca_window a)) (lua_now_ms R s1) (look s1)"
    by (simp add: c fr l1 ks_current_def popped_ks_def)
  obtain s' where adm: "consume_admit R a raw td t s1 = (Inr (t\<lparr>cr_status := 1, cr_task := Some raw,
      cr_remaining := cr_remaining t - 1, cr_active := cr_active t + 1,
      cr_buffer := cr_buffer t - 1, cr_current := cr_current t + 1\<rparr>), s')"
    "r_TIME R s' = r_TIME R s1"
    "look s' = admitted_ks i a td (fst (r_TIME R s1)) (lua_now_ms R s1) (clock_ms R s1) (look s1)"
    by (rule admitted [OF ty1 ok m c1])
  obtain r e where exp: "consume_expired R a raw td t s1 = (r, e)" by force
  have e: "r = t\<lparr>cr_status := - 1, cr_buffer := cr_buffer t - 1\<rparr>" "look e = expired_ks i raw td (look s1)"
    "r_TIME R e = r_TIME R s1"
    using expired [OF ty1 ok m, of raw t] exp
    by (simp_all add: consume_expired_def Let_def) (auto simp: Let_def split: if_splits)
  have del: "look (snd (r_DEL R (td_inflight_key td) s1)) =
      (popped_ks i raw (look s))(get_inflight_key i (td_id td) := None)"
    using m by (simp add: DEL l1 member_ok_def)
  consider "task_expired a td (fst (r_TIME R s))"
    | "\<not> task_expired a td (fst (r_TIME R s))" "marker_deadline_passed td (lua_now_ms R s)"
    | "\<not> task_expired a td (fst (r_TIME R s))" "\<not> marker_deadline_passed td (lua_now_ms R s)" by blast
  then show ?thesis
  proof cases
    case 1
    then show ?thesis using ok e exp l1 t1
      by (intro that [of r e]) (simp_all add: consume_head_def head_spec_def s1_def [symmetric] Let_def)
  next
    case 2
    then show ?thesis using ok del t1
      by (intro that) (simp_all add: consume_head_def head_spec_def s1_def [symmetric] Let_def)
  next
    case 3
    then show ?thesis using ok adm l1 t1
      by (intro that) (simp_all add: consume_head_def head_spec_def s1_def [symmetric] Let_def fr)
  qed
qed

text \<open>The whole script: one of five outcomes, each with its reply and its keyspace.\<close>

lemma consume_cases:
  fixes s a i decode
  defines "timestamp \<equiv> fst (r_TIME R s)" and "now \<equiv> lua_now_ms R s" and "clock \<equiv> clock_ms R s"
    and "K \<equiv> look s"
  defines "n \<equiv> int (length (live_leases timestamp K i))"
    and "K1 \<equiv> called_ks i a timestamp clock K"
  assumes ty: "typed i (look s)" and ok: "call_ok i a" and bo: "buffer_ok i decode (look s)"
  obtains
    (yielded) s' where "consume_lua R decode a s = (Inr (yield_reply n), s')" "look s' = K1"
      "r_TIME R s' = r_TIME R s"
      "must_yield (ca_worker_id a) (str_of (K (last_consumer_key i))) (str_of (K (last_caller_key i)))"
  | (blocked) s' where "consume_lua R decode a s = (Inr (ks_telemetry i a now n K), s')"
      "look s' = K1" "r_TIME R s' = r_TIME R s"
      "\<not> must_yield (ca_worker_id a) (str_of (K (last_consumer_key i))) (str_of (K (last_caller_key i)))"
      "\<not> has_room i a now n K \<or> zset_of (K (buffer_key i)) = []"
  | (popped) s' t raw td where "consume_lua R decode a s = (Inr t, s')"
      "r_TIME R s' = r_TIME R s"
      "\<not> must_yield (ca_worker_id a) (str_of (K (last_consumer_key i))) (str_of (K (last_caller_key i)))"
      "has_room i a now n K" "zhead (zset_of (K (buffer_key i))) = Some raw"
      "decode raw = Some td" "member_ok i td"
      "(t, look s') = head_spec i a raw td timestamp now clock (ks_telemetry i a now n K)
         (popped_ks i raw K1)"
proof -
  obtain s2 where l2': "look s2 = called_ks i a (fst (r_TIME R s)) (clock_ms R s) (look s)"
    and t2: "r_TIME R s2 = r_TIME R s"
    and eq': "consume_lua R decode a s =
      (let n = int (length (live_leases (fst (r_TIME R s)) (look s) i))
       in if must_yield (ca_worker_id a) (str_of (look s (last_consumer_key i)))
            (str_of (look s (last_caller_key i)))
          then (Inr (yield_reply n), s2) else consume_attempt R decode a n s2)"
    by (rule consume_called [OF ty ok])
  note l2 = l2' [folded timestamp_def clock_def K_def, folded K1_def]
  note eq = eq' [unfolded Let_def, folded timestamp_def K_def, folded n_def]
  have ty2: "typed i (look s2)" using ty by (simp add: l2 K1_def K_def)
  have now2: "lua_now_ms R s2 = now" "clock_ms R s2 = clock" "fst (r_TIME R s2) = timestamp"
    by (simp_all add: now_def clock_def timestamp_def window_keys_frozen [OF t2] t2)
  have same: "ks_telemetry i a now n (look s2) = ks_telemetry i a now n K"
    "has_room i a now n (look s2) = has_room i a now n K"
    by (simp_all add: l2 K1_def ks_telemetry_def has_room_def ks_estimate_def ks_current_def
        ks_previous_def)
  have bk: "look s2 (buffer_key i) = K (buffer_key i)" by (simp add: l2 K1_def)
  note att = attempt [OF ty2 ok, of decode n, unfolded now2 same bk Let_def]
  show ?thesis
  proof (cases "must_yield (ca_worker_id a) (str_of (K (last_consumer_key i))) (str_of (K (last_caller_key i)))")
    case True
    with eq l2 t2 show ?thesis by (intro yielded [of s2]) simp_all
  next
    case noyield: False
    show ?thesis
    proof (cases "has_room i a now n K \<and> zset_of (K (buffer_key i)) \<noteq> []")
      case False
      then have "consume_attempt R decode a n s2 = (Inr (ks_telemetry i a now n K), s2)"
        unfolding att by (auto simp: zhead_def)
      with eq l2 t2 noyield False show ?thesis by (intro blocked [of s2]) auto
    next
      case True
      then obtain raw where raw: "zhead (zset_of (K (buffer_key i))) = Some raw"
        by (cases "zset_of (K (buffer_key i))") (simp_all add: zhead_def)
      obtain td where td: "decode raw = Some td" and m: "member_ok i td"
        using bo zhead_in_set [OF raw]
        by (auto simp: buffer_ok_def K_def list_all_iff split: option.splits)
      have at: "consume_attempt R decode a n s2 = consume_head R a raw td (ks_telemetry i a now n K) s2"
        unfolding att using True raw td by simp
      obtain t s' where "consume_head R a raw td (ks_telemetry i a now n K) s2 = (Inr t, s')"
        "r_TIME R s' = r_TIME R s2"
        "(t, look s') = head_spec i a raw td timestamp now clock (ks_telemetry i a now n K)
           (popped_ks i raw (look s2))"
        using head [OF ty2 ok m, of "ks_telemetry i a now n K" raw] now2
        by (auto simp: ks_telemetry_def ks_current_def l2 K1_def Let_def)
      then show ?thesis
        using eq at l2 t2 noyield True raw td m by (intro popped [of t s' raw td]) simp_all
    qed
  qed
qed

lemma consume_refines:
  assumes ty: "typed i (look s)" and ok: "call_ok i a" and bo: "buffer_ok i decode (look s)"
  obtains t s' where "consume_lua R decode a s = (Inr t, s')" and "r_TIME R s' = r_TIME R s"
    and "(t, look s') = consume_ks i decode a (fst (r_TIME R s)) (lua_now_ms R s) (clock_ms R s) (look s)"
proof (rule consume_cases [OF assms])
  fix s' assume "consume_lua R decode a s =
      (Inr (ks_telemetry i a (lua_now_ms R s) (int (length (live_leases (fst (r_TIME R s)) (look s) i))) (look s)), s')"
    "look s' = called_ks i a (fst (r_TIME R s)) (clock_ms R s) (look s)" "r_TIME R s' = r_TIME R s"
    "\<not> must_yield (ca_worker_id a) (str_of (look s (last_consumer_key i))) (str_of (look s (last_caller_key i)))"
    "\<not> has_room i a (lua_now_ms R s) (int (length (live_leases (fst (r_TIME R s)) (look s) i))) (look s)
      \<or> zset_of (look s (buffer_key i)) = []"
  then show ?thesis by (intro that) (auto simp: consume_ks_def Let_def zhead_def)
qed (rule that, assumption, assumption, simp add: consume_ks_def Let_def)+

text \<open>A window that is not a whole number of milliseconds: the server refuses the expiry of the
  caller key and the script ends there.\<close>

lemma consume_fraction:
  assumes ty: "typed i (look s)" and ar: "args_for i a"
    and fr: "\<not> is_integral (2 * window_ms (ca_window a))"
  shows "consume_lua R decode a s = (Inl ResponseError, prune_leases R (concurrency_key i) s)"
proof -
  have "\<not> is_integral (counter_ttl (ca_window a))"
  proof
    assume "is_integral (counter_ttl (ca_window a))"
    then obtain m where "2 * window_ms (ca_window a) = of_int (m - 10000)"
      by (auto simp: is_integral_iff counter_ttl_def algebra_simps)
    then show False using fr by (metis is_integral_of_int)
  qed
  with ar show ?thesis
    by (simp add: consume_lua_def Let_def args_for_def SET_PX_fraction)
qed

end

section \<open>Consequences on keyspaces\<close>

lemma length_live_leases: "typed i K \<Longrightarrow> length (live_leases t K i) \<le> length (zset_of (K (concurrency_key i)))"
  by (simp add: live_leases_def zs.size_prune_le typedD)

lemma signal_ks_other [simp]:
  "k \<noteq> signal_key i (td_id td) \<Longrightarrow> signal_ks i td c K k = K k"
  by (simp add: signal_ks_def Let_def split: option.split)

lemma typed_signal [simp]: "typed i K \<Longrightarrow> typed i (signal_ks i td c K)"
  by (simp add: signal_ks_def Let_def typed_upd split: option.split)

lemma typed_del [simp]: "typed i K \<Longrightarrow> typed i (K(k := None))"
  by (simp add: typed_def)

lemma typed_popped [simp]: "typed i K \<Longrightarrow> typed i (popped_ks i raw K)"
  by (simp add: popped_ks_def typed_upd typedD zs.invar_remove)

lemma typed_expired [simp]: "typed i K \<Longrightarrow> typed i (expired_ks i raw td K)"
  by (simp add: expired_ks_def typed_upd)

lemma typed_counted: "typed i K \<Longrightarrow> typed i (K(window_key i x \<mapsto> counted_entry d e))"
  by (simp add: typed_upd counted_entry_def)

lemma typed_admitted [simp]:
  assumes ty: "typed i K" shows "typed i (admitted_ks i a td t now c K)"
proof -
  let ?k = "window_key i (window_start (window_ms (ca_window a)) now)"
  have "typed i (K(?k \<mapsto> counted_entry (c + counter_ttl (ca_window a)) (K ?k)))"
    by (rule typed_counted [OF ty])
  then show ?thesis
    by (simp add: admitted_ks_def Let_def typed_upd typedD [OF ty] zs.invar_add)
qed

lemma typed_head_spec [simp]:
  "typed i K \<Longrightarrow> typed i (snd (head_spec i a raw td t now c r K))"
  by (simp add: head_spec_def)

lemma popped_ks_other [simp]:
  "k \<noteq> buffer_key i \<Longrightarrow> popped_ks i raw K k = K k"
  "zset_of (popped_ks i raw K (buffer_key i)) = zrem raw (zset_of (K (buffer_key i)))"
  by (simp_all add: popped_ks_def)

lemma admitted_ks_keys [simp]:
  "admitted_ks i a td t now c K (buffer_key i) = K (buffer_key i)"
  "admitted_ks i a td t now c K (dlq_key i) = K (dlq_key i)"
  "admitted_ks i a td t now c K (get_inflight_key i u) = K (get_inflight_key i u)"
  "zset_of (admitted_ks i a td t now c K (concurrency_key i)) =
     zadd (of_int (t + lease_of a)) (td_id td) (zset_of (K (concurrency_key i)))"
  "admitted_ks i a td t now c K (window_key i x) =
     (if window_key i x = window_key i (window_start (window_ms (ca_window a)) now)
      then Some (counted_entry (c + counter_ttl (ca_window a)) (K (window_key i x))) else K (window_key i x))"
  by (simp_all add: admitted_ks_def Let_def)

lemma expired_ks_keys [simp]:
  "expired_ks i raw td K (buffer_key i) = K (buffer_key i)"
  "expired_ks i raw td K (concurrency_key i) = K (concurrency_key i)"
  "expired_ks i raw td K (window_key i x) = K (window_key i x)"
  "list_of (expired_ks i raw td K (dlq_key i)) = list_of (K (dlq_key i)) @
     (if td_func_path td = acquire_marker then [] else [raw])"
  "expired_ks i raw td K (get_inflight_key i (td_id td)) = None"
  by (simp_all add: expired_ks_def)

lemma cnt_counted [simp]: "cnt_of (Some (counted_entry d e)) = cnt_of e + 1"
  by (simp add: counted_entry_def)

lemmas ks_reply_simps = ks_telemetry_def yield_reply_def Let_def

end
