(* ===== verification/Demo.thy ===== *)
theory Demo
  imports Consume
begin

text \<open>
  A concrete limiter on the in-memory server, for the runs that accompany the theorems: one worker, a window of one
  second with two admissions, one concurrency slot, and a buffer with a task and an acquire marker.
\<close>

definition demo_args :: consume_args where
  "demo_args = \<lparr>ca_base_key = ''lim'', ca_buffer_key = buffer_key ''lim'',
     ca_concurrency_key = concurrency_key ''lim'', ca_dlq_key = dlq_key ''lim'',
     ca_window = 1, ca_limit = 2, ca_max_concurrency = 1, ca_max_age = Some 3600,
     ca_lease_duration = Some 30, ca_worker_id = ''w1''\<rparr>"

definition demo_task :: task_data where
  "demo_task = \<lparr>td_id = ''t1'', td_func_path = ''app.work'',
     td_inflight_key = get_inflight_key ''lim'' ''t1'', td_arrived_at = 1699999999000,
     td_max_age = None, td_timeout_ms = None\<rparr>"

definition demo_marker :: task_data where
  "demo_marker = \<lparr>td_id = ''m1'', td_func_path = acquire_marker,
     td_inflight_key = get_inflight_key ''lim'' ''m1'', td_arrived_at = 1699999999000,
     td_max_age = None, td_timeout_ms = Some 5000\<rparr>"

definition demo_decode :: cjson where
  "demo_decode raw = (if raw = ''task'' then Some demo_task
     else if raw = ''marker'' then Some demo_marker else None)"

definition demo_mem :: mem where
  "demo_mem = (mem_start 1700000000)
     \<lparr>ks := [buffer_key ''lim'' \<mapsto> (RZset [(5, ''task''), (7, ''marker'')], None),
             get_inflight_key ''lim'' ''t1'' \<mapsto> (RStr ''1'', Some 1700003600000)]\<rparr>"

lemmas demo_defs = demo_args_def demo_task_def demo_marker_def demo_decode_def demo_mem_def

lemma demo_typed [simp]: "typed ''lim'' (ks demo_mem)"
proof -
  have "holds_zset (Some (RZset [(5, ''task''), (7, ''marker'')], None))"
    by (simp add: zinv_def)
  then show ?thesis unfolding demo_mem_def by (simp add: typed_upd)
qed

lemma demo_call_ok [simp]: "call_ok ''lim'' demo_args"
  by (simp add: call_ok_def args_for_def demo_args_def window_ms_def is_integral_def)

lemma demo_buffer_ok [simp]: "buffer_ok ''lim'' demo_decode (ks demo_mem)"
  by (simp add: buffer_ok_def demo_defs member_ok_def acquire_marker_def is_integral_def)

lemma demo_leases [simp]: "zset_of (ks demo_mem (concurrency_key ''lim'')) = []"
  by (simp add: demo_defs)

lemma demo_time [simp]: "mem_TIME demo_mem = (1700000000, 0)"
  by (simp add: demo_defs mem_TIME_def mem_start_def)

lemma demo_now [simp]: "lua_now_ms mem_redis demo_mem = 1700000000000" "mem_clock demo_mem = 1700000000000"
  by (simp_all add: lua_now_ms_def mem_clock_def)

lemma demo_reads [simp]:
  "ks demo_mem (window_key ''lim'' x) = None" "ks demo_mem (concurrency_key ''lim'') = None"
  "ks demo_mem (last_caller_key ''lim'') = None" "ks demo_mem (last_consumer_key ''lim'') = None"
  "ks demo_mem (buffer_key ''lim'') = Some (RZset [(5, ''task''), (7, ''marker'')], None)"
  "demo_decode ''task'' = Some demo_task" "demo_decode ''marker'' = Some demo_marker"
  by (simp_all add: demo_defs)

text \<open>The definitions a run of the scripts on the in-memory server unfolds.\<close>

lemmas script_run = consume_lua_def prune_leases_def must_yield_def consume_attempt_def
  consume_telemetry_def window_ms_def lua_now_ms_def read_count_def current_key_def previous_key_def
  consume_head_def consume_admit_def count_admission_def consume_signal_def task_expired_def
  marker_deadline_passed_def counter_ttl_def is_integral_def window_estimate_def window_reset_def
  window_remaining_def window_start_def redis_int_def yield_reply_def
  zprune_def zrem_def zadd_def put_zset_def zhead_def mem_defs

definition demo_run :: "(exn + consume_reply) \<times> mem" where
  "demo_run = consume_lua mem_redis demo_decode demo_args demo_mem"

lemma demo_run_eq: "consume_lua mem_redis demo_decode demo_args demo_mem = (fst demo_run, snd demo_run)"
  by (simp add: demo_run_def)

lemma demo_reply: "fst demo_run = Inr \<lparr>cr_status = 1, cr_task = Some ''task'', cr_remaining = 1,
    cr_active = 1, cr_reset_in_ms = 1000, cr_buffer = 1, cr_previous = 0, cr_current = 1\<rparr>"
  by (simp add: demo_run_def script_run demo_args_def demo_task_def acquire_marker_def)

text \<open>The same limiter after this worker consumed and a rival called.\<close>

definition demo_rival :: mem where
  "demo_rival = demo_mem\<lparr>ks := (ks demo_mem)(last_consumer_key ''lim'' \<mapsto> (RStr ''w1'', None),
     last_caller_key ''lim'' \<mapsto> (RStr ''w2'', None))\<rparr>"

definition demo_yield :: "(exn + consume_reply) \<times> mem" where
  "demo_yield = consume_lua mem_redis demo_decode demo_args demo_rival"

lemma demo_rival_ok [simp]: "typed ''lim'' (ks demo_rival)" "buffer_ok ''lim'' demo_decode (ks demo_rival)"
  using demo_typed demo_buffer_ok by (simp_all add: demo_rival_def typed_upd buffer_ok_def)

lemma demo_yield_reply: "fst demo_yield = Inr (yield_reply 0)"
  by (simp add: demo_yield_def demo_rival_def script_run demo_args_def)

lemma demo_again: "isl (fst (consume_lua mem_redis demo_decode demo_args (snd demo_yield))) = False"
  by (simp add: demo_yield_def demo_rival_def script_run demo_args_def demo_task_def acquire_marker_def)

text \<open>The limiter while the task runs: its lease ends in ten seconds.\<close>

definition demo_leased :: mem where
  "demo_leased = demo_mem\<lparr>ks := (ks demo_mem)(concurrency_key ''lim'' \<mapsto> (RZset [(1700000010, ''t1'')], None))\<rparr>"

lemma demo_leased_typed [simp]: "typed ''lim'' (ks demo_leased)"
  using demo_typed by (simp add: demo_leased_def typed_upd zinv_def)

lemma demo_leased_reads [simp]:
  "zscore (zset_of (ks demo_leased (concurrency_key ''lim''))) ''t1'' = Some 1700000010"
  "ks demo_leased (get_inflight_key ''lim'' ''t1'') = Some (RStr ''1'', Some 1700003600000)"
  "mem_TIME demo_leased = (1700000000, 0)" "ks demo_leased (window_key ''lim'' x) = None"
  by (simp_all add: demo_leased_def zscore_def) (simp add: demo_mem_def)

lemma demo_blocked:
  "\<exists>t. fst (consume_lua mem_redis demo_decode demo_args demo_leased) = Inr t \<and> cr_status t = 0 \<and> cr_buffer t = 2"
  by (simp add: demo_leased_def script_run demo_args_def)

end
