(* ===== verification/Consume_Props.thy ===== *)
theory Consume_Props
  imports Demo
begin

text \<open>
  The guarantees of \<^verbatim>\<open>consume.lua\<close>. Every theorem is about any server that satisfies the laws of
  \<open>redis_server\<close>, any typed keyspace whose buffer holds members written by \<^verbatim>\<open>schedule_task\<close>, and
  a call with a window of whole milliseconds.
\<close>

section \<open>The specification of one call\<close>

abbreviation spec_at ::
  "'s redis \<Rightarrow> ('s \<Rightarrow> keyspace) \<Rightarrow> string \<Rightarrow> cjson \<Rightarrow> consume_args \<Rightarrow> 's \<Rightarrow> consume_reply \<times> keyspace" where
  "spec_at R look i decode a s \<equiv>
     consume_ks i decode a (fst (r_TIME R s)) (lua_now_ms R s) (clock_ms R s) (look s)"

lemma consume_specE:
  assumes "redis_server R look el" "typed i (look s)" "call_ok i a" "buffer_ok i decode (look s)"
    and "consume_lua R decode a s = (r, s')"
  obtains t where "r = Inr t" "(t, look s') = spec_at R look i decode a s" "r_TIME R s' = r_TIME R s"
  using redis_server.consume_refines [OF assms(1-4)] assms(5) by (metis prod.inject)

text \<open>The telemetry of the specification's reply never reports success by itself.\<close>

lemma ks_telemetry_status [simp]:
  "cr_status (ks_telemetry i a now n K) = 0" "cr_task (ks_telemetry i a now n K) = None"
  "cr_status (yield_reply n) = - 3" "cr_task (yield_reply n) = None"
  by (simp_all add: ks_telemetry_def yield_reply_def Let_def)

lemma typed_consume_ks: "typed i K \<Longrightarrow> typed i (snd (consume_ks i decode a ts now c K))"
  by (simp add: consume_ks_def Let_def split: option.split)

lemma consume_ks_leases:
  assumes ty: "typed i K" and le: "int (length (zset_of (K (concurrency_key i)))) \<le> cap"
    and cap: "ca_max_concurrency a \<le> cap"
  shows "int (length (zset_of (snd (consume_ks i decode a ts now c K) (concurrency_key i)))) \<le> cap"
proof -
  let ?l = "live_leases ts K i"
  have live: "int (length ?l) \<le> cap"
    using le length_live_leases [OF ty, of ts] by linarith
  have add: "int (length ?l) < ca_max_concurrency a \<Longrightarrow> int (length (zadd x y ?l)) \<le> cap" for x y
    using cap zs.size_add_le [OF zinv_live_leases [OF ty], of x y ts] by linarith
  show ?thesis
    by (simp add: consume_ks_def head_spec_def Let_def has_room_def live add split: option.split)
qed

lemma consume_ks_counters:
  fixes i a now K
  defines "w \<equiv> window_ms (ca_window a)"
  assumes eq: "(t, K') = consume_ks i decode a ts now c K"
  shows "if cr_status t = 1
    then ks_estimate i w now K < of_int (ca_limit a)
      \<and> K' (window_key i (window_start w now)) =
          Some (counted_entry (c + counter_ttl (ca_window a)) (K (window_key i (window_start w now))))
      \<and> (\<forall>x. window_key i x \<noteq> window_key i (window_start w now) \<longrightarrow> K' (window_key i x) = K (window_key i x))
    else (\<forall>x. K' (window_key i x) = K (window_key i x))"
  using eq
  by (auto simp: w_def consume_ks_def head_spec_def Let_def has_room_def split: option.splits if_splits)

lemma consume_ks_fate:
  assumes eq: "(t, K') = consume_ks i decode a ts now c K" and ty: "typed i K"
  shows "if cr_status t \<in> {0, - 3}
    then cr_task t = None \<and> K' (buffer_key i) = K (buffer_key i) \<and> K' (dlq_key i) = K (dlq_key i)
      \<and> (\<forall>u. K' (get_inflight_key i u) = K (get_inflight_key i u))
    else (\<exists>raw td. zhead (zset_of (K (buffer_key i))) = Some raw \<and> decode raw = Some td
      \<and> zset_of (K' (buffer_key i)) = zrem raw (zset_of (K (buffer_key i)))
      \<and> (cr_status t = 1 \<and> cr_task t = Some raw
            \<and> \<not> task_expired a td ts \<and> \<not> marker_deadline_passed td now
            \<and> zscore (zset_of (K' (concurrency_key i))) (td_id td) = Some (of_int (ts + lease_of a))
            \<and> K' (dlq_key i) = K (dlq_key i)
            \<and> (\<forall>u. K' (get_inflight_key i u) = K (get_inflight_key i u))
         \<or> cr_status t = - 1 \<and> cr_task t = None \<and> task_expired a td ts
            \<and> list_of (K' (dlq_key i)) = list_of (K (dlq_key i)) @
                (if td_func_path td = acquire_marker then [] else [raw])
            \<and> K' (get_inflight_key i (td_id td)) = None
            \<and> zset_of (K' (concurrency_key i)) = live_leases ts K i
         \<or> cr_status t = - 2 \<and> cr_task t = None \<and> marker_deadline_passed td now
            \<and> K' (dlq_key i) = K (dlq_key i)
            \<and> K' (get_inflight_key i (td_id td)) = None
            \<and> zset_of (K' (concurrency_key i)) = live_leases ts K i))"
proof -
  let ?n = "int (length (live_leases ts K i))"
  let ?K1 = "called_ks i a ts c K" and ?t = "ks_telemetry i a now (int (length (live_leases ts K i))) K"
  have un: "(t, K') = (if must_yield (ca_worker_id a) (str_of (K (last_consumer_key i))) (str_of (K (last_caller_key i)))
         then (yield_reply ?n, ?K1)
         else if has_room i a now ?n K
         then (case zhead (zset_of (K (buffer_key i))) of None \<Rightarrow> (?t, ?K1)
               | Some raw \<Rightarrow> (case decode raw of None \<Rightarrow> (?t, ?K1)
                  | Some td \<Rightarrow> head_spec i a raw td ts now c ?t (popped_ks i raw ?K1)))
         else (?t, ?K1))"
    using eq by (simp add: consume_ks_def Let_def)
  consider "t = yield_reply ?n \<or> t = ?t" "K' = ?K1"
    | raw td where "zhead (zset_of (K (buffer_key i))) = Some raw" "decode raw = Some td"
      "(t, K') = head_spec i a raw td ts now c ?t (popped_ks i raw ?K1)"
    using un by (auto split: if_splits option.splits)
  then show ?thesis
  proof cases
    case 1
    then show ?thesis by auto
  next
    case 2
    have "zscore (zadd x u (live_leases ts K i)) u = Some x" for x u
      by (simp add: zscore_zadd ty)
    then show ?thesis
      using 2 by (auto simp: head_spec_def split: if_splits)
  qed
qed

lemma consume_ks_yield:
  assumes eq: "(t, K') = consume_ks i decode a ts now c K" and "cr_status t = - 3"
  shows "must_yield (ca_worker_id a) (str_of (K (last_consumer_key i))) (str_of (K (last_caller_key i)))"
    and "K' = called_ks i a ts c K"
  using assms by (auto simp: consume_ks_def head_spec_def Let_def split: option.splits if_splits)

lemma consume_ks_blocked:
  assumes eq: "(t, K') = consume_ks i decode a ts now c K" and "cr_status t = 0"
  shows "t = ks_telemetry i a now (int (length (live_leases ts K i))) K"
  using assms by (auto simp: consume_ks_def head_spec_def Let_def split: option.splits if_splits)

lemma str_of_alive: "str_of (alive_at c e) = str_of e \<or> str_of (alive_at c e) = None"
  by (auto simp: alive_at_def str_of_def split: option.splits)

lemma buffer_ok_alive: "buffer_ok i decode K \<Longrightarrow> buffer_ok i decode (\<lambda>k. alive_at c (K k))"
  by (auto simp: buffer_ok_def alive_at_def split: option.splits)

lemma buffer_ok_called [simp]: "buffer_ok i decode (called_ks i a t c K) = buffer_ok i decode K"
  by (simp add: buffer_ok_def)

lemma buffer_ok_zrem: "buffer_ok i decode K \<Longrightarrow> zset_of (K' (buffer_key i)) = zrem m (zset_of (K (buffer_key i)))
    \<Longrightarrow> buffer_ok i decode K'"
  by (auto simp: buffer_ok_def list_all_iff zrem_def)

lemma buffer_ok_consume_ks:
  assumes eq: "(t, K') = consume_ks i decode a ts now c K" and ty: "typed i K" and bo: "buffer_ok i decode K"
  shows "buffer_ok i decode K'"
proof (cases "cr_status t \<in> {0, - 3}")
  case True
  then show ?thesis using consume_ks_fate [OF eq ty] bo by (simp add: buffer_ok_def)
next
  case False
  then show ?thesis using consume_ks_fate [OF eq ty] buffer_ok_zrem [OF bo, of K'] by auto
qed

section \<open>Properties\<close>

text \<open>C1. \<^verbatim>\<open>consume.lua\<close> refines its specification on keyspaces: on a typed keyspace the call succeeds, and
  its reply and the keyspace it leaves are exactly those of the function \<open>consume_ks\<close>, which
  says on every branch what happens to each key.\<close>

theorem consume_refines_spec:
  assumes "redis_server R look el" "typed i (look s)" "call_ok i a" "buffer_ok i decode (look s)"
  shows "\<exists>t s'. consume_lua R decode a s = (Inr t, s') \<and>
    (t, look s') = consume_ks i decode a (fst (r_TIME R s)) (lua_now_ms R s) (clock_ms R s) (look s)"
  using redis_server.consume_refines [OF assms] by metis

theorem consume_refines_spec_witness:
  "\<exists>t s'. consume_lua mem_redis demo_decode demo_args demo_mem = (Inr t, s') \<and>
    (t, ks s') = consume_ks ''lim'' demo_decode demo_args 1700000000 1700000000000 1700000000000 (ks demo_mem)"
  using consume_refines_spec [OF mem.redis_server_axioms demo_typed demo_call_ok demo_buffer_ok]
  by (simp add: clock_ms_mem)

text \<open>C2. \<^verbatim>\<open>consume.lua\<close> never takes the limiter past its concurrency cap: with at most the cap's number of
  leases before the call there are at most as many after it, whatever the outcome.\<close>

theorem consume_concurrency_cap:
  assumes "redis_server R look el" "typed i (look s)" "call_ok i a" "buffer_ok i decode (look s)"
    and "int (length (zset_of (look s (concurrency_key i)))) \<le> ca_max_concurrency a"
    and "consume_lua R decode a s = (r, s')"
  shows "int (length (zset_of (look s' (concurrency_key i)))) \<le> ca_max_concurrency a"
proof -
  obtain t where "(t, look s') = spec_at R look i decode a s"
    by (rule consume_specE [OF assms(1-4,6)])
  then have "look s' = snd (spec_at R look i decode a s)" by (metis snd_conv)
  then show ?thesis using consume_ks_leases [OF assms(2,5) order_refl] by simp
qed

theorem consume_concurrency_cap_witness:
  "int (length (zset_of (ks (snd demo_run) (concurrency_key ''lim'')))) \<le> 1"
proof -
  have "ca_max_concurrency demo_args = 1" by (simp add: demo_args_def)
  then show ?thesis
    using consume_concurrency_cap [OF mem.redis_server_axioms demo_typed demo_call_ok demo_buffer_ok _
        demo_run_eq] by simp
qed

text \<open>C3. A task is admitted only below the rate limit, and is counted exactly once: status 1 means that the
  weighted estimate was under the limit, that the counter of the current fixed window grew by one
  and did not pass the limit; any other status leaves the counters of every window as they were.\<close>

theorem consume_rate_limit:
  assumes "redis_server R look el" "typed i (look s)" "call_ok i a" "buffer_ok i decode (look s)"
    and "0 \<le> ks_previous i (window_ms (ca_window a)) (lua_now_ms R s) (look s)"
    and "consume_lua R decode a s = (Inr t, s')"
  shows "if cr_status t = 1
    then ks_estimate i (window_ms (ca_window a)) (lua_now_ms R s) (look s) < of_int (ca_limit a)
      \<and> ks_current i (window_ms (ca_window a)) (lua_now_ms R s) (look s')
          = ks_current i (window_ms (ca_window a)) (lua_now_ms R s) (look s) + 1
      \<and> ks_current i (window_ms (ca_window a)) (lua_now_ms R s) (look s') \<le> ca_limit a
    else (\<forall>x. look s' (window_key i x) = look s (window_key i x))"
proof -
  let ?w = "window_ms (ca_window a)" and ?now = "lua_now_ms R s"
  have "(t, look s') = spec_at R look i decode a s"
    by (rule consume_specE [OF assms(1-4,6)]) simp
  note c = consume_ks_counters [OF this]
  have "ks_estimate i ?w ?now (look s) < of_int (ca_limit a) \<Longrightarrow> ks_current i ?w ?now (look s) < ca_limit a"
    using estimate_below_limit [of ?w _ ?now] assms(3,5) by (simp add: ks_estimate_def)
  with c show ?thesis by (auto simp: ks_current_def split: if_splits)
qed

theorem consume_rate_limit_witness:
  "ks_current ''lim'' 1000 1700000000000 (ks (snd demo_run)) = 1"
proof -
  show ?thesis
    using consume_rate_limit [OF mem.redis_server_axioms demo_typed demo_call_ok demo_buffer_ok _
        demo_run_eq [unfolded demo_reply]]
    by (simp add: demo_args_def window_ms_def ks_previous_def ks_current_def)
qed

text \<open>C4. The fate of every task. A call either leaves the buffer, the dead letter queue and the
  deduplication markers alone (status 0 and -3), or takes exactly the head of the buffer: with
  status 1 the task is returned and its id holds a lease that ends one lease duration after the
  current second; with status -1 it is older than its maximum age and is in the dead letter queue
  (an acquire marker is dropped); with status -2 it is an acquire marker past its deadline. In the
  last two cases its deduplication marker is gone and no lease is taken.\<close>

theorem consume_fate:
  assumes "redis_server R look el" "typed i (look s)" "call_ok i a" "buffer_ok i decode (look s)"
    and "consume_lua R decode a s = (r, s')"
  shows "\<exists>t. r = Inr t \<and> (if cr_status t \<in> {0, - 3}
    then cr_task t = None \<and> look s' (buffer_key i) = look s (buffer_key i)
      \<and> look s' (dlq_key i) = look s (dlq_key i)
      \<and> (\<forall>u. look s' (get_inflight_key i u) = look s (get_inflight_key i u))
    else (\<exists>raw td. zhead (zset_of (look s (buffer_key i))) = Some raw \<and> decode raw = Some td
      \<and> zset_of (look s' (buffer_key i)) = zrem raw (zset_of (look s (buffer_key i)))
      \<and> (cr_status t = 1 \<and> cr_task t = Some raw
            \<and> \<not> task_expired a td (fst (r_TIME R s)) \<and> \<not> marker_deadline_passed td (lua_now_ms R s)
            \<and> zscore (zset_of (look s' (concurrency_key i))) (td_id td)
                = Some (of_int (fst (r_TIME R s) + lease_of a))
            \<and> look s' (dlq_key i) = look s (dlq_key i)
            \<and> (\<forall>u. look s' (get_inflight_key i u) = look s (get_inflight_key i u))
         \<or> cr_status t = - 1 \<and> cr_task t = None \<and> task_expired a td (fst (r_TIME R s))
            \<and> list_of (look s' (dlq_key i)) = list_of (look s (dlq_key i)) @
                (if td_func_path td = acquire_marker then [] else [raw])
            \<and> look s' (get_inflight_key i (td_id td)) = None
            \<and> zset_of (look s' (concurrency_key i)) = live_leases (fst (r_TIME R s)) (look s) i
         \<or> cr_status t = - 2 \<and> cr_task t = None \<and> marker_deadline_passed td (lua_now_ms R s)
            \<and> look s' (dlq_key i) = look s (dlq_key i)
            \<and> look s' (get_inflight_key i (td_id td)) = None
            \<and> zset_of (look s' (concurrency_key i)) = live_leases (fst (r_TIME R s)) (look s) i)))"
proof -
  obtain t where t: "r = Inr t" "(t, look s') = spec_at R look i decode a s"
    by (rule consume_specE [OF assms(1-5)])
  show ?thesis
    using assms(2) by (intro exI [of _ t] conjI t(1) consume_ks_fate [OF t(2)])
qed

theorem consume_fate_witness:
  "zset_of (ks (snd demo_run) (buffer_key ''lim'')) = [(7, ''marker'')] \<and>
   zscore (zset_of (ks (snd demo_run) (concurrency_key ''lim''))) ''t1'' = Some 1700000030"
proof -
  show ?thesis
    using consume_fate [OF mem.redis_server_axioms demo_typed demo_call_ok demo_buffer_ok demo_run_eq]
    by (simp add: demo_reply zhead_def zrem_def) (simp add: demo_task_def demo_args_def lease_of_def)
qed

text \<open>C5. Fairness. A worker that consumed last and sees that another worker has called in the meantime
  yields (status -3) and changes nothing but the lease set and the note of the last caller; and a
  yield is never followed by another: the next call, whoever makes it and however much later,
  gets past the fairness test, so no sequence of yields starves the buffer.\<close>

theorem consume_yields_once:
  assumes "redis_server R look el" "typed i (look s)" "call_ok i a" "buffer_ok i decode (look s)"
    and "consume_lua R decode a s = (Inr t, s1)" "cr_status t = - 3"
    and "s2 = s1 \<or> el s1 s2" "call_ok i b" "consume_lua R decode b s2 = (Inr u, s3)"
  shows "str_of (look s (last_consumer_key i)) = Some (ca_worker_id a)
    \<and> str_of (look s (last_caller_key i)) \<noteq> Some (ca_worker_id a)
    \<and> look s1 = called_ks i a (fst (r_TIME R s)) (clock_ms R s) (look s)
    \<and> cr_status u \<noteq> - 3"
proof -
  have t: "(t, look s1) = spec_at R look i decode a s"
    by (rule consume_specE [OF assms(1-5)]) simp
  note y = consume_ks_yield [OF t assms(6)]
  have ty1: "typed i (look s1)" using typed_called [OF assms(2)] y by simp
  have K2: "look s2 = look s1 \<or> (\<exists>c. look s2 = (\<lambda>k. alive_at c (look s1 k)))"
    using assms(7) redis_server.elapses [OF assms(1)] by blast
  have ty2: "typed i (look s2)" using K2 ty1 typed_alive by auto
  have bo2: "buffer_ok i decode (look s2)"
    using K2 assms(4) y buffer_ok_alive by auto
  have u: "(u, look s3) = spec_at R look i decode b s2"
    by (rule consume_specE [OF assms(1) ty2 assms(8) bo2 assms(9)]) simp
  have "str_of (look s2 k) = str_of (look s1 k) \<or> str_of (look s2 k) = None" for k
    using K2 by (elim disjE exE) (simp_all add: str_of_alive)
  then have "str_of (look s2 (last_consumer_key i)) \<in> {Some (ca_worker_id a), None}"
    "str_of (look s2 (last_caller_key i)) \<in> {Some (ca_worker_id a), None}"
    using y unfolding must_yield_def by (metis called_ks_other(6) insertCI, metis called_ks_other(7) insertCI str_of_simps(2))
  then have "\<not> must_yield (ca_worker_id b) (str_of (look s2 (last_consumer_key i))) (str_of (look s2 (last_caller_key i)))"
    by (auto simp: must_yield_def)
  then have "cr_status u \<noteq> - 3" using consume_ks_yield(1) [OF u] by blast
  then show ?thesis using y by (auto simp: must_yield_def)
qed

theorem consume_yields_once_witness:
  "cr_status (projr (fst (consume_lua mem_redis demo_decode demo_args (snd demo_yield)))) \<noteq> - 3"
proof -
  have r: "consume_lua mem_redis demo_decode demo_args demo_rival = (Inr (yield_reply 0), snd demo_yield)"
    by (simp add: demo_yield_reply demo_yield_def [symmetric] prod_eq_iff)
  obtain u s3 where u: "consume_lua mem_redis demo_decode demo_args (snd demo_yield) = (Inr u, s3)"
    using demo_again by (metis (no_types) prod.collapse sum.collapse(2))
  show ?thesis
    using consume_yields_once [OF mem.redis_server_axioms demo_rival_ok(1) demo_call_ok demo_rival_ok(2) r _ _ demo_call_ok u]
    by (simp add: u yield_reply_def)
qed

end
