(* ===== verification/Scripts_Props.thy ===== *)
theory Scripts_Props
  imports Consume_Props
begin

text \<open>
  The guarantees of the other scripts: \<^verbatim>\<open>acquire.lua\<close> (admission without a buffer), \<^verbatim>\<open>renew.lua\<close> and
  \<^verbatim>\<open>release.lua\<close> (the life of a lease), \<^verbatim>\<open>health.lua\<close> (a snapshot) and \<^verbatim>\<open>schedule.lua\<close> (insertion).
\<close>

section \<open>The scripts on keyspaces\<close>

lemma zscore_live_leases:
  "typed i K \<Longrightarrow> zscore (live_leases t K i) u =
    (case zscore (zset_of (K (concurrency_key i))) u of
       Some sc \<Rightarrow> (if of_int (t - 1) < sc then Some sc else None) | None \<Rightarrow> None)"
  by (simp only: live_leases_def zscore_zprune zinv_zset_of typedD)

definition acquired_ks :: "string \<Rightarrow> rat \<Rightarrow> int \<Rightarrow> rat \<Rightarrow> keyspace \<Rightarrow> keyspace" where
  "acquired_ks i window now clock K =
     (let k = window_key i (window_start (window_ms window) now)
      in K(k \<mapsto> counted_entry (clock + counter_ttl window) (K k)))"

context redis_server
begin

lemma renew_spec:
  assumes ty: "typed i (look s)"
  shows "renew_lua R (concurrency_key i) u d s =
    (if zscore (zset_of (look s (concurrency_key i))) u = None then (0, s)
     else (1, r_ZADD R (concurrency_key i) (of_int (fst (r_TIME R s) + d)) u s))"
  by (auto simp: renew_lua_def ZSCORE typedD [OF ty] split: option.splits)

lemma release_spec:
  assumes ty: "typed i (look s)" and "u \<noteq> []"
  obtains s' where "release_lua R (concurrency_key i) (get_inflight_key i u) ch u wk s =
      ((if zscore (zset_of (look s (concurrency_key i))) u = None then 0 else 1,
        if look s (get_inflight_key i u) = None then 0 else 1), s')"
    "look s' = (look s)(concurrency_key i := put_zset (zrem u (zset_of (look s (concurrency_key i))))
        (look s (concurrency_key i)), get_inflight_key i u := None)"
    "r_TIME R s' = r_TIME R s"
proof -
  obtain n s1 where z: "r_ZREM R (concurrency_key i) u s = (n, s1)" by force
  obtain m s2 where d: "r_DEL R (get_inflight_key i u) s1 = (m, s2)" by force
  have l1: "look s1 = (look s)(concurrency_key i := put_zset (zrem u (zset_of (look s (concurrency_key i))))
      (look s (concurrency_key i)))"
    and n: "n = (if zscore (zset_of (look s (concurrency_key i))) u = None then 0 else 1)"
    using ZREM [OF typedD(2) [OF ty], of u] z by simp_all
  have l2: "look s2 = (look s1)(get_inflight_key i u := None)"
    and m: "m = (if look s (get_inflight_key i u) = None then 0 else 1)"
    using DEL [of "get_inflight_key i u" s1] d l1 by simp_all
  have t: "r_TIME R s2 = r_TIME R s"
    using TIME_frozen(7) [of "concurrency_key i" u s] TIME_frozen(5) [of "get_inflight_key i u" s1]
      z d by simp
  show ?thesis
    using assms z d n m l1 l2 t
    by (intro that [of "r_PUBLISH R ch wk s2"]) (simp_all add: release_lua_def PUBLISH)
qed

lemma acquire_spec:
  fixes window limit s i
  defines "w \<equiv> window_ms window" and "now \<equiv> lua_now_ms R s"
  defines "est \<equiv> ks_estimate i w now (look s)"
  assumes ty: "typed i (look s)" and ok: "0 < window" "is_integral (window_ms window)"
  obtains s' where "acquire_lua R i window limit s = (Inr
      \<lparr>ar_allowed = (if est < of_int limit then 1 else 0),
       ar_remaining = window_remaining limit est - (if est < of_int limit then 1 else 0),
       ar_reset_in_ms = redis_int (window_reset w now), ar_previous = ks_previous i w now (look s),
       ar_current = ks_current i w now (look s) + (if est < of_int limit then 1 else 0)\<rparr>, s')"
    "look s' = (if est < of_int limit then acquired_ks i window now (clock_ms R s) (look s) else look s)"
    "r_TIME R s' = r_TIME R s"
proof -
  have "call_ok i \<lparr>ca_base_key = i, ca_buffer_key = buffer_key i, ca_concurrency_key = concurrency_key i,
      ca_dlq_key = dlq_key i, ca_window = window, ca_limit = 0, ca_max_concurrency = 0, ca_max_age = None,
      ca_lease_duration = None, ca_worker_id = []\<rparr>" (is "call_ok i ?a")
    using ok by (simp add: call_ok_def args_for_def)
  note ttl = call_ok_ttl(1,2) [OF this, simplified]
  let ?k = "window_key i (window_start w now)"
  have rc: "read_count R (window_key i x) s = cnt_of (look s (window_key i x))" for x
    by (rule read_count [OF typedD(6) [OF ty]])
  obtain s1 where s1: "count_admission R ?k (counter_ttl window) (cnt_of (look s ?k)) s = (Inr (), s1)"
    "r_TIME R s1 = r_TIME R s"
    "look s1 = (look s)(?k \<mapsto> counted_entry (clock_ms R s + counter_ttl window) (look s ?k))"
    using counted [OF typedD(6) [OF ty] refl ttl] by metis
  show ?thesis
  proof (cases "est < of_int limit")
    case True
    then show ?thesis using s1
      by (intro that [of s1])
        (simp_all add: acquire_lua_def Let_def current_key_def previous_key_def rc acquired_ks_def est_def
          ks_estimate_def ks_current_def ks_previous_def w_def now_def)
  next
    case False
    then show ?thesis
      by (intro that [of s])
        (simp_all add: acquire_lua_def Let_def current_key_def previous_key_def rc est_def
          ks_estimate_def ks_current_def ks_previous_def w_def now_def)
  qed
qed

lemma health_spec:
  assumes ty: "typed i (look s)"
  shows "health_lua R i (buffer_key i) (concurrency_key i) window s =
    (let w = window_ms window; now = lua_now_ms R s
     in \<lparr>hr_previous = ks_previous i w now (look s), hr_current = ks_current i w now (look s),
         hr_estimated = redis_int (ks_estimate i w now (look s)),
         hr_active = int (length (zset_of (look s (concurrency_key i)))),
         hr_reset_in_ms = redis_int (window_reset w now),
         hr_buffer = int (length (zset_of (look s (buffer_key i))))\<rparr>)"
proof -
  have "read_count R (window_key i x) s = cnt_of (look s (window_key i x))" for x
    by (rule read_count [OF typedD(6) [OF ty]])
  then show ?thesis
    by (simp add: health_lua_def Let_def current_key_def previous_key_def ks_estimate_def ks_current_def
        ks_previous_def ZCARD typedD [OF ty])
qed

lemma schedule_spec:
  assumes ty: "typed i (look s)"
  shows "look (schedule_lua R (buffer_key i) js p ov s) = (look s)(buffer_key i :=
      put_zset (zadd p (inject_metadata js (of_int (lua_now_ms R s)) ov) (zset_of (look s (buffer_key i))))
        (look s (buffer_key i)))"
    "r_TIME R (schedule_lua R (buffer_key i) js p ov s) = r_TIME R s"
  by (simp_all add: schedule_lua_def ZADD typedD [OF ty])

end

section \<open>Properties\<close>

text \<open>C18. \<^verbatim>\<open>renew.lua\<close> extends a lease exactly when the task still holds one: it answers 0 and changes nothing
  for a task without a lease; otherwise it answers 1 and the lease is counted by every self-healing
  pass up to and including the second \<open>now + lease_duration\<close> and reclaimed after it, while every
  other lease and every other key stays as it was.\<close>

theorem renew_extends:
  assumes "redis_server R look el" "typed i (look s)"
    and "renew_lua R (concurrency_key i) u d s = (r, s')"
  shows "if zscore (zset_of (look s (concurrency_key i))) u = None then r = 0 \<and> s' = s
    else r = 1
      \<and> (\<forall>t. zscore (live_leases t (look s') i) u =
              (if t \<le> fst (r_TIME R s) + d then Some (of_int (fst (r_TIME R s) + d)) else None))
      \<and> (\<forall>t v. v \<noteq> u \<longrightarrow> zscore (live_leases t (look s') i) v = zscore (live_leases t (look s) i) v)
      \<and> (\<forall>k. k \<noteq> concurrency_key i \<longrightarrow> look s' k = look s k)"
proof (cases "zscore (zset_of (look s (concurrency_key i))) u = None")
  case False
  let ?L = "zset_of (look s (concurrency_key i))" and ?e = "of_int (fst (r_TIME R s) + d) :: rat"
  have r: "r = 1" and s': "s' = r_ZADD R (concurrency_key i) ?e u s"
    using redis_server.renew_spec [OF assms(1,2), of u d] assms(3) False by simp_all
  have l: "look s' = (look s)(concurrency_key i := put_zset (zadd ?e u ?L) (look s (concurrency_key i)))"
    using redis_server.ZADD [OF assms(1) typedD(2) [OF assms(2)]] by (simp add: s')
  then have ty: "typed i (look s')"
    by (simp add: typed_upd assms(2) zinv_zadd typedD [OF assms(2)])
  have sc: "zscore (zset_of (look s' (concurrency_key i))) = (zscore ?L)(u \<mapsto> ?e)"
    by (simp add: l zscore_zadd typedD [OF assms(2)])
  have lt: "of_int (t - 1) < ?e \<longleftrightarrow> t \<le> fst (r_TIME R s) + d" for t
    by (subst of_int_less_iff) linarith
  have "zscore (live_leases t (look s') i) u = (if t \<le> fst (r_TIME R s) + d then Some ?e else None)" for t
    unfolding zscore_live_leases [OF ty] sc by (simp only: fun_upd_same option.case lt)
  moreover have "zscore (live_leases t (look s') i) v = zscore (live_leases t (look s) i) v" if "v \<noteq> u" for t v
    unfolding zscore_live_leases [OF ty] zscore_live_leases [OF assms(2)] sc using that by simp
  ultimately show ?thesis using False r by (simp add: l)
qed (use redis_server.renew_spec [OF assms(1,2), of u d] assms(3) in simp)

theorem renew_extends_witness:
  "\<exists>s'. renew_lua mem_redis (concurrency_key ''lim'') ''t1'' 30 demo_leased = (1, s') \<and>
     zscore (live_leases 1700000030 (ks s') ''lim'') ''t1'' = Some 1700000030 \<and>
     zscore (live_leases 1700000031 (ks s') ''lim'') ''t1'' = None"
proof -
  obtain r s' where r: "renew_lua mem_redis (concurrency_key ''lim'') ''t1'' 30 demo_leased = (r, s')"
    by force
  show ?thesis
    using renew_extends [OF mem.redis_server_axioms demo_leased_typed r] r by simp
qed

text \<open>\<^verbatim>\<open>release.lua\<close> gives back exactly what the task held: it reports whether the lease and the
  deduplication marker existed, removes both, touches no other key, and releasing again finds
  nothing and changes nothing.\<close>

theorem release_frees:
  assumes "redis_server R look el" "typed i (look s)" "u \<noteq> []"
    and "release_lua R (concurrency_key i) (get_inflight_key i u) ch u wk s = (r, s')"
    and "release_lua R (concurrency_key i) (get_inflight_key i u) ch u wk s' = (r2, s2)"
  shows "r = (if zscore (zset_of (look s (concurrency_key i))) u = None then 0 else 1,
              if look s (get_inflight_key i u) = None then 0 else 1)
    \<and> zscore (zset_of (look s' (concurrency_key i))) = (zscore (zset_of (look s (concurrency_key i))))(u := None)
    \<and> look s' (get_inflight_key i u) = None
    \<and> (\<forall>k. k \<noteq> concurrency_key i \<longrightarrow> k \<noteq> get_inflight_key i u \<longrightarrow> look s' k = look s k)
    \<and> r2 = (0, 0) \<and> look s2 = look s'"
proof -
  let ?L = "zset_of (look s (concurrency_key i))"
  obtain a where a: "release_lua R (concurrency_key i) (get_inflight_key i u) ch u wk s =
      ((if zscore ?L u = None then 0 else 1, if look s (get_inflight_key i u) = None then 0 else 1), a)"
    and la: "look a = (look s)(concurrency_key i := put_zset (zrem u ?L) (look s (concurrency_key i)),
        get_inflight_key i u := None)"
    by (rule redis_server.release_spec [OF assms(1-3)])
  have s': "s' = a" using a assms(4) by simp
  have ty: "typed i (look a)"
    by (simp add: la typed_upd zinv_zrem assms(2) typedD [OF assms(2)])
  have sc: "zscore (zset_of (look a (concurrency_key i))) = (zscore ?L)(u := None)"
    by (simp add: la zscore_zrem typedD [OF assms(2)])
  obtain b where b: "release_lua R (concurrency_key i) (get_inflight_key i u) ch u wk a =
      ((if zscore (zset_of (look a (concurrency_key i))) u = None then 0 else 1,
        if look a (get_inflight_key i u) = None then 0 else 1), b)"
    and lb: "look b = (look a)(concurrency_key i := put_zset (zrem u (zset_of (look a (concurrency_key i))))
        (look a (concurrency_key i)), get_inflight_key i u := None)"
    by (rule redis_server.release_spec [OF assms(1) ty assms(3)])
  have "zrem u (zrem u ?L) = zrem u ?L" by (simp add: zrem_def)
  then have "look b = look a"
    by (auto simp: lb la put_zset_def fun_eq_iff)
  moreover have "r2 = (0, 0)" "s2 = b"
    using b assms(5) by (simp_all add: s' sc) (simp_all add: la)
  ultimately show ?thesis
    using a assms(4) by (simp add: s' sc) (simp add: la)
qed

theorem release_frees_witness:
  "\<exists>s'. release_lua mem_redis (concurrency_key ''lim'') (get_inflight_key ''lim'' ''t1'')
      (drain_signal_channel ''lim'') ''t1'' ''w1'' demo_leased = ((1, 1), s') \<and>
     ks s' (get_inflight_key ''lim'' ''t1'') = None"
proof -
  let ?rel = "release_lua mem_redis (concurrency_key ''lim'') (get_inflight_key ''lim'' ''t1'')
      (drain_signal_channel ''lim'') ''t1'' ''w1''"
  obtain r s' where r: "?rel demo_leased = (r, s')" by (metis surj_pair)
  obtain r2 s2 where r2: "?rel s' = (r2, s2)" by (metis surj_pair)
  show ?thesis
    using release_frees [OF mem.redis_server_axioms demo_leased_typed _ r r2] r by simp
qed

text \<open>C22. \<^verbatim>\<open>acquire.lua\<close> admits a request exactly when the weighted estimate is below the limit: then the counter
  of the current fixed window grows by one and stays within the limit, and no other key changes;
  a rejected request changes nothing. The reply carries the counters and the time to the reset,
  which is not negative and at most the window; the remaining tokens it reports lie between -1 and the
  limit, and are -1 exactly when a request is admitted with less than one token left.\<close>

theorem acquire_admits:
  assumes "redis_server R look el" "typed i (look s)" "0 < window" "is_integral (window_ms window)"
    and "0 \<le> ks_previous i (window_ms window) (lua_now_ms R s) (look s)"
    and "0 \<le> ks_current i (window_ms window) (lua_now_ms R s) (look s)" "0 \<le> limit"
    and "acquire_lua R i window limit s = (r, s')"
  shows "\<exists>t. r = Inr t
    \<and> ar_previous t = ks_previous i (window_ms window) (lua_now_ms R s) (look s)
    \<and> ar_current t = ks_current i (window_ms window) (lua_now_ms R s) (look s')
    \<and> 0 \<le> ar_reset_in_ms t \<and> of_int (ar_reset_in_ms t) \<le> window_ms window
    \<and> - 1 \<le> ar_remaining t \<and> ar_remaining t \<le> limit
    \<and> (if ks_estimate i (window_ms window) (lua_now_ms R s) (look s) < of_int limit
       then ar_allowed t = 1
         \<and> ar_current t = ks_current i (window_ms window) (lua_now_ms R s) (look s) + 1
         \<and> ar_current t \<le> limit
         \<and> (\<forall>k. k \<noteq> window_key i (window_start (window_ms window) (lua_now_ms R s)) \<longrightarrow> look s' k = look s k)
         \<and> (ar_remaining t = - 1 \<longleftrightarrow>
              of_int limit < ks_estimate i (window_ms window) (lua_now_ms R s) (look s) + 1)
       else ar_allowed t = 0 \<and> look s' = look s \<and> 0 \<le> ar_remaining t)"
proof -
  let ?w = "window_ms window" and ?now = "lua_now_ms R s"
  let ?est = "ks_estimate i ?w ?now (look s)"
  have w: "0 < ?w" using assms(3) by (simp add: window_ms_def)
  obtain a where a: "acquire_lua R i window limit s = (Inr
      \<lparr>ar_allowed = (if ?est < of_int limit then 1 else 0),
       ar_remaining = window_remaining limit ?est - (if ?est < of_int limit then 1 else 0),
       ar_reset_in_ms = redis_int (window_reset ?w ?now), ar_previous = ks_previous i ?w ?now (look s),
       ar_current = ks_current i ?w ?now (look s) + (if ?est < of_int limit then 1 else 0)\<rparr>, a)"
    "look a = (if ?est < of_int limit then acquired_ks i window ?now (clock_ms R s) (look s) else look s)"
    by (rule redis_server.acquire_spec [OF assms(1-4)])
  have est: "of_int (ks_current i ?w ?now (look s)) \<le> ?est"
    using window_estimate_lower [OF w assms(5)] by (simp add: ks_estimate_def)
  have "0 \<le> ?est" using est assms(6) by (metis of_int_0_le_iff order_trans)
  then have rem: "window_remaining limit ?est \<le> limit"
    using window_remaining_le [of 0 ?est limit] assms(7) by simp
  have reset: "0 \<le> redis_int (window_reset ?w ?now)" "of_int (redis_int (window_reset ?w ?now)) \<le> ?w"
    using window_reset_bounds [OF w, of ?now] by (simp_all add: redis_int_def) linarith
  have lim: "?est < of_int limit \<Longrightarrow> ks_current i ?w ?now (look s) < limit"
    using est by linarith
  have m1: "window_remaining limit ?est - 1 = - 1 \<longleftrightarrow> of_int limit < ?est + 1"
    by (simp add: window_remaining_zero) linarith
  have le: "window_remaining limit ?est - 1 \<le> limit" using rem by simp
  have s': "r = fst (acquire_lua R i window limit s)" "s' = a" using assms(8) a(1) by simp_all
  have cur: "ks_current i ?w ?now (look a) =
      ks_current i ?w ?now (look s) + (if ?est < of_int limit then 1 else 0)"
    by (simp add: a(2) acquired_ks_def Let_def ks_current_def)
  have nn: "- 1 < window_remaining limit ?est" using window_remaining_nonneg [of limit ?est] by linarith
  show ?thesis
  proof (cases "?est < of_int limit")
    case True
    then show ?thesis
      unfolding s' a using reset lim m1 le cur by (simp add: nn a(2) acquired_ks_def Let_def)
  next
    case False
    then show ?thesis unfolding s' a using reset rem cur nn by (simp add: a(2))
  qed
qed

theorem acquire_admits_witness:
  "\<exists>t s'. acquire_lua mem_redis ''lim'' 1 2 demo_mem = (Inr t, s') \<and> ar_allowed t = 1 \<and> ar_current t = 1"
proof -
  obtain r s' where r: "acquire_lua mem_redis ''lim'' 1 2 demo_mem = (r, s')" by (metis surj_pair)
  show ?thesis
    using acquire_admits [OF mem.redis_server_axioms demo_typed _ _ _ _ _ r] r
    by (auto simp: window_ms_def is_integral_def ks_previous_def ks_current_def ks_estimate_def window_estimate_def)
qed

lemma leases_split: "length z = length (zprune mx z) + length (filter (\<lambda>e. fst e \<le> mx) z)"
  by (induction z) (auto simp: zprune_def)

text \<open>C23. \<^verbatim>\<open>health.lua\<close> reports the state exactly: the two window counters, the number of members of the
  concurrency set and of the buffer, the whole milliseconds that are left of the window, and the integer
  part of the estimate (the reply of Redis drops the fraction); the estimate itself is never below the
  current counter. It agrees with \<^verbatim>\<open>consume.lua\<close>: when a consume call on the same state reports a block
  (status 0), the counters, the buffer length and the time to the reset are the same, and since the
  snapshot does not reclaim expired leases it counts exactly those more. The state is one whose keys have
  their types and whose counters are not negative.\<close>

theorem health_agrees:
  assumes "redis_server R look el" "typed i (look s)" "call_ok i a" "buffer_ok i decode (look s)"
    and "0 \<le> ks_previous i (window_ms (ca_window a)) (lua_now_ms R s) (look s)"
    and "0 \<le> ks_current i (window_ms (ca_window a)) (lua_now_ms R s) (look s)"
    and "h = health_lua R i (buffer_key i) (concurrency_key i) (ca_window a) s"
  defines "w \<equiv> window_ms (ca_window a)" and "now \<equiv> lua_now_ms R s" and "K \<equiv> look s"
  shows "hr_current h = cnt_of (K (window_key i (window_start w now)))
    \<and> hr_previous h = cnt_of (K (window_key i (window_start w now - w)))
    \<and> hr_estimated h = \<lfloor>of_int (hr_current h) + of_int (hr_previous h) * (window_start w now + w - of_int now) / w\<rfloor>
    \<and> hr_current h \<le> hr_estimated h
    \<and> hr_active h = int (length (zset_of (K (concurrency_key i))))
    \<and> hr_buffer h = int (length (zset_of (K (buffer_key i))))
    \<and> hr_reset_in_ms h = \<lfloor>window_start w now + w - of_int now\<rfloor>
    \<and> (\<forall>t s'. consume_lua R decode a s = (Inr t, s') \<longrightarrow> cr_status t = 0 \<longrightarrow>
        hr_previous h = cr_previous t \<and> hr_current h = cr_current t \<and> hr_buffer h = cr_buffer t
        \<and> hr_reset_in_ms h = cr_reset_in_ms t
        \<and> hr_active h = cr_active t
            + int (length (filter (\<lambda>e. fst e \<le> of_int (fst (r_TIME R s) - 1)) (zset_of (K (concurrency_key i))))))"
proof -
  have w0: "0 < w" using call_ok_ttl(3) [OF assms(3)] by (simp add: w_def)
  have reset: "window_reset w now = window_start w now + w - of_int now" "0 \<le> window_reset w now"
    using window_start_gt [OF w0, of now] by (auto simp: window_reset_def)
  have est: "ks_estimate i w now K = of_int (ks_current i w now K)
      + of_int (ks_previous i w now K) * (window_start w now + w - of_int now) / w"
    by (simp add: ks_estimate_def window_estimate_def window_weight_def algebra_simps)
  have low: "of_int (ks_current i w now K) \<le> ks_estimate i w now K"
    using window_estimate_lower [OF w0, of "ks_previous i w now K"] assms(5) by (simp add: ks_estimate_def w_def now_def K_def)
  then have pos: "0 \<le> ks_estimate i w now K"
    using assms(6) unfolding w_def now_def K_def by (metis of_int_0_le_iff order_trans)
  have h: "h = \<lparr>hr_previous = ks_previous i w now K, hr_current = ks_current i w now K,
      hr_estimated = \<lfloor>ks_estimate i w now K\<rfloor>, hr_active = int (length (zset_of (K (concurrency_key i)))),
      hr_reset_in_ms = \<lfloor>window_reset w now\<rfloor>, hr_buffer = int (length (zset_of (K (buffer_key i))))\<rparr>"
    using pos reset(2) redis_server.health_spec [OF assms(1,2), of "ca_window a"]
    by (simp add: assms(7) Let_def redis_int_def w_def now_def K_def)
  have "hr_previous h = cr_previous t \<and> hr_current h = cr_current t \<and> hr_buffer h = cr_buffer t
        \<and> hr_reset_in_ms h = cr_reset_in_ms t \<and> hr_active h = cr_active t
            + int (length (filter (\<lambda>e. fst e \<le> of_int (fst (r_TIME R s) - 1)) (zset_of (K (concurrency_key i)))))"
    if run: "consume_lua R decode a s = (Inr t, s')" "cr_status t = 0" for t s'
  proof -
    have sp: "(t, look s') = spec_at R look i decode a s"
      by (rule consume_specE [OF assms(1-4) run(1)]) simp
    have t: "t = ks_telemetry i a now (int (length (live_leases (fst (r_TIME R s)) K i))) K"
      using consume_ks_blocked [OF sp run(2)] by (simp add: now_def K_def)
    show ?thesis
      using reset(2) leases_split [of "zset_of (K (concurrency_key i))" "of_int (fst (r_TIME R s) - 1)"]
      unfolding h t ks_telemetry_def live_leases_def by (simp add: Let_def w_def redis_int_def)
  qed
  moreover have "ks_current i w now K \<le> \<lfloor>ks_estimate i w now K\<rfloor>" using low by (simp add: le_floor_iff)
  ultimately show ?thesis by (simp add: h ks_current_def ks_previous_def est reset(1))
qed

theorem health_agrees_witness:
  "hr_buffer (health_lua mem_redis ''lim'' (buffer_key ''lim'') (concurrency_key ''lim'') 1 demo_leased) = 2
   \<and> hr_active (health_lua mem_redis ''lim'' (buffer_key ''lim'') (concurrency_key ''lim'') 1 demo_leased) = 1"
proof -
  obtain t s' where r: "consume_lua mem_redis demo_decode demo_args demo_leased = (Inr t, s')"
    and t: "cr_status t = 0" "cr_buffer t = 2"
    using demo_blocked by (metis prod.collapse)
  have ok: "buffer_ok ''lim'' demo_decode (ks demo_leased)"
    using demo_buffer_ok by (simp add: demo_leased_def buffer_ok_def)
  have w: "ca_window demo_args = 1" by (simp add: demo_args_def)
  have z: "zset_of (ks demo_leased (concurrency_key ''lim'')) = [(1700000010, ''t1'')]" by (simp add: demo_leased_def)
  show ?thesis
    using health_agrees [OF mem.redis_server_axioms demo_leased_typed demo_call_ok ok _ _ refl] r t
    by (simp add: ks_previous_def ks_current_def w z)
qed

end
