(* ===== verification/Client.thy ===== *)
theory Client
  imports Scripts_Props
begin

text \<open>
  The Redis client (redis-py) as the limiter uses it, and the management of Lua scripts:
  \<^verbatim>\<open>AbstractSyncRateLimiter\<close> and \<^verbatim>\<open>AbstractAsyncRateLimiter\<close> in \<^verbatim>\<open>core/base.py\<close>, \<^verbatim>\<open>load_lua_script\<close> in
  \<^verbatim>\<open>core/scripts.py\<close>. The client is not part of the program: it is a record of operations on a connection
  state \<open>'c\<close>, each of which may raise. An \<^verbatim>\<open>EVALSHA\<close> call carries its keys and arguments as a value of
  \<open>script_call\<close>, one constructor per script with the positions of \<^verbatim>\<open>KEYS\<close> and \<^verbatim>\<open>ARGV\<close>.
\<close>

section \<open>Calls and replies\<close>

datatype script_call =
    CallConsume consume_args
  | CallSchedule string string rat "rat option"
  | CallAcquire string rat int
  | CallHealth string string string rat
  | CallRenew string string int
  | CallRelease string string string string string

datatype reply =
    RepConsume consume_reply
  | RepNil
  | RepAcquire acquire_reply
  | RepHealth health_reply
  | RepInt int
  | RepPair "int \<times> int"

definition run_script :: "'s redis \<Rightarrow> cjson \<Rightarrow> script_call \<Rightarrow> 's \<Rightarrow> (exn + reply) \<times> 's" where
  "run_script R decode call s = (case call of
     CallConsume a \<Rightarrow> (case consume_lua R decode a s of (r, s') \<Rightarrow> (map_sum id RepConsume r, s'))
   | CallSchedule k js p ov \<Rightarrow> (Inr RepNil, schedule_lua R k js p ov s)
   | CallAcquire b w n \<Rightarrow> (case acquire_lua R b w n s of (r, s') \<Rightarrow> (map_sum id RepAcquire r, s'))
   | CallHealth b k c w \<Rightarrow> (Inr (RepHealth (health_lua R b k c w s)), s)
   | CallRenew c u d \<Rightarrow> (case renew_lua R c u d s of (n, s') \<Rightarrow> (Inr (RepInt n), s'))
   | CallRelease c k ch u wk \<Rightarrow> (case release_lua R c k ch u wk s of (p, s') \<Rightarrow> (Inr (RepPair p), s')))"

definition script_of :: "script_call \<Rightarrow> string" where
  "script_of call = (case call of
     CallConsume _ \<Rightarrow> ''consume.lua'' | CallSchedule _ _ _ _ \<Rightarrow> ''schedule.lua''
   | CallAcquire _ _ _ \<Rightarrow> ''acquire.lua'' | CallHealth _ _ _ _ \<Rightarrow> ''health.lua''
   | CallRenew _ _ _ \<Rightarrow> ''renew.lua'' | CallRelease _ _ _ _ _ \<Rightarrow> ''release.lua'')"

record 'c client =
  c_script_load :: "string \<Rightarrow> ('c, string) py"
  c_evalsha :: "string \<Rightarrow> script_call \<Rightarrow> ('c, reply) py"
  c_set_nx_ex :: "string \<Rightarrow> string \<Rightarrow> int \<Rightarrow> ('c, bool) py"
  c_delete :: "string \<Rightarrow> ('c, int) py"
  c_zcard :: "string \<Rightarrow> ('c, int) py"
  c_publish :: "string \<Rightarrow> string \<Rightarrow> ('c, unit) py"
  c_blpop :: "string \<Rightarrow> rat \<Rightarrow> ('c, string option) py"
  c_subscribe :: "string \<Rightarrow> ('c, unit) py"
  c_unsubscribe :: "('c, unit) py"
  c_hget :: "string \<Rightarrow> string \<Rightarrow> ('c, hval option) py"
  c_hset :: "string \<Rightarrow> string \<Rightarrow> hval \<Rightarrow> ('c, unit) py"
  c_hincrby :: "string \<Rightarrow> string \<Rightarrow> ('c, int) py"

section \<open>Loading the scripts from the package\<close>

text \<open>\<^verbatim>\<open>files p f\<close> stands for \<^verbatim>\<open>resources.files(p).joinpath(f).read_text()\<close>.\<close>

definition default_resource_packages :: "string list" where
  "default_resource_packages = [''redis_rate_limiter.lua'', ''src.redis_rate_limiter.lua'']"

fun load_lua_script :: "(string \<Rightarrow> string \<Rightarrow> exn + string) \<Rightarrow> string \<Rightarrow> string list \<Rightarrow> exn + string" where
  "load_lua_script files script_name [] = Inl ImportError"
| "load_lua_script files script_name (p # ps) =
     (case files p script_name of
        Inr content \<Rightarrow> Inr content
      | Inl e \<Rightarrow> if e = ModuleNotFoundError \<or> e = OSError then load_lua_script files script_name ps else Inl e)"

section \<open>Script registration and evaluation\<close>

text \<open>The part of an instance that script management touches: the connection and the two caches.\<close>

record 'c scripts =
  s_conn :: 'c
  s_sources :: "string \<rightharpoonup> string"
  s_shas :: "string \<rightharpoonup> string"

definition on_conn :: "('c, 'a) py \<Rightarrow> ('c scripts, 'a) py" where
  "on_conn m w = (case m (s_conn w) of (r, c) \<Rightarrow> (r, w\<lparr>s_conn := c\<rparr>))"

definition lookup_key :: "(string \<rightharpoonup> string) \<Rightarrow> string \<Rightarrow> ('c scripts, string) py" where
  "lookup_key m k = (case m k of Some v \<Rightarrow> py_return v | None \<Rightarrow> py_raise KeyError)"

definition register_script ::
  "(string \<Rightarrow> string \<Rightarrow> exn + string) \<Rightarrow> 'c client \<Rightarrow> string \<Rightarrow> ('c scripts, string) py" where
  "register_script files C script_name =
     py_bind (py_get s_sources) (\<lambda>sources.
     py_then (py_if (script_name \<notin> dom sources)
       (case load_lua_script files script_name default_resource_packages of
          Inl e \<Rightarrow> py_raise e
        | Inr text \<Rightarrow> py_modify (\<lambda>w. w\<lparr>s_sources := (s_sources w)(script_name \<mapsto> text)\<rparr>)))
     (py_bind (py_get s_sources) (\<lambda>sources'.
      py_bind (lookup_key sources' script_name) (\<lambda>src.
      py_bind (on_conn (c_script_load C src)) (\<lambda>sha.
      py_then (py_modify (\<lambda>w. w\<lparr>s_shas := (s_shas w)(script_name \<mapsto> sha)\<rparr>))
        (py_return sha))))))"

definition evalsha_cached :: "'c client \<Rightarrow> script_call \<Rightarrow> ('c scripts, reply) py" where
  "evalsha_cached C call =
     py_bind (py_get s_shas) (\<lambda>shas. py_bind (lookup_key shas (script_of call)) (\<lambda>sha. on_conn (c_evalsha C sha call)))"

definition eval_script ::
  "(string \<Rightarrow> string \<Rightarrow> exn + string) \<Rightarrow> 'c client \<Rightarrow> script_call \<Rightarrow> ('c scripts, reply) py" where
  "eval_script files C call =
     (let script_name = script_of call in
      py_bind (py_get s_shas) (\<lambda>shas.
      py_bind (if script_name \<in> dom shas then py_return [] else register_script files C script_name) (\<lambda>_.
      py_catch (evalsha_cached C call) (\<lambda>e.
        if e = NoScriptError
        then py_bind (register_script files C script_name) (\<lambda>_.
             py_catch (evalsha_cached C call) (\<lambda>e2.
               if e2 = NoScriptError then py_raise RuntimeError else py_raise e2))
        else py_raise e))))"

text \<open>The asynchronous base class awaits the same calls of \<^verbatim>\<open>redis.asyncio\<close> in the same order.\<close>

definition async_register_script ::
  "(string \<Rightarrow> string \<Rightarrow> exn + string) \<Rightarrow> 'c client \<Rightarrow> string \<Rightarrow> ('c scripts, string) py" where
  "async_register_script files C script_name =
     py_bind (py_get s_sources) (\<lambda>sources.
     py_then (py_if (script_name \<notin> dom sources)
       (case load_lua_script files script_name default_resource_packages of
          Inl e \<Rightarrow> py_raise e
        | Inr text \<Rightarrow> py_modify (\<lambda>w. w\<lparr>s_sources := (s_sources w)(script_name \<mapsto> text)\<rparr>)))
     (py_bind (py_get s_sources) (\<lambda>sources'.
      py_bind (lookup_key sources' script_name) (\<lambda>src.
      py_bind (on_conn (c_script_load C src)) (\<lambda>sha.
      py_then (py_modify (\<lambda>w. w\<lparr>s_shas := (s_shas w)(script_name \<mapsto> sha)\<rparr>))
        (py_return sha))))))"

definition async_evalsha_cached :: "'c client \<Rightarrow> script_call \<Rightarrow> ('c scripts, reply) py" where
  "async_evalsha_cached C call =
     py_bind (py_get s_shas) (\<lambda>shas. py_bind (lookup_key shas (script_of call)) (\<lambda>sha. on_conn (c_evalsha C sha call)))"

definition async_eval_script ::
  "(string \<Rightarrow> string \<Rightarrow> exn + string) \<Rightarrow> 'c client \<Rightarrow> script_call \<Rightarrow> ('c scripts, reply) py" where
  "async_eval_script files C call =
     (let script_name = script_of call in
      py_bind (py_get s_shas) (\<lambda>shas.
      py_bind (if script_name \<in> dom shas then py_return [] else async_register_script files C script_name) (\<lambda>_.
      py_catch (async_evalsha_cached C call) (\<lambda>e.
        if e = NoScriptError
        then py_bind (async_register_script files C script_name) (\<lambda>_.
             py_catch (async_evalsha_cached C call) (\<lambda>e2.
               if e2 = NoScriptError then py_raise RuntimeError else py_raise e2))
        else py_raise e))))"

section \<open>What the client promises\<close>

text \<open>A command either takes effect once and returns the server's answer, or the connection fails, before or after the
  server has executed it.\<close>

definition performs :: "('c \<Rightarrow> 's) \<Rightarrow> ('c \<Rightarrow> string set) \<Rightarrow> ('c, 'a) py \<Rightarrow> ('s \<Rightarrow> 'a \<times> 's) \<Rightarrow> bool" where
  "performs srv loaded m f = (\<forall>c r c'. m c = (r, c') \<longrightarrow> loaded c' = loaded c \<and>
     (case r of Inr x \<Rightarrow> (x, srv c') = f (srv c)
      | Inl e \<Rightarrow> e = RedisConnectionError \<and> (srv c' = srv c \<or> srv c' = snd (f (srv c)))))"

text \<open>The caches of an instance only hold what was loaded from the package.\<close>

definition caches_ok :: "(string \<Rightarrow> string) \<Rightarrow> (string \<Rightarrow> string) \<Rightarrow> 'c scripts \<Rightarrow> bool" where
  "caches_ok source sha1 w = ((\<forall>n t. s_sources w n = Some t \<longrightarrow> t = source n) \<and>
     (\<forall>n h. s_shas w n = Some h \<longrightarrow> h = sha1 (source n)))"

lemma caches_ok_conn [simp]: "caches_ok source sha1 (w\<lparr>s_conn := c\<rparr>) = caches_ok source sha1 w"
  by (simp add: caches_ok_def)

lemma caches_ok_sha:
  "caches_ok source sha1 w \<Longrightarrow> caches_ok source sha1 (w\<lparr>s_shas := (s_shas w)(n \<mapsto> sha1 (source n))\<rparr>)"
  by (auto simp: caches_ok_def)

lemma caches_ok_source:
  "caches_ok source sha1 w \<Longrightarrow> caches_ok source sha1 (w\<lparr>s_sources := (s_sources w)(n \<mapsto> source n)\<rparr>)"
  by (auto simp: caches_ok_def)

lemma caches_okD: "caches_ok source sha1 w \<Longrightarrow> s_sources w n = Some t \<Longrightarrow> t = source n"
    "caches_ok source sha1 w \<Longrightarrow> s_shas w n = Some h \<Longrightarrow> h = sha1 (source n)"
  by (auto simp: caches_ok_def)

locale redis_client =
  fixes R :: "'s redis" and decode :: cjson and C :: "'c client"
    and srv :: "'c \<Rightarrow> 's" and loaded :: "'c \<Rightarrow> string set"
    and files :: "string \<Rightarrow> string \<Rightarrow> exn + string" and source :: "string \<Rightarrow> string" and sha1 :: "string \<Rightarrow> string"
  assumes packaged: "files ''redis_rate_limiter.lua'' script_name = Inr (source script_name)"
    and script_load: "c_script_load C text c = (q, c') \<Longrightarrow> srv c' = srv c \<and>
      (q = Inr (sha1 text) \<and> loaded c' = insert (sha1 text) (loaded c) \<or> q = Inl RedisConnectionError \<and> loaded c' = loaded c)"
    and evalsha_miss: "sha \<notin> loaded c \<Longrightarrow> c_evalsha C sha call c = (r, c') \<Longrightarrow>
      (r = Inl NoScriptError \<or> r = Inl RedisConnectionError) \<and> srv c' = srv c \<and> loaded c' = loaded c"
    and evalsha_hit: "sha1 (source (script_of call)) \<in> loaded c \<Longrightarrow>
      c_evalsha C (sha1 (source (script_of call))) call c = (r, c') \<Longrightarrow> loaded c' = loaded c \<and> r \<noteq> Inl NoScriptError \<and>
      ((r, srv c') = run_script R decode call (srv c) \<or>
       r = Inl RedisConnectionError \<and> (srv c' = srv c \<or> srv c' = snd (run_script R decode call (srv c))))"
    and set_nx_ex: "performs srv loaded (c_set_nx_ex C k v ex) (r_SET_NX_EX R k v ex)"
    and delete: "performs srv loaded (c_delete C k) (r_DEL R k)"
    and zcard: "performs srv loaded (c_zcard C k) (\<lambda>s. (r_ZCARD R k s, s))"
    and publish: "performs srv loaded (c_publish C ch v) (\<lambda>s. ((), r_PUBLISH R ch v s))"
    and subscribe: "performs srv loaded (c_subscribe C ch) (\<lambda>s. ((), s))"
    and hget: "performs srv loaded (c_hget C k f) (\<lambda>s. (r_HGET R k f s, s))"
    and hset: "performs srv loaded (c_hset C k f h) (\<lambda>s. ((), r_HSET R k f h s))"
    and hincrby: "performs srv loaded (c_hincrby C k f) (r_HINCRBY R k f)"
begin

lemma load_packaged [simp]: "load_lua_script files n default_resource_packages = Inr (source n)"
  by (simp add: default_resource_packages_def packaged)

lemma register_cases:
  assumes ok: "caches_ok source sha1 w" and run: "register_script files C n w = (r, w')"
  shows "caches_ok source sha1 w' \<and> srv (s_conn w') = srv (s_conn w) \<and>
    (r = Inl RedisConnectionError \<and> loaded (s_conn w') = loaded (s_conn w)
     \<or> r = Inr (sha1 (source n)) \<and> s_shas w' n = Some (sha1 (source n))
       \<and> loaded (s_conn w') = insert (sha1 (source n)) (loaded (s_conn w)))"
proof -
  obtain q c where c: "c_script_load C (source n) (s_conn w) = (q, c)" by force
  define w1 where "w1 = w\<lparr>s_sources := (s_sources w)(n \<mapsto> source n)\<rparr>"
  have w1: "s_sources w n = Some (source n) \<Longrightarrow> w1 = w" by (simp add: w1_def fun_upd_idem)
  have w1s: "s_conn w1 = s_conn w" "s_shas w1 = s_shas w" "s_sources w1 = (s_sources w)(n \<mapsto> source n)"
    by (simp_all add: w1_def)
  have src: "s_sources w n = None \<or> s_sources w n = Some (source n)"
    using caches_okD(1) [OF ok] by (cases "s_sources w n") auto
  have eq: "register_script files C n w = (case q of Inl e \<Rightarrow> (Inl e, w1\<lparr>s_conn := c\<rparr>)
      | Inr sha \<Rightarrow> (Inr sha, w1\<lparr>s_conn := c, s_shas := (s_shas w)(n \<mapsto> sha)\<rparr>))"
  proof (cases "s_sources w n = None")
    case True
    then show ?thesis using c
      by (simp add: register_script_def py_simps lookup_key_def on_conn_def domIff w1_def split: sum.split)
  next
    case False
    then have "s_sources w n = Some (source n)" "w1 = w" using src w1 by auto
    then show ?thesis using c
      by (simp add: register_script_def py_simps lookup_key_def on_conn_def domIff split: sum.split)
  qed
  have ok1: "caches_ok source sha1 w1" unfolding w1_def by (rule caches_ok_source [OF ok])
  show ?thesis
  proof (cases q)
    case (Inl e)
    then have "r = Inl e" "w' = w1\<lparr>s_conn := c\<rparr>" using eq run by simp_all
    then show ?thesis using script_load [OF c] Inl ok1 by (simp add: w1s)
  next
    case (Inr sha)
    then have "r = Inr sha" "w' = w1\<lparr>s_conn := c, s_shas := (s_shas w)(n \<mapsto> sha)\<rparr>" using eq run by simp_all
    moreover have "sha = sha1 (source n)" using script_load [OF c] Inr by simp
    moreover have "caches_ok source sha1 (w1\<lparr>s_conn := c, s_shas := (s_shas w)(n \<mapsto> sha1 (source n))\<rparr>)"
      using caches_ok_sha [of source sha1 "w1\<lparr>s_conn := c\<rparr>" n] ok1 by (simp add: w1s)
    ultimately show ?thesis using script_load [OF c] Inr by (simp add: w1s)
  qed
qed

text \<open>What a script call amounts to from the state \<open>w\<close>: its script ran once, or the connection failed and it ran at most once.\<close>

definition effect :: "script_call \<Rightarrow> 'c scripts \<Rightarrow> exn + reply \<Rightarrow> 'c scripts \<Rightarrow> bool" where
  "effect call w q v \<longleftrightarrow> caches_ok source sha1 v \<and> ((q, srv (s_conn v)) = run_script R decode call (srv (s_conn w)) \<or>
     q = Inl RedisConnectionError \<and>
       (srv (s_conn v) = srv (s_conn w) \<or> srv (s_conn v) = snd (run_script R decode call (srv (s_conn w)))))"

lemma cached_eq:
  "s_shas v (script_of call) = Some (sha1 (source (script_of call))) \<Longrightarrow>
   c_evalsha C (sha1 (source (script_of call))) call (s_conn v) = (q, c) \<Longrightarrow> evalsha_cached C call v = (q, v\<lparr>s_conn := c\<rparr>)"
  by (simp add: evalsha_cached_def py_simps lookup_key_def on_conn_def)

lemma cached_hit:
  assumes "caches_ok source sha1 v" "s_shas v (script_of call) = Some (sha1 (source (script_of call)))"
    and hit: "sha1 (source (script_of call)) \<in> loaded (s_conn v)" and "srv (s_conn v) = srv (s_conn w)"
  shows "\<exists>q v'. evalsha_cached C call v = (q, v') \<and> q \<noteq> Inl NoScriptError \<and> effect call w q v'"
proof -
  obtain q c where c: "c_evalsha C (sha1 (source (script_of call))) call (s_conn v) = (q, c)" by force
  show ?thesis using evalsha_hit [OF hit c] assms(1,4)
    by (intro exI [of _ q] exI [of _ "v\<lparr>s_conn := c\<rparr>"] conjI cached_eq [OF assms(2) c]) (simp_all add: effect_def)
qed

lemma cached_recovers:
  assumes ok: "caches_ok source sha1 v" and sha: "s_shas v (script_of call) = Some (sha1 (source (script_of call)))"
    and same: "srv (s_conn v) = srv (s_conn w)"
    and run: "py_catch (evalsha_cached C call) (\<lambda>e. if e = NoScriptError
        then py_bind (register_script files C (script_of call)) (\<lambda>_. py_catch (evalsha_cached C call) (\<lambda>e2.
               if e2 = NoScriptError then py_raise RuntimeError else py_raise e2)) else py_raise e) v = (q, v')"
  shows "effect call w q v'"
proof (cases "sha1 (source (script_of call)) \<in> loaded (s_conn v)")
  case True
  from cached_hit [OF ok sha this same] obtain x y where "evalsha_cached C call v = (x, y)" "x \<noteq> Inl NoScriptError" "effect call w x y" by blast
  then show ?thesis using run by (cases x) (auto simp: py_simps)
next
  case False
  obtain x c where c: "c_evalsha C (sha1 (source (script_of call))) call (s_conn v) = (x, c)" by force
  note miss = evalsha_miss [OF False c] and e = cached_eq [OF sha c]
  have ok': "caches_ok source sha1 (v\<lparr>s_conn := c\<rparr>)" using ok by simp
  obtain p u where p: "register_script files C (script_of call) (v\<lparr>s_conn := c\<rparr>) = (p, u)" by force
  note reg = register_cases [OF ok' p]
  consider "x \<noteq> Inl NoScriptError" | a where "x = Inl NoScriptError" "p = Inl a" | b where "x = Inl NoScriptError" "p = Inr b"
    by (cases p) auto
  then show ?thesis
  proof cases
    case 3
    then have "caches_ok source sha1 u" "s_shas u (script_of call) = Some (sha1 (source (script_of call)))"
        "sha1 (source (script_of call)) \<in> loaded (s_conn u)" "srv (s_conn u) = srv (s_conn w)"
      using reg miss same by auto
    from cached_hit [OF this] obtain y z where "evalsha_cached C call u = (y, z)" "y \<noteq> Inl NoScriptError" "effect call w y z" by blast
    then show ?thesis using e p 3 run by (cases y) (auto simp: py_simps)
  qed (use e miss same ok' reg p run in \<open>auto simp: py_simps effect_def\<close>)
qed

lemma eval_cases:
  assumes ok: "caches_ok source sha1 w" and run: "eval_script files C call w = (r, w')"
  shows "caches_ok source sha1 w' \<and> ((r, srv (s_conn w')) = run_script R decode call (srv (s_conn w)) \<or>
    r = Inl RedisConnectionError \<and>
      (srv (s_conn w') = srv (s_conn w) \<or> srv (s_conn w') = snd (run_script R decode call (srv (s_conn w)))))"
proof (cases "script_of call \<in> dom (s_shas w)")
  case True
  then have "s_shas w (script_of call) = Some (sha1 (source (script_of call)))" using caches_okD(2) [OF ok] by auto
  then show ?thesis using cached_recovers [OF ok, of call w r w'] run True
    by (simp add: eval_script_def Let_def py_get_def py_bind_def py_return_def effect_def)
next
  case False
  obtain p u where p: "register_script files C (script_of call) w = (p, u)" by force
  note reg = register_cases [OF ok p]
  show ?thesis
  proof (cases p)
    case (Inl a)
    then show ?thesis using reg p False run by (auto simp: eval_script_def Let_def py_get_def py_bind_def)
  next
    case (Inr b)
    then show ?thesis using reg p False run cached_recovers [of u call w r w']
      by (auto simp: eval_script_def Let_def py_get_def py_bind_def effect_def)
  qed
qed

end

end
