(* ===== verification/Json.thy ===== *)
theory Json
  imports Keys
begin

text \<open>
  The part of Python's \<^verbatim>\<open>json\<close> module that the limiter uses: \<^verbatim>\<open>json.dumps\<close> with the default separators
  and ASCII output (optionally with sorted keys) and \<^verbatim>\<open>json.loads\<close>. Text is a list of code points
  below 256. A float is kept as the token that \<^verbatim>\<open>repr\<close> prints for it, since the program only carries
  floats of a payload through and never computes with them.
\<close>

section \<open>Values and printing\<close>

datatype json =
    JNull
  | JBool bool
  | JInt int
  | JFloat string
  | JStr string
  | JArr "json list"
  | JObj "(string \<times> json) list"

definition hex_digit :: "int \<Rightarrow> char" where
  "hex_digit d = (if d < 10 then char_of (48 + d) else char_of (87 + d))"

definition u_escape :: "char \<Rightarrow> string" where
  "u_escape c = (let n = of_char c :: int in CHR 0x5C # ''u00'' @ [hex_digit (n div 16), hex_digit (n mod 16)])"

definition escape :: "char \<Rightarrow> string" where
  "escape c = (let n = of_char c :: int in
     if n = 34 then [CHR 0x5C, CHR 0x22] else if n = 92 then [CHR 0x5C, CHR 0x5C]
     else if n = 10 then CHR 0x5C # ''n'' else if n = 13 then CHR 0x5C # ''r''
     else if n = 9 then CHR 0x5C # ''t'' else if n = 12 then CHR 0x5C # ''f''
     else if n = 8 then CHR 0x5C # ''b'' else if n < 32 \<or> 126 < n then u_escape c else [c])"

definition json_quote :: "string \<Rightarrow> string" where
  "json_quote s = ''\"'' @ concat (map escape s) @ ''\"''"

fun json_join :: "string list \<Rightarrow> string" where
  "json_join [] = []"
| "json_join [x] = x"
| "json_join (x # y # ys) = x @ '', '' @ json_join (y # ys)"

fun json_dumps :: "json \<Rightarrow> string" where
  "json_dumps JNull = ''null''"
| "json_dumps (JBool b) = (if b then ''true'' else ''false'')"
| "json_dumps (JInt i) = dec_int i"
| "json_dumps (JFloat t) = t"
| "json_dumps (JStr s) = json_quote s"
| "json_dumps (JArr xs) = ''['' @ json_join (map json_dumps xs) @ '']''"
| "json_dumps (JObj fs) = ''{'' @ json_join (map (\<lambda>f. json_quote (fst f) @ '': '' @ json_dumps (snd f)) fs) @ ''}''"

text \<open>\<^verbatim>\<open>sort_keys=True\<close> orders the members of every object by key.\<close>

fun json_sort :: "json \<Rightarrow> json" where
  "json_sort (JArr xs) = JArr (map json_sort xs)"
| "json_sort (JObj fs) = JObj (sort_key fst (map (\<lambda>f. (fst f, json_sort (snd f))) fs))"
| "json_sort j = j"

section \<open>Parsing\<close>

definition is_space :: "char \<Rightarrow> bool" where
  "is_space c = (c \<in> {CHR '' '', CHR 0x0A, CHR 0x0D, CHR 0x09})"

definition skip_ws :: "string \<Rightarrow> string" where
  "skip_ws s = dropWhile is_space s"

definition hex_val :: "char \<Rightarrow> int option" where
  "hex_val c = (let n = of_char c :: int in
     if 48 \<le> n \<and> n \<le> 57 then Some (n - 48) else if 97 \<le> n \<and> n \<le> 102 then Some (n - 87)
     else if 65 \<le> n \<and> n \<le> 70 then Some (n - 55) else None)"

definition unescape :: "char \<Rightarrow> char option" where
  "unescape e = (if e = CHR 0x22 \<or> e = CHR 0x5C \<or> e = CHR ''/'' then Some e
     else if e = CHR ''n'' then Some (CHR 0x0A) else if e = CHR ''r'' then Some (CHR 0x0D)
     else if e = CHR ''t'' then Some (CHR 0x09) else if e = CHR ''f'' then Some (CHR 0x0C)
     else if e = CHR ''b'' then Some (CHR 0x08) else None)"

definition cons_fst :: "'a \<Rightarrow> ('a list \<times> 'b) option \<Rightarrow> ('a list \<times> 'b) option" where
  "cons_fst x p = (case p of Some (xs, r) \<Rightarrow> Some (x # xs, r) | None \<Rightarrow> None)"

text \<open>A string after its opening quote. Raw control characters are refused, as \<^verbatim>\<open>strict=True\<close> does.\<close>

fun parse_str :: "nat \<Rightarrow> string \<Rightarrow> (string \<times> string) option" where
  "parse_str 0 s = None"
| "parse_str (Suc n) [] = None"
| "parse_str (Suc n) (c # cs) =
     (if c = CHR 0x22 then Some ([], cs)
      else if c = CHR 0x5C then
        (case cs of [] \<Rightarrow> None
         | e # ds \<Rightarrow>
             if e = CHR ''u'' then
               (case ds of CHR ''0'' # CHR ''0'' # a # b # es \<Rightarrow>
                  (case (hex_val a, hex_val b) of
                     (Some x, Some y) \<Rightarrow> cons_fst (char_of (16 * x + y)) (parse_str n es)
                   | _ \<Rightarrow> None)
                | _ \<Rightarrow> None)
             else (case unescape e of Some x \<Rightarrow> cons_fst x (parse_str n ds) | None \<Rightarrow> None))
      else if (of_char c :: int) < 32 then None
      else cons_fst c (parse_str n cs))"

definition int_digits :: "string \<Rightarrow> bool" where
  "int_digits ds = (ds \<noteq> [] \<and> list_all is_digit ds \<and> (hd ds = CHR ''0'' \<longrightarrow> ds = ''0''))"

definition drop_minus :: "string \<Rightarrow> string" where
  "drop_minus t = (case t of c # cs \<Rightarrow> (if c = CHR ''-'' then cs else t) | [] \<Rightarrow> [])"

definition exp_part :: "string \<Rightarrow> bool" where
  "exp_part r = (case r of e # u \<Rightarrow> e = CHR ''e'' \<and>
     (let v = (case u of x # xs \<Rightarrow> (if x = CHR ''+'' \<or> x = CHR ''-'' then xs else u) | [] \<Rightarrow> [])
      in v \<noteq> [] \<and> list_all is_digit v) | [] \<Rightarrow> False)"

definition float_token :: "string \<Rightarrow> bool" where
  "float_token t = (let u = drop_minus t; r = dropWhile is_digit u
     in int_digits (takeWhile is_digit u) \<and>
        (case r of [] \<Rightarrow> False
         | c # cs \<Rightarrow> if c = CHR ''.'' then takeWhile is_digit cs \<noteq> [] \<and>
               (dropWhile is_digit cs = [] \<or> exp_part (dropWhile is_digit cs))
             else exp_part r))"

definition parse_number :: "string \<Rightarrow> json option" where
  "parse_number t = (if int_digits (drop_minus t)
     then Some (JInt (if t \<noteq> drop_minus t then - undec 0 (drop_minus t) else undec 0 t))
     else if float_token t \<and> list_all num_char t then Some (JFloat t) else None)"

definition parse_word :: "string \<Rightarrow> json \<Rightarrow> string \<Rightarrow> (json \<times> string) option" where
  "parse_word w j s = (if take (length w) s = w then Some (j, drop (length w) s) else None)"

fun parse_value :: "nat \<Rightarrow> string \<Rightarrow> (json \<times> string) option"
  and parse_items :: "nat \<Rightarrow> string \<Rightarrow> (json list \<times> string) option"
  and parse_members :: "nat \<Rightarrow> string \<Rightarrow> ((string \<times> json) list \<times> string) option" where
  "parse_value 0 s = None"
| "parse_value (Suc n) s =
     (case skip_ws s of [] \<Rightarrow> None
      | c # cs \<Rightarrow>
          if c = CHR ''{'' then
            (case skip_ws cs of [] \<Rightarrow> None
             | d # ds \<Rightarrow> if d = CHR ''}'' then Some (JObj [], ds)
                 else (case parse_members n (d # ds) of Some (fs, r) \<Rightarrow> Some (JObj fs, r) | None \<Rightarrow> None))
          else if c = CHR ''['' then
            (case skip_ws cs of [] \<Rightarrow> None
             | d # ds \<Rightarrow> if d = CHR '']'' then Some (JArr [], ds)
                 else (case parse_items n (d # ds) of Some (xs, r) \<Rightarrow> Some (JArr xs, r) | None \<Rightarrow> None))
          else if c = CHR 0x22 then
            (case parse_str (Suc (length cs)) cs of Some (t, r) \<Rightarrow> Some (JStr t, r) | None \<Rightarrow> None)
          else if c = CHR ''t'' then parse_word ''true'' (JBool True) (c # cs)
          else if c = CHR ''f'' then parse_word ''false'' (JBool False) (c # cs)
          else if c = CHR ''n'' then parse_word ''null'' JNull (c # cs)
          else (case parse_number (takeWhile num_char (c # cs)) of
                  Some j \<Rightarrow> Some (j, dropWhile num_char (c # cs)) | None \<Rightarrow> None))"
| "parse_items 0 s = None"
| "parse_items (Suc n) s =
     (case parse_value n s of None \<Rightarrow> None
      | Some (v, r) \<Rightarrow>
          (case skip_ws r of [] \<Rightarrow> None
           | c # cs \<Rightarrow> if c = CHR '','' then cons_fst v (parse_items n cs)
               else if c = CHR '']'' then Some ([v], cs) else None))"
| "parse_members 0 s = None"
| "parse_members (Suc n) s =
     (case skip_ws s of [] \<Rightarrow> None
      | c # cs \<Rightarrow>
          if c = CHR 0x22 then
            (case parse_str (Suc (length cs)) cs of None \<Rightarrow> None
             | Some (k, r) \<Rightarrow>
                 (case skip_ws r of [] \<Rightarrow> None
                  | d # ds \<Rightarrow>
                      if d = CHR '':'' then
                        (case parse_value n ds of None \<Rightarrow> None
                         | Some (v, r2) \<Rightarrow>
                             (case skip_ws r2 of [] \<Rightarrow> None
                              | e # es \<Rightarrow> if e = CHR '','' then cons_fst (k, v) (parse_members n es)
                                  else if e = CHR ''}'' then Some ([(k, v)], es) else None))
                      else None))
          else None)"

definition json_loads :: "string \<Rightarrow> json option" where
  "json_loads s = (case parse_value (Suc (length s)) s of
     Some (j, r) \<Rightarrow> (if skip_ws r = [] then Some j else None) | None \<Rightarrow> None)"

text \<open>The members of a parsed object as a Python dictionary has them: a later duplicate wins.\<close>

definition jget :: "(string \<times> json) list \<Rightarrow> string \<Rightarrow> json option" where
  "jget fs k = map_of (rev fs) k"

section \<open>Round trip\<close>

fun json_ok :: "json \<Rightarrow> bool" where
  "json_ok (JFloat t) = (float_token t \<and> list_all num_char t)"
| "json_ok (JArr xs) = list_all json_ok xs"
| "json_ok (JObj fs) = list_all (\<lambda>f. json_ok (snd f)) fs"
| "json_ok j = True"

fun jsz :: "json \<Rightarrow> nat" where
  "jsz (JArr xs) = 1 + sum_list (map (\<lambda>x. 1 + jsz x) xs)"
| "jsz (JObj fs) = 1 + sum_list (map (\<lambda>f. 1 + jsz (snd f)) fs)"
| "jsz j = 1"

definition ends_token :: "string \<Rightarrow> bool" where
  "ends_token r = (r = [] \<or> \<not> num_char (hd r))"

lemma hex_digit_val [simp]: "0 \<le> d \<Longrightarrow> d < 16 \<Longrightarrow> hex_val (hex_digit d) = Some d"
  by (auto simp: hex_digit_def hex_val_def of_char_of Let_def)

lemma of_char_range: "0 \<le> (of_char c :: int)" "(of_char c :: int) < 256"
  by (simp_all add: of_char_def)

lemma char_code: "(of_char c :: int) = n \<Longrightarrow> c = char_of n"
  by auto

lemma char_codes: "char_of (34 :: int) = CHR 0x22" "char_of (92 :: int) = CHR 0x5C" "char_of (10 :: int) = CHR 0x0A"
    "char_of (13 :: int) = CHR 0x0D" "char_of (9 :: int) = CHR 0x09" "char_of (12 :: int) = CHR 0x0C"
    "char_of (8 :: int) = CHR 0x08"
  by (simp_all add: char_of_def bit_iff_odd)

lemma parse_u_escape [simp]: "parse_str (Suc m) (u_escape c @ t) = cons_fst c (parse_str m t)"
proof -
  have "0 \<le> (of_char c :: int) div 16" "(of_char c :: int) div 16 < 16"
    using of_char_range [of c] by auto
  then show ?thesis by (simp add: u_escape_def Let_def)
qed

lemma parse_str_escape [simp]: "parse_str (Suc m) (escape c @ t) = cons_fst c (parse_str m t)"
proof -
  let ?n = "of_char c :: int"
  consider "?n = 34" | "?n = 92" | "?n = 10" | "?n = 13" | "?n = 9" | "?n = 12" | "?n = 8"
    | "escape c = u_escape c" | "escape c = [c]" "?n \<noteq> 34" "?n \<noteq> 92" "32 \<le> ?n"
    unfolding escape_def Let_def by (smt (verit))
  then show ?thesis
  proof cases
    case 9
    then have "c \<noteq> CHR 0x22" "c \<noteq> CHR 0x5C" by auto
    with 9 show ?thesis by simp
  qed (auto simp: escape_def unescape_def char_codes dest!: char_code)
qed

lemma parse_str_quote:
  "length s < n \<Longrightarrow> parse_str n (concat (map escape s) @ CHR 0x22 # r) = Some (s, r)"
proof (induction s arbitrary: n)
  case Nil
  then show ?case by (cases n) simp_all
next
  case (Cons c s)
  then obtain m where "n = Suc m" "length s < m" by (cases n) auto
  with Cons.IH show ?case by (simp add: cons_fst_def)
qed

lemma escape_nonempty: "1 \<le> length (escape c)"
  by (simp add: escape_def u_escape_def Let_def)

lemma length_escaped: "length s \<le> length (concat (map escape s))"
  by (induction s) (use escape_nonempty in \<open>auto intro: order_trans add_mono\<close>)

lemma parse_str_quoted [simp]:
  "parse_str (Suc (length (concat (map escape s) @ CHR 0x22 # r))) (concat (map escape s) @ CHR 0x22 # r) = Some (s, r)"
  using length_escaped [of s] by (intro parse_str_quote) simp

text \<open>Numbers.\<close>

lemma dec_pos_leading: "0 \<le> i \<Longrightarrow> hd (dec_pos i) = CHR ''0'' \<Longrightarrow> i = 0"
proof (induction i rule: dec_pos.induct)
  case (1 i)
  show ?case
  proof (cases "i < 10")
    case True
    then have "digit i = CHR ''0''" using 1 by (simp add: dec_pos.simps [of i])
    then have "digit_val (digit i) = 0" by (simp add: digit_val_def)
    then show ?thesis using True 1 by simp
  next
    case False
    then have "hd (dec_pos i) = hd (dec_pos (i div 10))" by (simp add: dec_pos.simps [of i])
    moreover have "1 \<le> i div 10" using False by presburger
    ultimately show ?thesis using 1 False by simp
  qed
qed

lemma int_digits_dec_pos: "0 \<le> i \<Longrightarrow> int_digits (dec_pos i)"
  using dec_pos_leading [of i] dec_pos_digits [of i]
  by (auto simp: int_digits_def) (simp add: dec_pos.simps digit_def char_of_def bit_iff_odd)

lemma drop_minus_dec_pos: "0 \<le> i \<Longrightarrow> drop_minus (dec_pos i) = dec_pos i"
  using dec_pos_no_minus [of i] by (auto simp: drop_minus_def split: list.split)

lemma parse_number_int [simp]: "parse_number (dec_int i) = Some (JInt i)"
proof (cases "i < 0")
  case True
  then have "drop_minus (dec_int i) = dec_pos (- i)" by (simp add: dec_int_def drop_minus_def)
  moreover have "dec_int i \<noteq> dec_pos (- i)" using True by (simp add: dec_int_def)
  ultimately show ?thesis using True by (simp add: parse_number_def int_digits_dec_pos)
next
  case False
  then show ?thesis by (simp add: parse_number_def dec_int_def drop_minus_dec_pos int_digits_dec_pos)
qed

definition number_start :: "string \<Rightarrow> bool" where
  "number_start t = (t \<noteq> [] \<and> (is_digit (hd t) \<or> hd t = CHR ''-''))"

lemma number_start_Nil [simp]: "\<not> number_start []"
  by (simp add: number_start_def)

lemma number_start_int: "number_start (dec_int i)"
  using dec_int_chars [of i] by (cases "dec_int i") (simp_all add: number_start_def)

lemma number_start_float: "float_token t \<Longrightarrow> number_start t"
  by (cases t) (auto simp: float_token_def int_digits_def drop_minus_def number_start_def Let_def split: if_splits)

lemma float_not_int: "float_token t \<Longrightarrow> \<not> int_digits (drop_minus t)"
proof
  assume f: "float_token t" and "int_digits (drop_minus t)"
  then have "dropWhile is_digit (drop_minus t) = []" by (simp add: int_digits_def list_all_iff)
  with f show False by (simp add: float_token_def)
qed

lemma number_start_special:
  assumes "number_start (c # cs)"
  shows "c \<noteq> CHR ''{''" "c \<noteq> CHR ''[''" "c \<noteq> CHR 0x22" "c \<noteq> CHR ''t''" "c \<noteq> CHR ''f''" "c \<noteq> CHR ''n''" "\<not> is_space c"
proof -
  have c: "is_digit c \<or> c = CHR ''-''" using assms by (simp add: number_start_def)
  have "\<not> is_digit CHR ''{''" "\<not> is_digit CHR ''[''" "\<not> is_digit CHR 0x22" "\<not> is_digit CHR ''t''"
    "\<not> is_digit CHR ''f''" "\<not> is_digit CHR ''n''" "\<not> is_digit CHR '' ''" "\<not> is_digit CHR 0x0A"
    "\<not> is_digit CHR 0x0D" "\<not> is_digit CHR 0x09" by (simp_all add: is_digit_def)
  then show "c \<noteq> CHR ''{''" "c \<noteq> CHR ''[''" "c \<noteq> CHR 0x22" "c \<noteq> CHR ''t''" "c \<noteq> CHR ''f''" "c \<noteq> CHR ''n''" "\<not> is_space c"
    using c by (auto simp: is_space_def)
qed

lemma parse_number_token:
  assumes "number_start t" "list_all num_char t" "ends_token r" "parse_number t = Some j"
  shows "parse_value (Suc n) (t @ r) = Some (j, r)"
proof -
  obtain c cs where t: "t = c # cs" using assms(1) by (cases t) (auto simp: number_start_def)
  have all: "\<forall>x \<in> set t. num_char x" using assms(2) by (simp add: list_all_iff)
  have r: "takeWhile num_char r = []" "dropWhile num_char r = r"
    using assms(3) by (cases r; simp add: ends_token_def)+
  have "takeWhile num_char (t @ r) = t" "dropWhile num_char (t @ r) = r"
    using all r by (simp_all add: takeWhile_append2 dropWhile_append2)
  then show ?thesis
    using number_start_special [of c cs] assms(1,4) by (simp add: t skip_ws_def)
qed

text \<open>Values: the parser inverts the printer, whatever follows.\<close>

lemma ends_token_simps [simp]:
  "ends_token []" "ends_token (CHR '','' # r)" "ends_token (CHR '']'' # r)" "ends_token (CHR ''}'' # r)"
  by (simp_all add: ends_token_def num_char_def is_digit_def)

lemma skip_ws_simps [simp]:
  "skip_ws (CHR '' '' # s) = skip_ws s" "\<not> is_space c \<Longrightarrow> skip_ws (c # s) = c # s" "skip_ws [] = []"
  by (simp_all add: skip_ws_def is_space_def)

lemma parse_value_ws [simp]: "parse_value n (CHR '' '' # s) = parse_value n s"
  by (cases n) simp_all

lemma parse_items_ws [simp]: "parse_items n (CHR '' '' # s) = parse_items n s"
  by (cases n) simp_all

lemma parse_members_ws [simp]: "parse_members n (CHR '' '' # s) = parse_members n s"
  by (cases n) simp_all

lemma number_start_bracket: "number_start (c # cs) \<Longrightarrow> \<not> is_space c \<and> c \<noteq> CHR '']''"
  using number_start_special(7) [of c cs] by (auto simp: number_start_def) (simp add: is_digit_def)

lemma json_dumps_start: "json_ok j \<Longrightarrow> \<exists>c cs. json_dumps j = c # cs \<and> \<not> is_space c \<and> c \<noteq> CHR '']''"
proof (cases j)
  case (JInt i)
  then show ?thesis using number_start_int [of i] by (cases "dec_int i") (auto simp: number_start_bracket)
next
  case (JFloat t)
  moreover assume "json_ok j"
  ultimately show ?thesis using number_start_float [of t] by (cases t) (auto simp: number_start_bracket)
qed (auto simp: json_quote_def is_space_def)

lemma parse_items_dumps:
  assumes "xs \<noteq> []" "list_all json_ok xs"
    and "\<And>x n r. x \<in> set xs \<Longrightarrow> ends_token r \<Longrightarrow> jsz x \<le> n \<Longrightarrow> parse_value n (json_dumps x @ r) = Some (x, r)"
    and "sum_list (map (\<lambda>x. 1 + jsz x) xs) \<le> n"
  shows "parse_items n (json_join (map json_dumps xs) @ CHR '']'' # r) = Some (xs, r)"
  using assms
proof (induction xs arbitrary: n)
  case (Cons x xs)
  then obtain m where n: "n = Suc m" by (cases n) simp_all
  have v: "parse_value m (json_dumps x @ t) = Some (x, t)" if "ends_token t" for t
    using Cons.prems(3) [of x t m] Cons.prems(4) that n by simp
  show ?case
  proof (cases xs)
    case Nil
    then show ?thesis using v [of "CHR '']'' # r"] by (simp add: n is_space_def)
  next
    case (Cons y ys)
    have "parse_items m (json_join (map json_dumps xs) @ CHR '']'' # r) = Some (xs, r)"
      using Cons Cons.IH [of m] Cons.prems n by simp
    then show ?thesis
      using v [of "CHR '','' # CHR '' '' # json_join (map json_dumps xs) @ CHR '']'' # r"] Cons
      by (simp add: n is_space_def cons_fst_def)
  qed
qed simp

lemma parse_members_dumps:
  assumes "fs \<noteq> []"
    and "\<And>f n r. f \<in> set fs \<Longrightarrow> ends_token r \<Longrightarrow> jsz (snd f) \<le> n \<Longrightarrow>
      parse_value n (json_dumps (snd f) @ r) = Some (snd f, r)"
    and "sum_list (map (\<lambda>f. 1 + jsz (snd f)) fs) \<le> n" and tail: "tail = CHR ''}'' # r \<and> gs = [] \<or>
      tail = CHR '','' # r' \<and> parse_members (n - length fs) r' = Some (gs, r)"
  shows "parse_members n (json_join (map (\<lambda>f. json_quote (fst f) @ '': '' @ json_dumps (snd f)) fs) @ tail)
    = Some (fs @ gs, r)"
  using assms
proof (induction fs arbitrary: n)
  case (Cons f fs)
  then obtain m where n: "n = Suc m" by (cases n) simp_all
  have v: "parse_value m (json_dumps (snd f) @ t) = Some (snd f, t)" if "ends_token t" for t
    using Cons.prems(2) [of f t m] Cons.prems(3) that n by simp
  have q: "parse_str (Suc (length (concat (map escape (fst f)) @ CHR 0x22 # t))) (concat (map escape (fst f)) @ CHR 0x22 # t)
      = Some (fst f, t)" for t by (rule parse_str_quoted)
  show ?case
  proof (cases fs)
    case Nil
    then show ?thesis using Cons.prems(4) v [of tail] q [of "'': '' @ json_dumps (snd f) @ tail"]
      by (auto simp: n is_space_def json_quote_def cons_fst_def)
  next
    case (Cons g ks)
    let ?j = "json_join (map (\<lambda>f. json_quote (fst f) @ '': '' @ json_dumps (snd f)) fs) @ tail"
    have "parse_members m ?j = Some (fs @ gs, r)"
      using Cons Cons.IH [of m] Cons.prems n by (auto simp: Suc_diff_Suc)
    then show ?thesis
      using v [of "CHR '','' # CHR '' '' # ?j"] q [of "'': '' @ json_dumps (snd f) @ CHR '','' # CHR '' '' # ?j"] Cons
      by (simp add: n is_space_def json_quote_def cons_fst_def)
  qed
qed simp

lemma parse_value_dumps:
  "json_ok j \<Longrightarrow> ends_token r \<Longrightarrow> jsz j \<le> n \<Longrightarrow> parse_value n (json_dumps j @ r) = Some (j, r)"
proof (induction j arbitrary: n r)
  case (JInt i)
  then obtain m where "n = Suc m" by (cases n) simp_all
  then show ?case using parse_number_token [OF number_start_int dec_int_num JInt.prems(2)] by simp
next
  case (JFloat t)
  then obtain m where "n = Suc m" by (cases n) simp_all
  moreover have "parse_number t = Some (JFloat t)"
    using JFloat.prems float_not_int [of t] by (simp add: parse_number_def)
  ultimately show ?case using JFloat.prems parse_number_token number_start_float by simp
next
  case (JStr s)
  then obtain m where "n = Suc m" by (cases n) simp_all
  then show ?case using parse_str_quoted [of s r] by (simp add: json_quote_def is_space_def)
next
  case (JArr xs)
  then obtain m where n: "n = Suc m" by (cases n) simp_all
  show ?case
  proof (cases xs)
    case Nil
    then show ?thesis by (simp add: n is_space_def)
  next
    case (Cons y ys)
    obtain c cs where c: "json_dumps y = c # cs" "\<not> is_space c" "c \<noteq> CHR '']''"
      using json_dumps_start [of y] JArr.prems(1) Cons by auto
    have "parse_items m (json_join (map json_dumps xs) @ CHR '']'' # r) = Some (xs, r)"
      using JArr Cons n by (intro parse_items_dumps) (auto simp: list_all_iff)
    moreover obtain ds where "json_join (map json_dumps xs) = c # ds"
      using c(1) Cons by (cases ys) simp_all
    ultimately show ?thesis using c by (simp add: n is_space_def)
  qed
next
  case (JObj fs)
  then obtain m where n: "n = Suc m" by (cases n) simp_all
  have IH: "parse_value k (json_dumps (snd g) @ t) = Some (snd g, t)"
    if "g \<in> set fs" "ends_token t" "jsz (snd g) \<le> k" for g t k
    using that JObj.prems(1) by (intro JObj.IH [of g]) (auto simp: list_all_iff snds.simps)
  show ?case
  proof (cases fs)
    case Nil
    then show ?thesis by (simp add: n is_space_def)
  next
    case (Cons f gs)
    let ?t = "json_join (map (\<lambda>f. json_quote (fst f) @ '': '' @ json_dumps (snd f)) fs)"
    have "parse_members m (?t @ CHR ''}'' # r) = Some (fs @ [], r)"
      using Cons JObj.prems(3) n by (intro parse_members_dumps IH) auto
    moreover obtain ds where "?t = CHR 0x22 # ds" using Cons by (cases gs) (simp_all add: json_quote_def)
    ultimately show ?thesis by (simp add: n is_space_def)
  qed
qed (auto simp: Suc_le_eq parse_word_def is_space_def gr0_conv_Suc)

lemma length_json_join: "sum_list (map (\<lambda>x. 1 + length x) xs) \<le> length (json_join xs) + 1"
  by (induction xs rule: json_join.induct) auto

lemma jsz_dumps: "json_ok j \<Longrightarrow> jsz j \<le> length (json_dumps j)"
proof (induction j)
  case (JFloat t)
  then show ?case using number_start_float [of t] by (cases t) (auto simp: number_start_def)
next
  case (JInt i)
  then show ?case using dec_int_nonempty [of i] by (cases "dec_int i") auto
next
  case (JArr xs)
  then have "sum_list (map (\<lambda>x. 1 + jsz x) xs) \<le> sum_list (map (\<lambda>x. 1 + length (json_dumps x)) xs)"
    by (intro sum_list_mono) (simp add: list_all_iff)
  also have "\<dots> \<le> length (json_join (map json_dumps xs)) + 1"
    using length_json_join [of "map json_dumps xs"] by (simp add: comp_def)
  finally show ?case by simp
next
  case (JObj fs)
  let ?p = "\<lambda>f. json_quote (fst f) @ '': '' @ json_dumps (snd f)"
  from JObj have "sum_list (map (\<lambda>f. 1 + jsz (snd f)) fs) \<le> sum_list (map (\<lambda>f. 1 + length (?p f)) fs)"
    by (intro sum_list_mono) (force simp: list_all_iff intro: trans_le_add2)
  also have "\<dots> \<le> length (json_join (map ?p fs)) + 1"
    using length_json_join [of "map ?p fs"] by (simp add: comp_def)
  finally show ?case by simp
qed (simp_all add: json_quote_def)

lemma json_roundtrip: "json_ok j \<Longrightarrow> json_loads (json_dumps j) = Some j"
  using parse_value_dumps [of j "[]" "Suc (length (json_dumps j))"] jsz_dumps [of j]
  by (simp add: json_loads_def)

end
