(* ===== verification/Task_Json.thy ===== *)
theory Task_Json
  imports Json
begin

text \<open>
  The text of a task: what \<^verbatim>\<open>DistributedRateLimiterMixin\<close> writes, what \<^verbatim>\<open>schedule.lua\<close> makes of it and what
  a JSON reader, on the server (\<^verbatim>\<open>cjson\<close>) or in Python, gets back from it.
\<close>

section \<open>Definitions\<close>

definition get_task_signature_str :: "string \<Rightarrow> (string \<times> json) list \<Rightarrow> string" where
  "get_task_signature_str func_path payload =
     json_dumps (json_sort (JObj [(''path'', JStr func_path), (''payload'', JObj payload)]))"

definition get_task_data :: "string \<Rightarrow> string \<Rightarrow> string \<Rightarrow> (string \<times> json) list \<Rightarrow> (string \<times> json) list" where
  "get_task_data i task_id func_path payload =
     [(''id'', JStr task_id), (''func_path'', JStr func_path), (''payload'', JObj payload),
      (''inflight_key'', JStr (get_inflight_key i task_id))]"

definition get_task_data_str :: "string \<Rightarrow> string \<Rightarrow> string \<Rightarrow> (string \<times> json) list \<Rightarrow> string" where
  "get_task_data_str i task_id func_path payload = json_dumps (JObj (get_task_data i task_id func_path payload))"

text \<open>The fields that \<^verbatim>\<open>consume.lua\<close> reads of a decoded member.\<close>

definition json_num :: "json option \<Rightarrow> rat option" where
  "json_num j = (case j of Some (JInt n) \<Rightarrow> Some (of_int n) | _ \<Rightarrow> None)"

definition json_task :: cjson where
  "json_task raw = (case json_loads raw of
     Some (JObj fs) \<Rightarrow>
       (case (jget fs ''id'', jget fs ''func_path'', jget fs ''inflight_key'', jget fs ''__meta_arrived_at'') of
          (Some (JStr u), Some (JStr f), Some (JStr k), Some (JInt t)) \<Rightarrow>
            Some \<lparr>td_id = u, td_func_path = f, td_inflight_key = k, td_arrived_at = of_int t,
                  td_max_age = json_num (jget fs ''__meta_max_age''),
                  td_timeout_ms = (case jget fs ''payload'' of
                     Some (JObj ps) \<Rightarrow> json_num (jget ps ''_acquire_timeout_ms'') | _ \<Rightarrow> None)\<rparr>
        | _ \<Rightarrow> None)
   | _ \<Rightarrow> None)"

definition meta_fields :: "int \<Rightarrow> int option \<Rightarrow> (string \<times> json) list" where
  "meta_fields now ov = (''__meta_arrived_at'', JInt now) #
     (case ov of Some m \<Rightarrow> [(''__meta_max_age'', JInt m)] | None \<Rightarrow> [])"

section \<open>The injected metadata\<close>

lemma parse_member_int:
  assumes "list_all (\<lambda>c. escape c = [c]) k" "ends_token r"
  shows "parse_members (Suc (Suc n)) (CHR 0x22 # k @ CHR 0x22 # CHR '':'' # dec_int i @ r) =
    (case skip_ws r of [] \<Rightarrow> None
     | e # es \<Rightarrow> if e = CHR '','' then cons_fst (k, JInt i) (parse_members (Suc n) es)
         else if e = CHR ''}'' then Some ([(k, JInt i)], es) else None)"
proof -
  have k: "concat (map escape k) = k"
    using assms(1) by (induction k) simp_all
  let ?t = "CHR '':'' # dec_int i @ r"
  have "parse_str (Suc (length (k @ CHR 0x22 # ?t))) (k @ CHR 0x22 # ?t) = Some (k, ?t)"
    using parse_str_quoted [of k ?t] by (simp only: k)
  moreover have "parse_value (Suc n) (dec_int i @ r) = Some (JInt i, r)"
    by (rule parse_number_token [OF number_start_int dec_int_num assms(2) parse_number_int])
  ultimately show ?thesis by (simp del: parse_value.simps parse_str.simps add: is_space_def)
qed

lemma meta_keys_plain:
  "list_all (\<lambda>c. escape c = [c]) ''__meta_arrived_at''" "list_all (\<lambda>c. escape c = [c]) ''__meta_max_age''"
  by (simp_all add: escape_def)

lemma parse_meta:
  "parse_members (Suc (Suc (Suc n))) (CHR 0x22 # ''__meta_arrived_at'' @ CHR 0x22 # CHR '':'' # dec_int now
     @ (case ov of None \<Rightarrow> [] | Some m \<Rightarrow> CHR '','' # CHR 0x22 # ''__meta_max_age'' @ CHR 0x22 # CHR '':'' # dec_int m) @ ''}'')
   = Some (meta_fields now ov, [])"
  using parse_member_int [OF meta_keys_plain(1), of _ "Suc n" now]
    parse_member_int [OF meta_keys_plain(2), of "''}''" n]
  by (simp add: meta_fields_def is_space_def cons_fst_def split: option.split)

lemma parse_object:
  "t = CHR 0x22 # ds \<Longrightarrow> parse_members n (t @ u) = Some (fs, r) \<Longrightarrow>
    parse_value (Suc n) (CHR ''{'' # t @ u) = Some (JObj fs, r)"
  by (simp add: is_space_def)

lemma inject_text:
  assumes "\<bar>now\<bar> < 10 ^ 14" "\<And>m. ov = Some m \<Longrightarrow> \<bar>m\<bar> < 10 ^ 14"
  shows "inject_metadata (json_dumps (JObj fs)) (of_int now) (map_option of_int ov) =
    CHR ''{'' # json_join (map (\<lambda>f. json_quote (fst f) @ '': '' @ json_dumps (snd f)) fs)
      @ CHR '','' # CHR 0x22 # ''__meta_arrived_at'' @ CHR 0x22 # CHR '':'' # dec_int now
      @ (case ov of None \<Rightarrow> [] | Some m \<Rightarrow> CHR '','' # CHR 0x22 # ''__meta_max_age'' @ CHR 0x22 # CHR '':'' # dec_int m)
      @ ''}''"
  using assms by (cases ov) (simp_all add: inject_metadata_def Let_def butlast_append)

lemma inject_loads:
  assumes ok: "json_ok (JObj fs)" "fs \<noteq> []" and b: "\<bar>now\<bar> < 10 ^ 14" "\<And>m. ov = Some m \<Longrightarrow> \<bar>m\<bar> < 10 ^ 14"
  shows "json_loads (inject_metadata (json_dumps (JObj fs)) (of_int now) (map_option of_int ov)) =
    Some (JObj (fs @ meta_fields now ov))"
proof -
  let ?t = "json_join (map (\<lambda>f. json_quote (fst f) @ '': '' @ json_dumps (snd f)) fs)"
  let ?m = "CHR 0x22 # ''__meta_arrived_at'' @ CHR 0x22 # CHR '':'' # dec_int now
      @ (case ov of None \<Rightarrow> [] | Some m \<Rightarrow> CHR '','' # CHR 0x22 # ''__meta_max_age'' @ CHR 0x22 # CHR '':'' # dec_int m)
      @ ''}''"
  let ?s = "CHR ''{'' # ?t @ CHR '','' # ?m"
  have sz: "sum_list (map (\<lambda>f. 1 + jsz (snd f)) fs) \<le> length ?t + 1"
    using jsz_dumps [OF ok(1)] by simp
  have len: "length fs \<le> sum_list (map (\<lambda>f. 1 + jsz (snd f)) fs)"
    by (induction fs) auto
  obtain n where n: "length ?s - length fs = Suc (Suc (Suc n))"
    using sz len by (auto simp: dest: le_trans intro!: that [of "length ?s - length fs - 3"])
  have "parse_members (length ?s) (?t @ CHR '','' # ?m) = Some (fs @ meta_fields now ov, [])"
  proof (rule parse_members_dumps [OF ok(2)])
    show "CHR '','' # ?m = CHR ''}'' # [] \<and> meta_fields now ov = [] \<or>
      CHR '','' # ?m = CHR '','' # ?m \<and> parse_members (length ?s - length fs) ?m = Some (meta_fields now ov, [])"
      unfolding n using parse_meta by blast
    show "sum_list (map (\<lambda>f. 1 + jsz (snd f)) fs) \<le> length ?s" using sz by simp
  qed (use ok(1) parse_value_dumps in \<open>auto simp: list_all_iff\<close>)
  note pm = this
  obtain ds where ds: "?t = CHR 0x22 # ds"
    using ok(2) by (cases fs; cases "tl fs") (simp_all add: json_quote_def)
  have "parse_value (Suc (length ?s)) ?s = Some (JObj (fs @ meta_fields now ov), [])"
    by (rule parse_object [OF ds pm])
  moreover have "inject_metadata (json_dumps (JObj fs)) (of_int now) (map_option of_int ov) = ?s"
    by (rule inject_text [OF b])
  ultimately show ?thesis by (simp only: json_loads_def option.case prod.case skip_ws_simps simp_thms if_True)
qed

lemma json_ok_sort: "json_ok j \<Longrightarrow> json_ok (json_sort j)"
  by (induction j) (auto simp: list_all_iff snds.simps)

lemma json_dumps_inject: "json_ok j \<Longrightarrow> json_ok k \<Longrightarrow> json_dumps j = json_dumps k \<longleftrightarrow> j = k"
  by (metis json_roundtrip option.inject)

lemma insort_key_path: "sort_key fst [(''path'', a), (''payload'', b)] = [(''path'', a), (''payload'', b)]"
  by (simp add: less_eq_char_def)

lemma task_text_loads:
  assumes "json_ok (JObj payload)" "\<bar>now\<bar> < 10 ^ 14" "\<And>m. ov = Some m \<Longrightarrow> \<bar>m\<bar> < 10 ^ 14"
  shows "json_loads (inject_metadata (get_task_data_str i u fp payload) (of_int now) (map_option of_int ov)) =
    Some (JObj (get_task_data i u fp payload @ meta_fields now ov))"
  unfolding get_task_data_str_def using assms(1) by (intro inject_loads assms(2,3)) (simp_all add: get_task_data_def)

lemma json_task_fields:
  assumes "json_loads raw = Some (JObj (get_task_data i u fp payload @ meta_fields now ov))"
  shows "json_task raw = Some \<lparr>td_id = u, td_func_path = fp, td_inflight_key = get_inflight_key i u,
    td_arrived_at = of_int now, td_max_age = map_option of_int ov,
    td_timeout_ms = json_num (jget payload ''_acquire_timeout_ms'')\<rparr>"
  using assms by (cases ov) (simp_all add: json_task_def get_task_data_def meta_fields_def jget_def json_num_def)

lemma task_text_decodes:
  assumes "json_ok (JObj payload)" "\<bar>now\<bar> < 10 ^ 14" "\<And>m. ov = Some m \<Longrightarrow> \<bar>m\<bar> < 10 ^ 14"
  shows "json_task (inject_metadata (get_task_data_str i u fp payload) (of_int now) (map_option of_int ov)) =
    Some \<lparr>td_id = u, td_func_path = fp, td_inflight_key = get_inflight_key i u, td_arrived_at = of_int now,
      td_max_age = map_option of_int ov, td_timeout_ms = json_num (jget payload ''_acquire_timeout_ms'')\<rparr>"
  by (rule json_task_fields) (rule task_text_loads [OF assms])

section \<open>Properties\<close>

text \<open>\<^verbatim>\<open>json.loads\<close> inverts \<^verbatim>\<open>json.dumps\<close> on every JSON value, whatever characters its strings contain.\<close>

theorem json_loads_dumps:
  assumes "json_ok j"
  shows "json_loads (json_dumps j) = Some j"
  using parse_value_dumps [of j "[]" "Suc (length (json_dumps j))"] jsz_dumps [of j] assms
  by (simp add: json_loads_def)

theorem json_loads_dumps_witness:
  "json_loads (json_dumps (JObj [(''a'', JArr [JInt (- 5), JNull]), ([CHR 0x22], JStr [CHR 0x5C, CHR 0x0A])]))
    = Some (JObj [(''a'', JArr [JInt (- 5), JNull]), ([CHR 0x22], JStr [CHR 0x5C, CHR 0x0A])])"
  using json_loads_dumps [of "JObj [(''a'', JArr [JInt (- 5), JNull]), ([CHR 0x22], JStr [CHR 0x5C, CHR 0x0A])]"]
  by (simp del: json_dumps.simps)

text \<open>C20. The way of a task from \<^verbatim>\<open>schedule_task\<close> to \<^verbatim>\<open>consume\<close>: the text that \<^verbatim>\<open>_get_task_data_str\<close> writes, with the
  metadata \<^verbatim>\<open>schedule.lua\<close> splices into it before the closing brace, is again the text of one JSON
  object: the task's fields followed by the arrival time and the maximum age. A reader gets back
  the id, the function path, the payload (empty arrays included) and the deduplication key.\<close>

theorem task_text_roundtrip:
  assumes "json_ok (JObj payload)" "\<bar>now\<bar> < 10 ^ 14" "\<And>m. ov = Some m \<Longrightarrow> \<bar>m\<bar> < 10 ^ 14"
    and "raw = inject_metadata (get_task_data_str i u fp payload) (of_int now) (map_option of_int ov)"
  shows "json_loads raw = Some (JObj (get_task_data i u fp payload @ meta_fields now ov))
    \<and> json_task raw = Some \<lparr>td_id = u, td_func_path = fp, td_inflight_key = get_inflight_key i u,
        td_arrived_at = of_int now, td_max_age = map_option of_int ov,
        td_timeout_ms = json_num (jget payload ''_acquire_timeout_ms'')\<rparr>"
  unfolding assms(4) by (intro conjI task_text_loads task_text_decodes assms(1-3))

theorem task_text_roundtrip_witness:
  "json_task (inject_metadata (get_task_data_str ''lim'' ''t1'' ''app.work'' [(''xs'', JArr [])]) (of_int 1700000000000)
      (map_option of_int (Some 60))) =
    Some \<lparr>td_id = ''t1'', td_func_path = ''app.work'', td_inflight_key = get_inflight_key ''lim'' ''t1'',
      td_arrived_at = of_int 1700000000000, td_max_age = Some (of_int 60), td_timeout_ms = None\<rparr>"
  using task_text_roundtrip [of "[(''xs'', JArr [])]" 1700000000000 "Some 60" _ "''lim''" "''t1''" "''app.work''", OF _ _ _ refl]
  by (simp add: jget_def json_num_def)

text \<open>C21. Deduplication: two tasks have the same signature text, from which the task id is hashed, exactly when
  they have the same function path and the same payload up to the order of dictionary keys.\<close>

theorem signature_injective:
  assumes "json_ok (JObj payload)" "json_ok (JObj payload')"
  shows "get_task_signature_str fp payload = get_task_signature_str fp' payload' \<longleftrightarrow>
    fp = fp' \<and> json_sort (JObj payload) = json_sort (JObj payload')"
proof -
  let ?j = "\<lambda>f p. json_sort (JObj [(''path'', JStr f), (''payload'', JObj p)])"
  have s: "?j f p = JObj [(''path'', JStr f), (''payload'', json_sort (JObj p))]" for f p
    by (simp add: insort_key_path)
  have ok: "json_ok (?j fp payload)" "json_ok (?j fp' payload')"
    unfolding s using json_ok_sort [OF assms(1)] json_ok_sort [OF assms(2)] by simp_all
  have "get_task_signature_str fp payload = get_task_signature_str fp' payload' \<longleftrightarrow> ?j fp payload = ?j fp' payload'"
    unfolding get_task_signature_str_def using json_dumps_inject [OF ok] .
  then show ?thesis unfolding s by simp
qed

theorem signature_injective_witness:
  "get_task_signature_str ''f'' [(''b'', JInt 1), (''a'', JInt 2)] = get_task_signature_str ''f'' [(''a'', JInt 2), (''b'', JInt 1)]"
  using signature_injective [of "[(''b'', JInt 1), (''a'', JInt 2)]" "[(''a'', JInt 2), (''b'', JInt 1)]" "''f''" "''f''"]
  by simp

end
