(* ===== verification/Limiter_Config.thy ===== *)
theory Limiter_Config
  imports Sliding_Window Keys
begin

text \<open>
  Configuration and arithmetic of the Python side: \<^verbatim>\<open>AbstractRateLimiter\<close> (\<^verbatim>\<open>core/base.py\<close>) and
  \<^verbatim>\<open>DistributedRateLimiterMixin\<close> (\<^verbatim>\<open>core/limiters.py\<close>), the part without I/O that the synchronous and
  the asynchronous limiter share. The attributes of an instance are the record \<open>limiter\<close>.
\<close>

section \<open>Attributes and construction\<close>

record limiter =
  l_id :: string
  l_limit :: int
  l_window :: rat
  l_config_version :: int
  l_drain_paused_until :: rat
  l_max_concurrency :: int
  l_max_age :: int
  l_lease_duration :: int
  l_on_heartbeat_failure :: string
  l_jitter_enabled :: bool
  l_jitter_min_pct :: rat
  l_jitter_max_pct :: rat
  l_metrics_callback :: bool
  l_drain_enabled :: bool
  l_worker_id :: string
  l_consecutive_drain_failures :: nat
  l_last_refresh_at :: rat

text \<open>The keyword arguments of the constructors.\<close>

record limiter_args =
  a_limiter_id :: string
  a_limit :: int
  a_window :: rat
  a_max_concurrency :: int
  a_max_age :: int
  a_lease_duration :: int
  a_on_heartbeat_failure :: string
  a_jitter_enabled :: bool
  a_jitter_min_pct :: rat
  a_jitter_max_pct :: rat
  a_metrics_callback :: bool
  a_drain_enabled :: bool

definition default_args :: "string \<Rightarrow> int \<Rightarrow> rat \<Rightarrow> int \<Rightarrow> limiter_args" where
  "default_args limiter_id limit window max_concurrency =
     \<lparr>a_limiter_id = limiter_id, a_limit = limit, a_window = window, a_max_concurrency = max_concurrency,
      a_max_age = 3600, a_lease_duration = 30, a_on_heartbeat_failure = ''warn'', a_jitter_enabled = True,
      a_jitter_min_pct = 2 / 100, a_jitter_max_pct = 8 / 100, a_metrics_callback = False, a_drain_enabled = True\<rparr>"

text \<open>\<^verbatim>\<open>AbstractRateLimiter.__init__\<close>: the checks, then the base fields.\<close>

definition base_init :: "string \<Rightarrow> int \<Rightarrow> rat \<Rightarrow> exn + (string \<times> int \<times> rat)" where
  "base_init limiter_id limit window =
     (if limiter_id = [] then Inl ValueError
      else if limit < 0 then Inl ValueError
      else if window \<le> 0 then Inl ValueError
      else Inr (limiter_id, limit, window))"

text \<open>\<^verbatim>\<open>DistributedRateLimiterMixin.__init__\<close>, with the worker id that \<^verbatim>\<open>uuid.uuid4()\<close> returns.\<close>

definition mixin_init :: "limiter_args \<Rightarrow> string \<Rightarrow> exn + limiter" where
  "mixin_init a worker_id =
     (if a_max_concurrency a < 1 then Inl ValueError
      else if a_max_age a < 1 then Inl ValueError
      else if a_lease_duration a < 1 then Inl ValueError
      else case base_init (a_limiter_id a) (a_limit a) (a_window a) of
             Inl e \<Rightarrow> Inl e
           | Inr (i, limit, window) \<Rightarrow>
               Inr \<lparr>l_id = i, l_limit = limit, l_window = window, l_config_version = 0,
                    l_drain_paused_until = 0,
                    l_max_concurrency = a_max_concurrency a, l_max_age = a_max_age a,
                    l_lease_duration = a_lease_duration a,
                    l_on_heartbeat_failure = a_on_heartbeat_failure a,
                    l_jitter_enabled = a_jitter_enabled a, l_jitter_min_pct = a_jitter_min_pct a,
                    l_jitter_max_pct = a_jitter_max_pct a, l_metrics_callback = a_metrics_callback a,
                    l_drain_enabled = a_drain_enabled a, l_worker_id = worker_id,
                    l_consecutive_drain_failures = 0, l_last_refresh_at = 0\<rparr>)"

section \<open>Persisted configuration and overrides\<close>

text \<open>The persisted dictionary, and the dictionaries of overrides, by their fields. A field that is absent is
  \<open>None\<close>; an explicit Python \<^verbatim>\<open>None\<close> or a value of another type is outside the model.\<close>

record overrides =
  o_limit :: "int option"
  o_window :: "rat option"
  o_max_concurrency :: "int option"
  o_max_age :: "int option"
  o_lease_duration :: "int option"

definition no_overrides :: overrides where
  "no_overrides = \<lparr>o_limit = None, o_window = None, o_max_concurrency = None, o_max_age = None, o_lease_duration = None\<rparr>"

definition base_build_persist_config :: "limiter \<Rightarrow> overrides" where
  "base_build_persist_config l = no_overrides\<lparr>o_limit := Some (l_limit l), o_window := Some (l_window l)\<rparr>"

definition build_persist_config :: "limiter \<Rightarrow> overrides" where
  "build_persist_config l = (base_build_persist_config l)
     \<lparr>o_max_concurrency := Some (l_max_concurrency l), o_max_age := Some (l_max_age l),
      o_lease_duration := Some (l_lease_duration l)\<rparr>"

definition base_apply_config_overrides :: "rat \<Rightarrow> overrides \<Rightarrow> limiter \<Rightarrow> limiter" where
  "base_apply_config_overrides time ov l =
     (let l1 = (case o_window ov of
                  None \<Rightarrow> l
                | Some w \<Rightarrow> (if w \<noteq> l_window l
                    then l\<lparr>l_drain_paused_until := time + max (l_window l) w, l_window := w\<rparr> else l))
      in case o_limit ov of None \<Rightarrow> l1 | Some n \<Rightarrow> l1\<lparr>l_limit := n\<rparr>)"

definition apply_config_overrides :: "rat \<Rightarrow> overrides \<Rightarrow> limiter \<Rightarrow> limiter" where
  "apply_config_overrides time ov l =
     (let l1 = base_apply_config_overrides time ov l;
          l2 = (case o_max_concurrency ov of None \<Rightarrow> l1 | Some n \<Rightarrow> l1\<lparr>l_max_concurrency := n\<rparr>);
          l3 = (case o_max_age ov of None \<Rightarrow> l2 | Some n \<Rightarrow> l2\<lparr>l_max_age := n\<rparr>)
      in case o_lease_duration ov of None \<Rightarrow> l3 | Some n \<Rightarrow> l3\<lparr>l_lease_duration := n\<rparr>)"

section \<open>Arithmetic\<close>

definition get_inflight_ttl :: "limiter \<Rightarrow> int option \<Rightarrow> int" where
  "get_inflight_ttl l max_age_override =
     (let effective_max_age = (case max_age_override of None \<Rightarrow> l_max_age l | Some m \<Rightarrow> m)
      in \<lceil>max 1 (of_int effective_max_age) + max 1 (of_int (l_lease_duration l)) + max 1 (l_window l) :: rat\<rceil>)"

definition calculate_token_recovery_delay :: "limiter \<Rightarrow> int \<Rightarrow> int \<Rightarrow> int \<Rightarrow> rat" where
  "calculate_token_recovery_delay l val_previous val_current reset_in_ms =
     (let w = l_window l * 1000
      in if val_previous \<le> 0 \<or> l_limit l \<le> val_current then of_int reset_in_ms / 1000
         else (let time_passed_ms = w - of_int reset_in_ms;
                   t_needed_ms = w * (1 - of_int (l_limit l - val_current) / of_int val_previous);
                   wait_ms = t_needed_ms - time_passed_ms
               in if wait_ms \<le> 0 then 0 else wait_ms / 1000))"

definition load_pressure :: "int \<Rightarrow> rat" where
  "load_pressure remaining_tasks =
     (if remaining_tasks \<le> 0 then 0 else if remaining_tasks < 10 then 2 / 10
      else if remaining_tasks < 50 then 5 / 10 else if remaining_tasks < 100 then 7 / 10 else 1)"

text \<open>\<^verbatim>\<open>rnd\<close> is the value of \<^verbatim>\<open>random.random()\<close>.\<close>

definition calculate_smart_jitter :: "limiter \<Rightarrow> rat \<Rightarrow> int \<Rightarrow> int \<Rightarrow> rat" where
  "calculate_smart_jitter l rnd remaining_tasks active_concurrency =
     (if \<not> l_jitter_enabled l then 0
      else (let min_jitter = l_window l * l_jitter_min_pct l;
                max_jitter = l_window l * l_jitter_max_pct l;
                concurrency_pressure = of_int active_concurrency / of_int (max 1 (l_max_concurrency l));
                combined_pressure = load_pressure remaining_tasks * (7 / 10) + concurrency_pressure * (3 / 10);
                jitter_scale = 3 / 10 + combined_pressure * (7 / 10);
                jitter_range_size = (max_jitter - min_jitter) * jitter_scale
            in py_round3 (min_jitter + jitter_range_size * rnd)))"

definition token_interval :: "limiter \<Rightarrow> rat" where
  "token_interval l = (if 0 < l_limit l then l_window l / of_int (l_limit l) else l_window l)"

definition watchdog_interval :: "limiter \<Rightarrow> rat" where
  "watchdog_interval l = max 5 (l_window l * 2)"

text \<open>The backoff of \<^verbatim>\<open>drain()\<close> after the given number of consecutive failures; \<^verbatim>\<open>2 ** n\<close> is an exact integer
  whose product with the float 0.1 overflows when it no longer fits a double.\<close>

definition backoff_delay :: "limiter \<Rightarrow> nat \<Rightarrow> exn + rat" where
  "backoff_delay l failures =
     (if 1024 < failures then Inl OverflowError
      else Inr (min (l_window l) (1 / 10 * 2 ^ (failures - 1))))"

end
