(* ===== verification/Drain_Loop.thy ===== *)
theory Drain_Loop
  imports Limiter_Config
begin

text \<open>
  The background loop that runs \<^verbatim>\<open>drain()\<close>: \<^verbatim>\<open>DrainLoop\<close> (a thread) and \<^verbatim>\<open>AsyncDrainLoop\<close> (a task). The state is
  the record \<open>drain_loop\<close>; one iteration of \<^verbatim>\<open>_run\<close> up to its next wait or drain is \<open>loop_check\<close>. The
  second half puts the loop into its environment as a step relation: other threads call \<^verbatim>\<open>wake\<close> and
  \<^verbatim>\<open>shutdown\<close>, time passes, and a sleeping thread wakes on a notification or at its timeout.
\<close>

section \<open>State and operations\<close>

record drain_loop =
  dl_next_wake :: "rat option"
  dl_shutdown :: bool
  dl_watchdog :: rat
  dl_alive :: bool  \<comment> \<open>the thread or task exists and has not ended\<close>
  dl_pending :: "rat list"  \<comment> \<open>targets of \<^verbatim>\<open>_wake_async\<close> coroutines that have not run yet\<close>

definition drain_loop_init :: "rat \<Rightarrow> drain_loop" where
  "drain_loop_init watchdog = \<lparr>dl_next_wake = None, dl_shutdown = False, dl_watchdog = watchdog,
     dl_alive = False, dl_pending = []\<rparr>"

definition loop_ensure_started :: "drain_loop \<Rightarrow> drain_loop" where
  "loop_ensure_started l = (if dl_alive l then l else l\<lparr>dl_alive := True\<rparr>)"

text \<open>\<^verbatim>\<open>wake\<close>: the second component says whether the condition is notified.\<close>

definition loop_request :: "rat \<Rightarrow> drain_loop \<Rightarrow> drain_loop \<times> bool" where
  "loop_request target l =
     (case dl_next_wake l of
        None \<Rightarrow> (l\<lparr>dl_next_wake := Some target\<rparr>, True)
      | Some t \<Rightarrow> (if target < t then (l\<lparr>dl_next_wake := Some target\<rparr>, True) else (l, False)))"

definition loop_wake :: "rat \<Rightarrow> rat \<Rightarrow> drain_loop \<Rightarrow> drain_loop \<times> bool" where
  "loop_wake clk delay l = loop_request (clk + delay) (loop_ensure_started l)"

definition loop_shutdown :: "drain_loop \<Rightarrow> drain_loop" where
  "loop_shutdown l = l\<lparr>dl_shutdown := True\<rparr>"

datatype loop_action = LExit | LIdle rat | LWait rat | LDrain

definition loop_check :: "rat \<Rightarrow> drain_loop \<Rightarrow> loop_action \<times> drain_loop" where
  "loop_check clk l =
     (if dl_shutdown l then (LExit, l\<lparr>dl_alive := False\<rparr>)
      else case dl_next_wake l of
             None \<Rightarrow> (LIdle (dl_watchdog l), l)
           | Some t \<Rightarrow> (let remaining = t - clk
               in if 0 < remaining then (LWait remaining, l) else (LDrain, l\<lparr>dl_next_wake := None\<rparr>)))"

text \<open>After the idle wait: a wake that arrived during it sends the loop back, otherwise it drains.\<close>

definition loop_after_idle :: "drain_loop \<Rightarrow> bool \<times> drain_loop" where
  "loop_after_idle l = (if dl_next_wake l \<noteq> None then (False, l) else (True, l\<lparr>dl_next_wake := None\<rparr>))"

text \<open>\<^verbatim>\<open>AsyncDrainLoop.wake\<close> only schedules a coroutine; \<^verbatim>\<open>_wake_async\<close> does the work later and, unlike the thread,
  starts nothing after a shutdown.\<close>

definition async_loop_wake :: "rat \<Rightarrow> rat \<Rightarrow> drain_loop \<Rightarrow> drain_loop" where
  "async_loop_wake clk delay l = l\<lparr>dl_pending := dl_pending l @ [clk + delay]\<rparr>"

definition async_loop_ensure_started :: "drain_loop \<Rightarrow> drain_loop" where
  "async_loop_ensure_started l = (if dl_alive l then l else l\<lparr>dl_alive := True\<rparr>)"

definition loop_wake_async :: "rat \<Rightarrow> drain_loop \<Rightarrow> drain_loop \<times> bool" where
  "loop_wake_async target l =
     (let l1 = (if \<not> dl_shutdown l then async_loop_ensure_started l else l)
      in case dl_next_wake l1 of
           None \<Rightarrow> (l1\<lparr>dl_next_wake := Some target\<rparr>, True)
         | Some t \<Rightarrow> (if target < t then (l1\<lparr>dl_next_wake := Some target\<rparr>, True) else (l1, False)))"

definition async_loop_shutdown :: "drain_loop \<Rightarrow> drain_loop" where
  "async_loop_shutdown l = l\<lparr>dl_shutdown := True\<rparr>"

definition async_loop_check :: "rat \<Rightarrow> drain_loop \<Rightarrow> loop_action \<times> drain_loop" where
  "async_loop_check clk l =
     (if dl_shutdown l then (LExit, l\<lparr>dl_alive := False\<rparr>)
      else case dl_next_wake l of
             None \<Rightarrow> (LIdle (dl_watchdog l), l)
           | Some t \<Rightarrow> (let remaining = t - clk
               in if 0 < remaining then (LWait remaining, l) else (LDrain, l\<lparr>dl_next_wake := None\<rparr>)))"

text \<open>The event loop runs the pending coroutines in the order they were created.\<close>

fun flush_wakes :: "rat list \<Rightarrow> drain_loop \<Rightarrow> drain_loop" where
  "flush_wakes [] l = l"
| "flush_wakes (t # ts) l = flush_wakes ts (fst (loop_wake_async t l))"

section \<open>The loop in its environment\<close>

datatype phase = Ready | Idle rat | Waiting rat | Draining | Stopped

text \<open>A notification ends a wait; the loop then looks at its state again.\<close>

definition notified :: "bool \<Rightarrow> phase \<Rightarrow> phase" where
  "notified n ph = (if n then (case ph of Idle _ \<Rightarrow> Ready | Waiting _ \<Rightarrow> Ready | _ \<Rightarrow> ph) else ph)"

text \<open>A wake starts a thread when there is none.\<close>

definition restarted :: "drain_loop \<Rightarrow> phase \<Rightarrow> phase" where
  "restarted l ph = (if dl_alive l then ph else Ready)"

definition deadline_ok :: "phase \<Rightarrow> rat \<Rightarrow> bool" where
  "deadline_ok ph now = (case ph of Idle d \<Rightarrow> now \<le> d | Waiting d \<Rightarrow> now \<le> d | _ \<Rightarrow> True)"

definition act :: "rat \<Rightarrow> loop_action \<Rightarrow> phase" where
  "act now a = (case a of LExit \<Rightarrow> Stopped | LIdle t \<Rightarrow> Idle (now + t) | LWait t \<Rightarrow> Waiting (now + t) | LDrain \<Rightarrow> Draining)"

text \<open>What the thread itself does next, from each phase: it looks at its state, its wait times out, or its
  drain returns.\<close>

inductive loop_turn :: "rat \<times> drain_loop \<times> phase \<Rightarrow> rat \<times> drain_loop \<times> phase \<Rightarrow> bool" where
  turn_check: "loop_check now l = (a, l') \<Longrightarrow> loop_turn (now, l, Ready) (now, l', act now a)"
| turn_idle_end: "d \<le> now \<Longrightarrow> loop_after_idle l = (dr, l') \<Longrightarrow>
    loop_turn (now, l, Idle d) (now, l', if dr then Draining else Ready)"
| turn_wait_end: "d \<le> now \<Longrightarrow> loop_turn (now, l, Waiting d) (now, l, Ready)"
| turn_drained: "loop_turn (now, l, Draining) (now, l, Ready)"

inductive_cases loop_turnE: "loop_turn (now, l, ph) y"

text \<open>What the others do: call \<^verbatim>\<open>wake\<close>, or let time pass. A timeout is honoured: time does not run past the
  deadline of a sleeping thread.\<close>

inductive loop_env :: "rat \<times> drain_loop \<times> phase \<Rightarrow> rat \<times> drain_loop \<times> phase \<Rightarrow> bool" where
  env_wake: "0 \<le> delay \<Longrightarrow> loop_wake now delay l = (l', n) \<Longrightarrow>
    loop_env (now, l, ph) (now, l', notified n (restarted l ph))"
| env_tick: "now \<le> now' \<Longrightarrow> deadline_ok ph now' \<Longrightarrow> loop_env (now, l, ph) (now', l, ph)"

inductive_cases loop_envE: "loop_env (now, l, ph) y"

text \<open>A shutdown notifies the thread; an idle one then drains once more before it looks at the flag.\<close>

inductive loop_step :: "rat \<times> drain_loop \<times> phase \<Rightarrow> rat \<times> drain_loop \<times> phase \<Rightarrow> bool" where
  step_turn: "loop_turn x y \<Longrightarrow> loop_step x y"
| step_env: "loop_env x y \<Longrightarrow> loop_step x y"
| step_shutdown: "loop_step (now, l, Idle d) (now, loop_shutdown l, if dl_next_wake l = None then Draining else Ready)"
| step_shutdown': "(\<And>d. ph \<noteq> Idle d) \<Longrightarrow> loop_step (now, l, ph) (now, loop_shutdown l, notified True ph)"

text \<open>Executions without a shutdown in which no turn of the thread starts a drain, counted by the turns of the
  thread.\<close>

inductive undrained :: "rat \<times> drain_loop \<times> phase \<Rightarrow> nat \<Rightarrow> rat \<times> drain_loop \<times> phase \<Rightarrow> bool" for x where
  und_refl: "undrained x 0 x"
| und_turn: "undrained x n y \<Longrightarrow> loop_turn y (now, l, ph) \<Longrightarrow> ph \<noteq> Draining \<Longrightarrow> undrained x (Suc n) (now, l, ph)"
| und_env: "undrained x n y \<Longrightarrow> loop_env y z \<Longrightarrow> undrained x n z"

inductive loop_reachable :: "rat \<Rightarrow> rat \<times> drain_loop \<times> phase \<Rightarrow> bool" for watchdog where
  loop_start: "loop_reachable watchdog (now, drain_loop_init watchdog, Stopped)"
| loop_more: "loop_reachable watchdog x \<Longrightarrow> loop_step x y \<Longrightarrow> loop_reachable watchdog y"

definition loop_inv :: "rat \<times> drain_loop \<times> phase \<Rightarrow> bool" where
  "loop_inv x = (case x of (now, l, ph) \<Rightarrow> deadline_ok ph now \<and>
     (dl_alive l \<longleftrightarrow> ph \<noteq> Stopped) \<and> 0 < dl_watchdog l \<and>
     (case ph of Idle d \<Rightarrow> dl_next_wake l = None \<and> d \<le> now + dl_watchdog l
      | Waiting d \<Rightarrow> dl_next_wake l = Some d
      | Stopped \<Rightarrow> dl_next_wake l = None \<or> dl_shutdown l | _ \<Rightarrow> True))"

lemmas loop_wake_defs = loop_wake_def loop_request_def loop_ensure_started_def restarted_def notified_def

lemma loop_inv_turn: "loop_turn x y \<Longrightarrow> loop_inv x \<Longrightarrow> loop_inv y"
proof (induction rule: loop_turn.induct)
  case (turn_check now l a l')
  then show ?case
    by (auto simp: loop_check_def loop_inv_def act_def deadline_ok_def Let_def split: if_splits option.splits)
qed (auto simp: loop_inv_def deadline_ok_def loop_after_idle_def split: if_splits)

lemma loop_inv_env: "loop_env x y \<Longrightarrow> loop_inv x \<Longrightarrow> loop_inv y"
proof (induction rule: loop_env.induct)
  case (env_wake delay now l l' n ph)
  then show ?case
    by (auto simp: loop_inv_def loop_wake_defs deadline_ok_def split: option.splits if_splits phase.splits)
qed (auto simp: loop_inv_def split: phase.splits)

lemma loop_inv_step: "loop_step x y \<Longrightarrow> loop_inv x \<Longrightarrow> loop_inv y"
proof (induction rule: loop_step.induct)
  case (step_turn x y)
  then show ?case by (blast intro: loop_inv_turn)
next
  case (step_env x y)
  then show ?case by (blast intro: loop_inv_env)
qed (auto simp: loop_inv_def deadline_ok_def loop_shutdown_def notified_def split: phase.splits if_splits)

lemma loop_inv_reachable:
  assumes "0 < watchdog" "loop_reachable watchdog x"
  shows "loop_inv x"
  using assms(2)
proof induction
  case (loop_start now)
  then show ?case using assms(1) by (simp add: loop_inv_def drain_loop_init_def deadline_ok_def)
next
  case (loop_more x y)
  then show ?case by (blast intro: loop_inv_step)
qed

subsection \<open>A pending request\<close>

text \<open>The loop owes a drain: it is not shut down and a request for time \<open>t\<close> or earlier is pending.\<close>

definition owes :: "rat \<Rightarrow> rat \<times> drain_loop \<times> phase \<Rightarrow> bool" where
  "owes t x = (case x of (now, l, ph) \<Rightarrow> loop_inv x \<and> \<not> dl_shutdown l \<and> (\<exists>t'\<le>t. dl_next_wake l = Some t'))"

lemma owes_turn:
  assumes "loop_turn x (now, l, ph)" "owes t x" "ph \<noteq> Draining"
  shows "owes t (now, l, ph)"
  using assms loop_inv_turn [OF assms(1)]
  by (cases rule: loop_turn.cases)
    (auto simp: owes_def loop_check_def loop_after_idle_def act_def Let_def split: if_splits option.splits)

lemma owes_env:
  assumes "loop_env x y" "owes t x"
  shows "owes t y"
  using assms loop_inv_env [OF assms(1)]
proof (cases rule: loop_env.cases)
  case (env_wake delay now l l' n ph)
  then show ?thesis
    using assms(2) loop_inv_env [OF assms(1)]
    by (auto simp: owes_def loop_wake_def loop_request_def loop_ensure_started_def split: option.splits if_splits)
qed (auto simp: owes_def)

text \<open>While the request is not served it stays pending, and the thread lives. Once it is due the thread
  needs at most one turn before the one that starts the drain.\<close>

lemma undrained_owes: "undrained x n y \<Longrightarrow> owes t x \<Longrightarrow> owes t y"
proof (induction rule: undrained.induct)
  case (und_turn n y now l ph)
  then show ?case by (blast intro: owes_turn)
next
  case (und_env n y z)
  then show ?case by (blast intro: owes_env)
qed

lemma due_turn:
  assumes "owes t (now, l, ph)" "t \<le> now" "loop_turn (now, l, ph) (now', l', ph')" "ph' \<noteq> Draining"
  shows "ph' = Ready \<and> ph \<noteq> Ready"
  using assms(3,1,2,4)
  by (cases rule: loop_turn.cases) (auto simp: owes_def loop_inv_def loop_check_def act_def Let_def split: if_splits)

lemma undrained_due:
  assumes "undrained x n y" "owes t x" "t \<le> fst x"
  shows "n \<le> 1 \<and> t \<le> fst y \<and> (n = 1 \<longrightarrow> snd (snd y) = Ready)"
  using assms
proof (induction rule: undrained.induct)
  case (und_turn n y now l ph)
  obtain ny ly py where y: "y = (ny, ly, py)" by (cases y)
  have "owes t y" by (rule undrained_owes [OF und_turn.hyps(1) und_turn.prems(1)])
  moreover have "t \<le> ny" "n = 1 \<longrightarrow> py = Ready" "n \<le> 1" using und_turn y by auto
  ultimately have "ph = Ready \<and> py \<noteq> Ready" "ny = now"
    using due_turn [of t ny ly py now l ph] und_turn.hyps(2,3) y by (auto elim: loop_turnE)
  then show ?case using \<open>n = 1 \<longrightarrow> py = Ready\<close> \<open>n \<le> 1\<close> \<open>t \<le> ny\<close> by auto
next
  case (und_env n y z)
  have "owes t y" by (rule undrained_owes [OF und_env.hyps(1) und_env.prems(1)])
  with und_env.hyps(2) have "snd (snd y) = Ready \<longrightarrow> snd (snd z) = Ready"
    by (cases rule: loop_env.cases) (auto simp: owes_def loop_inv_def restarted_def notified_def)
  moreover have "fst y \<le> fst z" using und_env.hyps(2) by (cases rule: loop_env.cases) auto
  ultimately show ?case using und_env by auto
qed simp

lemma owes_turn_enabled:
  assumes "owes t (now, l, ph)" "t \<le> now"
  shows "\<exists>y. loop_turn (now, l, ph) y"
proof (cases ph)
  case (Idle d)
  then show ?thesis using assms by (auto simp: owes_def loop_inv_def)
next
  case (Waiting d)
  then have "d \<le> now" using assms by (auto simp: owes_def loop_inv_def)
  then show ?thesis using Waiting turn_wait_end by blast
next
  case Stopped
  then show ?thesis using assms by (auto simp: owes_def loop_inv_def)
qed (metis turn_check turn_drained surj_pair)+

section \<open>Properties\<close>

text \<open>C14. No wake request is missed. In every reachable state of a loop that is not shut down, a call of \<^verbatim>\<open>wake\<close>
  leaves a running thread and a pending request no later than the one asked for (requests are
  coalesced to the earliest), and a request pending for time \<open>t\<close> is served. First, as long as no turn
  of the thread has started a drain, a request for \<open>t\<close> or earlier stays pending, whatever wakes, time
  and turns come between; in particular a wake that arrives during a drain is not lost. Second, once
  \<open>t\<close> is past, the thread can always take a turn and every execution has at most one turn of the thread
  before the turn that starts a drain: the thread is not asleep beyond \<open>t\<close>. Third, with a request
  pending, a turn starts a drain only when it is due. Without a request an idle thread sleeps at most one
  watchdog interval, and its timeout starts a drain. The thread is gone exactly when the loop has
  stopped. That a live thread is scheduled, and that a timed wait ends, is the platform's part.\<close>

theorem drain_loop_no_missed_wake:
  assumes "0 < watchdog" "loop_reachable watchdog (now, l, ph)" "loop_wake now delay l = (l', n)"
  shows "dl_alive l' \<and> dl_next_wake l' =
        Some (case dl_next_wake l of None \<Rightarrow> now + delay | Some t \<Rightarrow> min t (now + delay))
    \<and> (\<forall>t. dl_next_wake l = Some t \<longrightarrow> \<not> dl_shutdown l \<longrightarrow>
        (\<forall>m now2 l2 ph2. undrained (now, l, ph) m (now2, l2, ph2) \<longrightarrow>
           dl_alive l2 \<and> (\<exists>t'\<le>t. dl_next_wake l2 = Some t')
           \<and> (t \<le> now \<longrightarrow> m \<le> 1 \<and> (\<exists>y. loop_turn (now2, l2, ph2) y)))
        \<and> (\<forall>y. loop_turn (now, l, ph) y \<longrightarrow> snd (snd y) = Draining \<longrightarrow> t \<le> now))
    \<and> (\<forall>t d. dl_next_wake l = Some t \<longrightarrow> ph = Idle d \<or> ph = Waiting d \<longrightarrow> now \<le> t)
    \<and> (\<forall>d. ph = Idle d \<longrightarrow> dl_next_wake l = None \<and> d \<le> now + dl_watchdog l
        \<and> (\<forall>y. loop_turn (now, l, ph) y \<longrightarrow> snd (snd y) = Draining))
    \<and> (ph = Stopped \<longleftrightarrow> \<not> dl_alive l)"
proof -
  have inv: "loop_inv (now, l, ph)" by (rule loop_inv_reachable [OF assms(1,2)])
  have wake: "dl_alive l' \<and> dl_next_wake l' =
        Some (case dl_next_wake l of None \<Rightarrow> now + delay | Some t \<Rightarrow> min t (now + delay))"
    using assms(3) by (auto simp: loop_wake_def loop_request_def loop_ensure_started_def split: option.splits if_splits)
  have served: "dl_alive l2 \<and> (\<exists>t'\<le>t. dl_next_wake l2 = Some t')
        \<and> (t \<le> now \<longrightarrow> m \<le> 1 \<and> (\<exists>y. loop_turn (now2, l2, ph2) y))"
    if "dl_next_wake l = Some t" "\<not> dl_shutdown l" "undrained (now, l, ph) m (now2, l2, ph2)" for t m now2 l2 ph2
  proof -
    have o: "owes t (now, l, ph)" using inv that(1,2) by (simp add: owes_def)
    have o2: "owes t (now2, l2, ph2)" by (rule undrained_owes [OF that(3) o])
    then have "dl_alive l2 \<and> (\<exists>t'\<le>t. dl_next_wake l2 = Some t')" by (auto simp: owes_def loop_inv_def)
    then show ?thesis using undrained_due [OF that(3) o] owes_turn_enabled [OF o2] by simp
  qed
  have early: "t \<le> now" if "dl_next_wake l = Some t" "loop_turn (now, l, ph) y" "snd (snd y) = Draining" for t y
    using that(2,1,3) inv
    by (cases rule: loop_turn.cases)
      (auto simp: loop_check_def loop_after_idle_def loop_inv_def act_def Let_def split: if_splits)
  have idle: "snd (snd y) = Draining" if "ph = Idle d" "loop_turn (now, l, ph) y" for d y
    using that(2,1) inv by (cases rule: loop_turn.cases) (auto simp: loop_after_idle_def loop_inv_def)
  show ?thesis using wake served early idle inv by (auto simp: loop_inv_def deadline_ok_def)
qed

text \<open>A request for 13 is overtaken by one for 10, which the next turn of the thread serves.\<close>

theorem drain_loop_no_missed_wake_witness:
  "dl_next_wake (fst (loop_wake 10 0 (fst (loop_wake 10 3 (drain_loop_init 5))))) = Some 10
   \<and> (\<forall>m y. \<not> undrained (13, fst (loop_wake 10 3 (drain_loop_init 5)), Ready) (Suc (Suc m)) y)"
proof -
  let ?l = "fst (loop_wake 10 3 (drain_loop_init 5))"
  have w: "loop_wake 10 3 (drain_loop_init 5) = (?l, True)" and nw: "dl_next_wake ?l = Some 13" "\<not> dl_shutdown ?l"
    by (simp_all add: loop_wake_def loop_request_def loop_ensure_started_def drain_loop_init_def)
  have "loop_reachable 5 (10, ?l, notified True (restarted (drain_loop_init 5) Stopped))"
    by (rule loop_more [OF loop_start step_env [OF env_wake [OF _ w]]]) simp
  moreover have "notified True (restarted (drain_loop_init 5) Stopped) = Ready"
    by (simp add: notified_def restarted_def drain_loop_init_def)
  ultimately have r: "loop_reachable 5 (10, ?l, Ready)" by simp
  then have r13: "loop_reachable 5 (13, ?l, Ready)"
    by (rule loop_more) (rule step_env, rule env_tick, simp_all add: deadline_ok_def)
  have "\<not> undrained (13, ?l, Ready) (Suc (Suc m)) y" for m y
    using drain_loop_no_missed_wake [OF _ r13, of 0 "fst (loop_wake 13 0 ?l)" "snd (loop_wake 13 0 ?l)"] nw
    by (cases y) fastforce
  then show ?thesis
    using drain_loop_no_missed_wake [OF _ r, of 0 "fst (loop_wake 10 0 ?l)" "snd (loop_wake 10 0 ?l)"] nw by simp
qed

text \<open>The asynchronous loop is the threaded one with deferred wakes: before a shutdown, running the pending
  coroutines of any sequence of \<^verbatim>\<open>wake\<close> calls leaves the loop as the threaded loop is after the same calls.
  After a shutdown they differ: the threaded loop is started again, the asynchronous one is not.\<close>

theorem async_wakes_refine:
  "(\<not> dl_shutdown l \<longrightarrow> flush_wakes (map (\<lambda>(m, d). m + d) ws) l = fold (\<lambda>(m, d) x. fst (loop_wake m d x)) ws l)
   \<and> (dl_shutdown l \<longrightarrow> \<not> dl_alive l \<longrightarrow>
       \<not> dl_alive (fst (loop_wake_async t l)) \<and> dl_alive (fst (loop_wake t 0 l)))"
proof -
  have one: "fst (loop_wake_async (m + d) x) = fst (loop_wake m d x) \<and> \<not> dl_shutdown (fst (loop_wake m d x))"
    if "\<not> dl_shutdown x" for m d x
    using that by (simp add: loop_wake_async_def loop_wake_def loop_request_def loop_ensure_started_def
        async_loop_ensure_started_def Let_def split: option.split)
  have "\<not> dl_shutdown l \<longrightarrow> flush_wakes (map (\<lambda>(m, d). m + d) ws) l = fold (\<lambda>(m, d) x. fst (loop_wake m d x)) ws l"
    by (induction ws arbitrary: l) (auto simp: one)
  moreover have "dl_shutdown l \<longrightarrow> \<not> dl_alive l \<longrightarrow>
       \<not> dl_alive (fst (loop_wake_async t l)) \<and> dl_alive (fst (loop_wake t 0 l))"
    by (simp add: loop_wake_async_def loop_wake_def loop_request_def loop_ensure_started_def Let_def split: option.split)
  ultimately show ?thesis by blast
qed

theorem async_wakes_refine_witness:
  "flush_wakes [5, 3] (drain_loop_init 5) = fst (loop_wake 2 1 (fst (loop_wake 2 3 (drain_loop_init 5))))"
  using async_wakes_refine [of "drain_loop_init 5" "[(2, 3), (2, 1)]"]
  by (simp add: drain_loop_init_def)

end
