(* ===== verification/Heartbeat.thy ===== *)
theory Heartbeat
  imports Limiter_Config
begin

text \<open>
  Lease renewal: \<^verbatim>\<open>HeartbeatScheduler\<close> (one thread per limiter) and \<^verbatim>\<open>AsyncHeartbeatScheduler\<close> (one task). The
  heap of \<^verbatim>\<open>heapq\<close> is kept as the sorted list of its tuples, of which \<^verbatim>\<open>heappop\<close> takes the least. A tuple
  whose generation is not the entry's is stale and dropped when popped.
\<close>

section \<open>State and operations\<close>

record hb_entry =
  he_task_id :: string
  he_on_failure_action :: string
  he_is_healthy :: bool
  he_generation :: nat
  he_object :: nat  \<comment> \<open>the identity of the Python object\<close>

record heartbeat =
  hb_interval :: rat
  hb_entries :: "string \<rightharpoonup> hb_entry"
  hb_heap :: "(rat \<times> string \<times> nat) list"
  hb_shutdown :: bool
  hb_alive :: bool
  hb_objects :: nat  \<comment> \<open>entries created so far\<close>
  hb_detached :: "nat \<rightharpoonup> hb_entry"  \<comment> \<open>entries that have left the dictionary, which a lifecycle may still hold\<close>

definition heartbeat_init :: "limiter \<Rightarrow> heartbeat" where
  "heartbeat_init l = \<lparr>hb_interval = of_int (l_lease_duration l) / 2, hb_entries = Map.empty, hb_heap = [],
     hb_shutdown = False, hb_alive = False, hb_objects = 0, hb_detached = Map.empty\<rparr>"

definition hb_ensure_started :: "heartbeat \<Rightarrow> heartbeat" where
  "hb_ensure_started h = (if hb_alive h then h else h\<lparr>hb_shutdown := False, hb_alive := True\<rparr>)"

definition hb_push :: "rat \<Rightarrow> string \<Rightarrow> nat \<Rightarrow> heartbeat \<Rightarrow> heartbeat" where
  "hb_push due u g h = h\<lparr>hb_heap := insort (due, u, g) (hb_heap h)\<rparr>"

text \<open>The entry of a task leaves the dictionary, by deregistration or because another one takes its place.\<close>

definition hb_detach :: "string \<Rightarrow> heartbeat \<Rightarrow> heartbeat" where
  "hb_detach task_id h = (case hb_entries h task_id of
     None \<Rightarrow> h
   | Some e \<Rightarrow> h\<lparr>hb_entries := (hb_entries h)(task_id := None), hb_detached := (hb_detached h)(he_object e \<mapsto> e)\<rparr>)"

definition hb_register :: "rat \<Rightarrow> string \<Rightarrow> string \<Rightarrow> heartbeat \<Rightarrow> hb_entry \<times> heartbeat" where
  "hb_register clk task_id on_failure_action h =
     (let entry = \<lparr>he_task_id = task_id, he_on_failure_action = on_failure_action, he_is_healthy = True, he_generation = 0,
              he_object = hb_objects h\<rparr>;
          h1 = (hb_detach task_id h)\<lparr>hb_entries := (hb_entries h)(task_id \<mapsto> entry), hb_objects := hb_objects h + 1\<rparr>
      in (entry, if task_id \<noteq> []
                 then hb_ensure_started (hb_push (clk + hb_interval h) task_id (he_generation entry) h1) else h1))"

definition hb_deregister :: "string \<Rightarrow> heartbeat \<Rightarrow> heartbeat" where
  "hb_deregister task_id h = hb_detach task_id h"

definition hb_get_entry :: "string \<Rightarrow> heartbeat \<Rightarrow> hb_entry option" where
  "hb_get_entry task_id h = hb_entries h task_id"

text \<open>The object that a reference to an entry denotes: the one in the dictionary if it is the same object, otherwise a detached one.\<close>

definition hb_object :: "heartbeat \<Rightarrow> hb_entry \<Rightarrow> hb_entry" where
  "hb_object h e = (case hb_entries h (he_task_id e) of
     Some e' \<Rightarrow> if he_object e' = he_object e then e' else (case hb_detached h (he_object e) of Some d \<Rightarrow> d | None \<Rightarrow> e)
   | None \<Rightarrow> (case hb_detached h (he_object e) of Some d \<Rightarrow> d | None \<Rightarrow> e))"

definition hb_stop :: "heartbeat \<Rightarrow> heartbeat" where
  "hb_stop h = h\<lparr>hb_shutdown := True\<rparr>"

datatype hb_action = HExit | HWait rat | HSkip | HRenew string string

text \<open>The locked first part of an iteration of \<^verbatim>\<open>_run\<close>.\<close>

definition hb_check :: "rat \<Rightarrow> heartbeat \<Rightarrow> hb_action \<times> heartbeat" where
  "hb_check clk h =
     (if hb_shutdown h then (HExit, h\<lparr>hb_alive := False\<rparr>)
      else case hb_heap h of
             [] \<Rightarrow> (HWait (hb_interval h), h)
           | (due, task_id, generation) # rest \<Rightarrow>
               if clk < due then (HWait (due - clk), h)
               else (let h1 = h\<lparr>hb_heap := rest\<rparr>
                     in case hb_entries h task_id of
                          None \<Rightarrow> (HSkip, h1)
                        | Some e \<Rightarrow> if he_generation e \<noteq> generation then (HSkip, h1)
                                    else (HRenew (he_task_id e) (he_on_failure_action e), h1)))"

text \<open>The locked last part, after the renewal.\<close>

definition hb_reschedule :: "rat \<Rightarrow> string \<Rightarrow> heartbeat \<Rightarrow> heartbeat" where
  "hb_reschedule clk task_id h = (case hb_entries h task_id of
     None \<Rightarrow> h
   | Some e \<Rightarrow> (let e1 = e\<lparr>he_generation := he_generation e + 1\<rparr>
        in hb_push (clk + hb_interval h) task_id (he_generation e1)
             (h\<lparr>hb_entries := (hb_entries h)(task_id \<mapsto> e1)\<rparr>)))"

definition hb_set_health :: "string \<Rightarrow> bool \<Rightarrow> heartbeat \<Rightarrow> heartbeat" where
  "hb_set_health task_id b h = (case hb_entries h task_id of
     None \<Rightarrow> h | Some e \<Rightarrow> h\<lparr>hb_entries := (hb_entries h)(task_id \<mapsto> e\<lparr>he_is_healthy := b\<rparr>)\<rparr>)"

text \<open>An assignment to \<^verbatim>\<open>is_healthy\<close> of the object that \<open>e\<close> refers to.\<close>

definition hb_assign :: "bool \<Rightarrow> hb_entry \<Rightarrow> heartbeat \<Rightarrow> heartbeat" where
  "hb_assign b e h = (let d = (hb_object h e)\<lparr>he_is_healthy := b\<rparr> in case hb_entries h (he_task_id e) of
     Some e' \<Rightarrow> if he_object e' = he_object e then h\<lparr>hb_entries := (hb_entries h)(he_task_id e \<mapsto> d)\<rparr>
       else h\<lparr>hb_detached := (hb_detached h)(he_object e \<mapsto> d)\<rparr>
   | None \<Rightarrow> h\<lparr>hb_detached := (hb_detached h)(he_object e \<mapsto> d)\<rparr>)"

datatype renew_outcome = RDone | RKill | RRaise exn

text \<open>\<^verbatim>\<open>_renew_one\<close>, given what \<^verbatim>\<open>extend_lease\<close> did: only Redis errors are handled.\<close>

definition hb_renew_one :: "exn + unit \<Rightarrow> string \<Rightarrow> string \<Rightarrow> heartbeat \<Rightarrow> renew_outcome \<times> heartbeat" where
  "hb_renew_one res task_id on_failure_action h =
     (case res of
        Inl e \<Rightarrow> (if is_redis_error e
           then (if on_failure_action = ''kill'' then RKill else RDone, hb_set_health task_id False h)
           else (RRaise e, h))
      | Inr _ \<Rightarrow> (RDone, hb_set_health task_id True h))"

text \<open>\<^verbatim>\<open>AsyncHeartbeatScheduler\<close>: the same operations under an \<^verbatim>\<open>asyncio.Lock\<close>; the iteration takes the lock twice, to decide
  whether to wait and, after a re-check, to take the tuple off the heap.\<close>

definition async_hb_register :: "rat \<Rightarrow> string \<Rightarrow> string \<Rightarrow> heartbeat \<Rightarrow> hb_entry \<times> heartbeat" where
  "async_hb_register clk task_id on_failure_action h =
     (let entry = \<lparr>he_task_id = task_id, he_on_failure_action = on_failure_action, he_is_healthy = True, he_generation = 0,
              he_object = hb_objects h\<rparr>;
          h1 = (hb_detach task_id h)\<lparr>hb_entries := (hb_entries h)(task_id \<mapsto> entry), hb_objects := hb_objects h + 1\<rparr>
      in (entry, if task_id \<noteq> []
                 then hb_ensure_started (hb_push (clk + hb_interval h) task_id (he_generation entry) h1) else h1))"

definition async_hb_deregister :: "string \<Rightarrow> heartbeat \<Rightarrow> heartbeat" where
  "async_hb_deregister task_id h = hb_detach task_id h"

datatype async_peek = APExit | APWait rat | APGo

definition async_hb_peek :: "rat \<Rightarrow> heartbeat \<Rightarrow> async_peek" where
  "async_hb_peek clk h =
     (if hb_shutdown h then APExit
      else case hb_heap h of
             [] \<Rightarrow> APWait (hb_interval h)
           | (due, _, _) # _ \<Rightarrow> if clk < due then APWait (due - clk) else APGo)"

definition async_hb_pop :: "rat \<Rightarrow> heartbeat \<Rightarrow> hb_action \<times> heartbeat" where
  "async_hb_pop clk h = (case hb_heap h of
     [] \<Rightarrow> (HSkip, h)
   | (due, task_id, generation) # rest \<Rightarrow>
       if clk < due then (HSkip, h)
       else (let h1 = h\<lparr>hb_heap := rest\<rparr>
             in case hb_entries h task_id of
                  None \<Rightarrow> (HSkip, h1)
                | Some e \<Rightarrow> if he_generation e \<noteq> generation then (HSkip, h1)
                            else (HRenew (he_task_id e) (he_on_failure_action e), h1)))"

definition async_hb_renew_one :: "exn + unit \<Rightarrow> string \<Rightarrow> string \<Rightarrow> heartbeat \<Rightarrow> renew_outcome \<times> heartbeat" where
  "async_hb_renew_one res task_id on_failure_action h =
     (case res of
        Inl e \<Rightarrow> (if is_redis_error e
           then (if on_failure_action = ''kill'' then RKill else RDone, hb_set_health task_id False h)
           else (RRaise e, h))
      | Inr _ \<Rightarrow> (RDone, hb_set_health task_id True h))"

section \<open>The scheduler in its environment\<close>

datatype hb_phase = HReady | HSleep rat | HRenewing string string
  | HDead  \<comment> \<open>never started, or ended by \<^verbatim>\<open>shutdown\<close>\<close>
  | HFailed  \<comment> \<open>ended by an exception that escaped\<close>

definition hb_deadline_ok :: "hb_phase \<Rightarrow> rat \<Rightarrow> bool" where
  "hb_deadline_ok ph now = (case ph of HSleep d \<Rightarrow> now \<le> d | _ \<Rightarrow> True)"

definition hb_act :: "rat \<Rightarrow> hb_action \<Rightarrow> hb_phase" where
  "hb_act now a = (case a of HExit \<Rightarrow> HDead | HWait t \<Rightarrow> HSleep (now + t) | HSkip \<Rightarrow> HReady
     | HRenew u f \<Rightarrow> HRenewing u f)"

text \<open>After the renewal: an exception that is no Redis error ends the thread, otherwise the task is rescheduled.\<close>

definition hb_after :: "rat \<Rightarrow> exn + unit \<Rightarrow> string \<Rightarrow> string \<Rightarrow> heartbeat \<Rightarrow> heartbeat \<times> hb_phase" where
  "hb_after now res u f h = (case hb_renew_one res u f h of
     (RRaise e, h') \<Rightarrow> (h'\<lparr>hb_alive := False\<rparr>, HFailed)
   | (_, h') \<Rightarrow> (hb_reschedule now u h', HReady))"

definition hb_notified :: "bool \<Rightarrow> heartbeat \<Rightarrow> hb_phase \<Rightarrow> hb_phase" where
  "hb_notified n h ph = (if \<not> n then ph else if \<not> hb_alive h then HReady
     else (case ph of HSleep _ \<Rightarrow> HReady | _ \<Rightarrow> ph))"

text \<open>The last component of a state records for the proofs which tasks have had a renewal end in an escaping
  exception since they were last registered.\<close>

inductive hb_step :: "rat \<times> heartbeat \<times> hb_phase \<times> string set \<Rightarrow> rat \<times> heartbeat \<times> hb_phase \<times> string set \<Rightarrow> bool" where
  hb_step_check: "hb_check now h = (a, h') \<Longrightarrow> hb_step (now, h, HReady, lost) (now, h', hb_act now a, lost)"
| hb_step_sleep_end: "d \<le> now \<Longrightarrow> hb_step (now, h, HSleep d, lost) (now, h, HReady, lost)"
| hb_step_renewed: "hb_after now res u f h = (h', ph) \<Longrightarrow>
    hb_step (now, h, HRenewing u f, lost) (now, h', ph, if ph = HFailed then insert u lost else lost)"
| hb_step_register: "hb_register now u f h = (e, h') \<Longrightarrow>
    hb_step (now, h, ph, lost) (now, h', hb_notified (u \<noteq> []) h ph, lost - {u})"
| hb_step_deregister: "hb_step (now, h, ph, lost) (now, hb_deregister u h, ph, lost - {u})"
| hb_step_stop: "hb_step (now, h, ph, lost) (now, hb_stop h, case ph of HSleep _ \<Rightarrow> HReady | _ \<Rightarrow> ph, lost)"
| hb_step_tick: "now \<le> now' \<Longrightarrow> hb_deadline_ok ph now' \<Longrightarrow> hb_step (now, h, ph, lost) (now', h, ph, lost)"

inductive hb_reachable :: "limiter \<Rightarrow> rat \<times> heartbeat \<times> hb_phase \<times> string set \<Rightarrow> bool" for l where
  hb_start: "hb_reachable l (now, heartbeat_init l, HDead, {})"
| hb_more: "hb_reachable l x \<Longrightarrow> hb_step x y \<Longrightarrow> hb_reachable l y"



lemma hb_detach_fields [simp]:
  "hb_heap (hb_detach u h) = hb_heap h" "hb_entries (hb_detach u h) = (hb_entries h)(u := None)"
  "hb_interval (hb_detach u h) = hb_interval h" "hb_alive (hb_detach u h) = hb_alive h" "hb_shutdown (hb_detach u h) = hb_shutdown h"
  by (auto simp: hb_detach_def split: option.split)

lemma set_hb_push [simp]:
  "hb_heap (hb_push due u g h) = insort (due, u, g) (hb_heap h)" "hb_entries (hb_push due u g h) = hb_entries h"
  "hb_interval (hb_push due u g h) = hb_interval h" "hb_alive (hb_push due u g h) = hb_alive h"
  by (simp_all add: hb_push_def)

lemma hb_ensure_started_fields [simp]:
  "hb_heap (hb_ensure_started h) = hb_heap h" "hb_entries (hb_ensure_started h) = hb_entries h"
  "hb_interval (hb_ensure_started h) = hb_interval h" "hb_alive (hb_ensure_started h)"
  by (simp_all add: hb_ensure_started_def)

lemma hb_set_health_fields [simp]:
  "hb_heap (hb_set_health u b h) = hb_heap h" "hb_interval (hb_set_health u b h) = hb_interval h"
  "hb_alive (hb_set_health u b h) = hb_alive h"
  "hb_entries (hb_set_health u b h) = (case hb_entries h u of None \<Rightarrow> hb_entries h
     | Some e \<Rightarrow> (hb_entries h)(u \<mapsto> e\<lparr>he_is_healthy := b\<rparr>))"
  by (simp_all add: hb_set_health_def split: option.split)







text \<open>A deregistered entry keeps what was last recorded in it.\<close>

lemma hb_object_detached: "he_task_id e = u \<Longrightarrow> hb_object (hb_deregister u h) e = hb_object h e"
  by (auto simp: hb_object_def hb_deregister_def hb_detach_def split: option.split)

lemma hb_object_assigned:
  assumes "he_object (hb_object h e) = he_object e"
  shows "he_is_healthy (hb_object (hb_assign b e h) e) = b"
  using assms by (auto simp: hb_object_def hb_assign_def Let_def split: option.split)


section \<open>Properties\<close>


lemma demo_heartbeat:
  assumes "l_lease_duration l = 30" and r: "hb_register 10 ''t1'' ''warn'' (heartbeat_init l) = (e, h)"
  shows "hb_reachable l (10, h, HReady, {})" "hb_entries h ''t1'' = Some e" "he_generation e = 0" "hb_interval h = 15"
    "hb_heap h = [(25, ''t1'', 0)]"
proof -
  have "hb_reachable l (10, h, hb_notified (''t1'' \<noteq> []) (heartbeat_init l) HDead, {} - {''t1''})"
    by (rule hb_more [OF hb_start hb_step_register [OF r]])
  moreover have "hb_notified (''t1'' \<noteq> []) (heartbeat_init l) HDead = HReady"
    by (simp add: hb_notified_def heartbeat_init_def)
  ultimately show "hb_reachable l (10, h, HReady, {})" by simp
  show "hb_entries h ''t1'' = Some e" "he_generation e = 0" "hb_interval h = 15" "hb_heap h = [(25, ''t1'', 0)]"
    using r assms(1) by (auto simp: hb_register_def heartbeat_init_def hb_push_def hb_ensure_started_def Let_def)
qed

definition demo_hb_limiter :: limiter where
  "demo_hb_limiter = \<lparr>l_id = ''lim'', l_limit = 2, l_window = 1, l_config_version = 0, l_drain_paused_until = 0,
     l_max_concurrency = 1, l_max_age = 3600, l_lease_duration = 30, l_on_heartbeat_failure = ''warn'',
     l_jitter_enabled = True, l_jitter_min_pct = 2 / 100, l_jitter_max_pct = 8 / 100,
     l_metrics_callback = False, l_drain_enabled = True, l_worker_id = ''w1'',
     l_consecutive_drain_failures = 0, l_last_refresh_at = 0\<rparr>"


text \<open>A lost lease stops the heartbeat of every task. When \<^verbatim>\<open>extend_lease\<close> raises \<^verbatim>\<open>KeyError\<close> (the lease was reclaimed or
  released), \<^verbatim>\<open>_renew_one\<close> does not catch it: the shared thread ends, no task is renewed until another
  registration restarts it, and the task's own tuple is gone from the heap while its entry stays, so
  it is never renewed again.\<close>

theorem heartbeat_dies_on_lost_lease:
  assumes "hb_check now h = (HRenew u f, h1)" "hb_after now' (Inl KeyError) u f h1 = (h2, ph)"
  shows "ph = HFailed \<and> \<not> hb_alive h2 \<and> hb_heap h2 = tl (hb_heap h) \<and> hb_entries h2 = hb_entries h
    \<and> (\<exists>e. hb_entries h2 (fst (snd (hd (hb_heap h)))) = Some e \<and> he_generation e = snd (snd (hd (hb_heap h))))"
  using assms by (auto simp: hb_check_def hb_after_def hb_renew_one_def is_redis_error_def Let_def
      split: if_splits list.splits option.splits)

theorem heartbeat_dies_on_lost_lease_witness:
  "\<not> hb_alive (fst (hb_after 30 (Inl KeyError) ''t1'' ''warn''
      (snd (hb_check 30 (snd (hb_register 10 ''t1'' ''warn'' (heartbeat_init demo_hb_limiter)))))))"
proof -
  obtain e h where r: "hb_register 10 ''t1'' ''warn'' (heartbeat_init demo_hb_limiter) = (e, h)" by force
  have l: "l_lease_duration demo_hb_limiter = 30" by (simp add: demo_hb_limiter_def)
  note d = demo_heartbeat [OF l r]
  have "\<not> hb_shutdown h" using r by (auto simp: hb_register_def heartbeat_init_def hb_push_def hb_ensure_started_def Let_def)
  moreover have "he_task_id e = ''t1''" "he_on_failure_action e = ''warn''" using r by (auto simp: hb_register_def Let_def)
  ultimately have c: "hb_check 30 h = (HRenew ''t1'' ''warn'', snd (hb_check 30 h))"
    using d(2,3,5) by (simp add: hb_check_def)
  obtain h2 ph where a: "hb_after 30 (Inl KeyError) ''t1'' ''warn'' (snd (hb_check 30 h)) = (h2, ph)" by force
  show ?thesis using heartbeat_dies_on_lost_lease [OF c a] a r by simp
qed

end
