(* ===== verification/World.thy ===== *)
theory World
  imports Client Task_Json Drain_Loop Heartbeat
begin

text \<open>
  The state of one limiter instance in its process, and what it uses of the outside: the Redis client, the
  package resources, \<^verbatim>\<open>hashlib.md5\<close>, \<^verbatim>\<open>uuid.uuid4\<close>, \<^verbatim>\<open>random.random\<close>, the user's metrics callback and the hooks
  that a backend overrides. A method is a function in the Python monad over the world; logging has no
  effect, except for the transitions that the health monitor reports. The clocks stand still during a
  method; they are arguments of every run.
\<close>

datatype metric =
    MSchedule bool string
  | MConsume bool bool int int int int

datatype event = EvUnhealthy | EvRecovered

record monitor =
  m_healthy :: bool
  m_shutdown :: bool
  m_running :: bool

record subscriber =
  sb_shutdown :: bool
  sb_running :: bool

text \<open>What a limiter hands to an executor or a message broker: a task for the pool of its own process, or a message
  with the name of the task to run and its arguments.\<close>

datatype job =
    RunTask string "(string \<times> json) list" string
  | SendTask string "json list" "(string \<times> json) list"

record 'c world =
  w_scripts :: "'c scripts"
  w_lim :: limiter
  w_time :: rat
  w_clk :: rat
  w_loop :: "drain_loop option"
  w_hb :: heartbeat
  w_monitor :: "monitor option"
  w_subscriber :: "subscriber option"
  w_metrics :: "metric list"
  w_events :: "event list"
  w_uuids :: nat
  w_rands :: nat
  w_shutdown_called :: bool
  w_hb_created :: bool  \<comment> \<open>the attribute \<^verbatim>\<open>_heartbeat_scheduler\<close> exists\<close>
  w_local :: int  \<comment> \<open>\<^verbatim>\<open>_local_dispatched\<close>, or \<^verbatim>\<open>_active_count\<close>, of the backends that run tasks themselves\<close>
  w_jobs :: "job list"  \<comment> \<open>submitted and not finished\<close>

record 'c env =
  e_client :: "'c client"
  e_files :: "string \<Rightarrow> string \<Rightarrow> exn + string"
  e_md5 :: "string \<Rightarrow> string"
  e_uuid :: "nat \<Rightarrow> string"
  e_random :: "nat \<Rightarrow> rat"
  e_callback :: "metric \<Rightarrow> ('c world, unit) py"
  e_dispatch :: "string \<Rightarrow> (string \<times> json) list \<Rightarrow> string \<Rightarrow> ('c world, unit) py"
  e_refresh :: "('c world, unit) py option"
  e_has_local_capacity :: "'c world \<Rightarrow> bool"
  e_check_health :: "('c world, bool) py option"

definition on_scripts :: "('c scripts, 'a) py \<Rightarrow> ('c world, 'a) py" where
  "on_scripts m w = (case m (w_scripts w) of (r, s) \<Rightarrow> (r, w\<lparr>w_scripts := s\<rparr>))"

definition on_redis :: "('c, 'a) py \<Rightarrow> ('c world, 'a) py" where
  "on_redis m = on_scripts (on_conn m)"

definition set_lim :: "(limiter \<Rightarrow> limiter) \<Rightarrow> ('c world, unit) py" where
  "set_lim f = py_modify (\<lambda>w. w\<lparr>w_lim := f (w_lim w)\<rparr>)"

definition next_uuid :: "'c env \<Rightarrow> ('c world, string) py" where
  "next_uuid E w = (Inr (e_uuid E (w_uuids w)), w\<lparr>w_uuids := w_uuids w + 1\<rparr>)"

definition next_random :: "'c env \<Rightarrow> ('c world, rat) py" where
  "next_random E w = (Inr (e_random E (w_rands w)), w\<lparr>w_rands := w_rands w + 1\<rparr>)"

text \<open>The parts of a world that only the local process sees.\<close>

definition server_of :: "('c \<Rightarrow> 's) \<Rightarrow> 'c world \<Rightarrow> 's" where
  "server_of srv w = srv (s_conn (w_scripts w))"

text \<open>\<^verbatim>\<open>str.lower()\<close> on ASCII letters.\<close>

definition py_lower :: "string \<Rightarrow> string" where
  "py_lower s = map (\<lambda>c. let n = of_char c :: int in if 65 \<le> n \<and> n \<le> 90 then char_of (n + 32) else c) s"

lemmas world_defs = on_scripts_def on_redis_def on_conn_def set_lim_def next_uuid_def next_random_def

end
