(* ===== verification/Distributed.thy ===== *)
theory Distributed
  imports World
begin

text \<open>
  The synchronous distributed limiter: \<^verbatim>\<open>AbstractDistributedRateLimiter\<close>, \<^verbatim>\<open>TaskLifecycle\<close>,
  \<^verbatim>\<open>DrainSignalSubscriber\<close> and \<^verbatim>\<open>BackendHealthMonitor\<close> of \<^verbatim>\<open>core/limiters.py\<close>, and \<^verbatim>\<open>_emit_metric\<close> of the mixin.
\<close>

section \<open>Drain signals, metrics, scripts\<close>

definition schedule_drain :: "rat \<Rightarrow> ('c world, unit) py" where
  "schedule_drain delay = py_modify (\<lambda>w. case w_loop w of
     None \<Rightarrow> w | Some l \<Rightarrow> w\<lparr>w_loop := Some (fst (loop_wake (w_clk w) delay l))\<rparr>)"

definition emit_metric :: "'c env \<Rightarrow> metric \<Rightarrow> ('c world, unit) py" where
  "emit_metric E d = py_bind (py_get (\<lambda>w. l_metrics_callback (w_lim w))) (\<lambda>enabled.
     if \<not> enabled then py_return () else py_catch (e_callback E d) (\<lambda>_. py_return ()))"

definition call_script :: "'c env \<Rightarrow> script_call \<Rightarrow> ('c world, reply) py" where
  "call_script E call = on_scripts (eval_script (e_files E) (e_client E) call)"

definition publish_drain_signal :: "'c env \<Rightarrow> ('c world, unit) py" where
  "publish_drain_signal E = py_bind (py_get w_lim) (\<lambda>l.
     py_catch (on_redis (c_publish (e_client E) (drain_signal_channel (l_id l)) (l_worker_id l))) (\<lambda>_. py_return ()))"

definition trigger_consume :: "'c env \<Rightarrow> ('c world, unit) py" where
  "trigger_consume E = py_then (schedule_drain 0) (publish_drain_signal E)"

section \<open>Scheduling\<close>

definition cleanup_inflight_key :: "'c env \<Rightarrow> string \<Rightarrow> ('c world, unit) py" where
  "cleanup_inflight_key E inflight_key =
     py_catch (py_bind (on_redis (c_delete (e_client E) inflight_key)) (\<lambda>_. py_return ())) (\<lambda>_. py_return ())"

text \<open>\<^verbatim>\<open>max_age or ""\<close>: zero counts as no override.\<close>

definition max_age_arg :: "int option \<Rightarrow> rat option" where
  "max_age_arg max_age = (case max_age of None \<Rightarrow> None | Some m \<Rightarrow> if m = 0 then None else Some (of_int m))"

text \<open>A priority that is not a finite number is \<open>None\<close>.\<close>

definition schedule_task :: "'c env \<Rightarrow> string \<Rightarrow> (string \<times> json) list \<Rightarrow> rat option \<Rightarrow> int option
    \<Rightarrow> ('c world, bool \<times> string) py" where
  "schedule_task E func_path payload priority max_age = (case priority of
     None \<Rightarrow> py_raise ValueError
   | Some p \<Rightarrow>
       py_bind (py_get w_lim) (\<lambda>l.
       let task_id = e_md5 E (get_task_signature_str func_path payload);
           inflight_key = get_inflight_key (l_id l) task_id;
           inflight_ttl = get_inflight_ttl l max_age
       in py_bind (on_redis (c_set_nx_ex (e_client E) inflight_key ''1'' inflight_ttl)) (\<lambda>claimed.
          if \<not> claimed
          then py_then (emit_metric E (MSchedule False task_id)) (py_return (False, task_id))
          else (let full_data = get_task_data_str (l_id l) task_id func_path payload
                in py_bind
                     (py_catch (call_script E (CallSchedule (buffer_key (l_id l)) full_data p (max_age_arg max_age)))
                        (\<lambda>e. py_then (cleanup_inflight_key E inflight_key) (py_raise e)))
                     (\<lambda>_. py_then (trigger_consume E)
                          (py_then (emit_metric E (MSchedule True task_id)) (py_return (True, task_id))))))))"

section \<open>Consumption and leases\<close>

record consume_result =
  q_success :: bool
  q_expired :: bool
  q_marker_skipped :: bool
  q_yielded :: bool
  q_task :: "(string \<times> json) list option"
  q_remaining_tokens :: int
  q_active_concurrency :: int
  q_reset_in_ms :: int
  q_remaining_tasks :: int
  q_val_previous :: int
  q_val_current :: int

definition consume_call :: "limiter \<Rightarrow> script_call" where
  "consume_call l = CallConsume \<lparr>ca_base_key = l_id l, ca_buffer_key = buffer_key (l_id l),
     ca_concurrency_key = concurrency_key (l_id l), ca_dlq_key = dlq_key (l_id l),
     ca_window = l_window l, ca_limit = l_limit l, ca_max_concurrency = l_max_concurrency l,
     ca_max_age = Some (l_max_age l), ca_lease_duration = Some (l_lease_duration l),
     ca_worker_id = l_worker_id l\<rparr>"

text \<open>\<^verbatim>\<open>json.loads(result[1])\<close> and the look-up of the task's id; a member is always an object with an id.\<close>

definition load_task :: "string option \<Rightarrow> ('w, (string \<times> json) list option) py" where
  "load_task raw = (case raw of
     None \<Rightarrow> py_return None
   | Some t \<Rightarrow> if t = [] then py_return None
       else (case json_loads t of
               None \<Rightarrow> py_raise JSONDecodeError
             | Some (JObj fs) \<Rightarrow> (if fs \<noteq> [] \<and> jget fs ''id'' = None then py_raise KeyError else py_return (Some fs))
             | Some _ \<Rightarrow> py_raise TypeError))"

definition to_result :: "consume_reply \<Rightarrow> (string \<times> json) list option \<Rightarrow> consume_result" where
  "to_result r task = \<lparr>q_success = (cr_status r = 1), q_expired = (cr_status r = - 1),
     q_marker_skipped = (cr_status r = - 2), q_yielded = (cr_status r = - 3), q_task = task,
     q_remaining_tokens = cr_remaining r, q_active_concurrency = cr_active r, q_reset_in_ms = cr_reset_in_ms r,
     q_remaining_tasks = cr_buffer r, q_val_previous = cr_previous r, q_val_current = cr_current r\<rparr>"

definition consume :: "'c env \<Rightarrow> ('c world, consume_result) py" where
  "consume E = py_bind (py_get w_lim) (\<lambda>l.
     py_bind (call_script E (consume_call l)) (\<lambda>rep.
     case rep of
       RepConsume r \<Rightarrow>
         py_bind (load_task (cr_task r)) (\<lambda>task.
         let q = to_result r task
         in py_then (emit_metric E (MConsume (q_success q) (q_expired q) (q_remaining_tokens q)
                       (q_active_concurrency q) (q_reset_in_ms q) (q_remaining_tasks q)))
              (py_return q))
     | _ \<Rightarrow> py_raise TypeError))"

definition extend_lease :: "'c env \<Rightarrow> string \<Rightarrow> int \<Rightarrow> ('c world, unit) py" where
  "extend_lease E task_id duration = py_bind (py_get w_lim) (\<lambda>l.
     py_bind (call_script E (CallRenew (concurrency_key (l_id l)) task_id duration)) (\<lambda>rep.
     case rep of
       RepInt renewed \<Rightarrow> (if renewed \<noteq> 1 then py_raise KeyError else py_return ())
     | _ \<Rightarrow> py_raise TypeError))"

definition get_buffer_count :: "'c env \<Rightarrow> ('c world, int) py" where
  "get_buffer_count E = py_bind (py_get w_lim) (\<lambda>l. on_redis (c_zcard (e_client E) (buffer_key (l_id l))))"

record limiter_status =
  st_limiter_id :: string
  st_current :: int
  st_max :: int
  st_available :: int
  st_buffer_count :: int
  st_val_previous :: int
  st_val_current :: int
  st_tokens_used :: rat
  st_limit :: int
  st_window :: rat
  st_reset_in_ms :: int

definition get_status :: "'c env \<Rightarrow> ('c world, limiter_status) py" where
  "get_status E = py_bind (py_get w_lim) (\<lambda>l.
     py_bind (call_script E (CallHealth (l_id l) (buffer_key (l_id l)) (concurrency_key (l_id l)) (l_window l))) (\<lambda>rep.
     case rep of
       RepHealth h \<Rightarrow> py_return
         \<lparr>st_limiter_id = l_id l, st_current = hr_active h, st_max = l_max_concurrency l,
          st_available = max 0 (l_max_concurrency l - hr_active h), st_buffer_count = hr_buffer h,
          st_val_previous = hr_previous h, st_val_current = hr_current h, st_tokens_used = of_int (hr_estimated h),
          st_limit = l_limit l, st_window = l_window l, st_reset_in_ms = hr_reset_in_ms h\<rparr>
     | _ \<Rightarrow> py_raise TypeError))"

section \<open>The life of a running task\<close>

record lifecycle =
  lc_task_id :: string
  lc_interval :: rat
  lc_on_failure_action :: string
  lc_entry :: "hb_entry option"

definition lifecycle_init :: "limiter \<Rightarrow> string \<Rightarrow> string \<Rightarrow> lifecycle" where
  "lifecycle_init l task_id on_heartbeat_failure =
     \<lparr>lc_task_id = task_id, lc_interval = of_int (l_lease_duration l) / 2,
      lc_on_failure_action = py_lower on_heartbeat_failure, lc_entry = None\<rparr>"

definition task_lifecycle :: "string \<Rightarrow> string option \<Rightarrow> ('c world, lifecycle) py" where
  "task_lifecycle task_id override = py_bind (py_get w_lim) (\<lambda>l.
     py_return (lifecycle_init l task_id
       (case override of Some s \<Rightarrow> (if s = [] then l_on_heartbeat_failure l else s) | None \<Rightarrow> l_on_heartbeat_failure l)))"

text \<open>The property \<^verbatim>\<open>is_healthy\<close> and its setter.\<close>

definition is_healthy :: "lifecycle \<Rightarrow> 'c world \<Rightarrow> bool" where
  "is_healthy lc w = (case lc_entry lc of None \<Rightarrow> True | Some e \<Rightarrow> he_is_healthy (hb_object (w_hb w) e))"

definition set_healthy :: "bool \<Rightarrow> lifecycle \<Rightarrow> ('c world, unit) py" where
  "set_healthy b lc = py_modify (\<lambda>w. case lc_entry lc of None \<Rightarrow> w | Some e \<Rightarrow> w\<lparr>w_hb := hb_assign b e (w_hb w)\<rparr>)"

definition lifecycle_enter :: "lifecycle \<Rightarrow> ('c world, lifecycle) py" where
  "lifecycle_enter lc w = (case hb_register (w_clk w) (lc_task_id lc) (lc_on_failure_action lc) (w_hb w) of
     (entry, h) \<Rightarrow> (Inr (lc\<lparr>lc_entry := Some entry\<rparr>), w\<lparr>w_hb := h\<rparr>))"

definition lifecycle_exit :: "'c env \<Rightarrow> lifecycle \<Rightarrow> ('c world, unit) py" where
  "lifecycle_exit E lc =
     py_then (py_modify (\<lambda>w. w\<lparr>w_hb := hb_deregister (lc_task_id lc) (w_hb w)\<rparr>))
       (py_finally
          (py_bind (py_get w_lim) (\<lambda>l.
             let inflight_key = (if lc_task_id lc \<noteq> [] then get_inflight_key (l_id l) (lc_task_id lc) else [])
             in py_bind (call_script E (CallRelease (concurrency_key (l_id l)) inflight_key
                          (drain_signal_channel (l_id l)) (lc_task_id lc) (l_worker_id l))) (\<lambda>rep.
                case rep of RepPair _ \<Rightarrow> py_return () | _ \<Rightarrow> py_raise TypeError)))
          (schedule_drain 0))"

text \<open>\<^verbatim>\<open>with limiter.task_lifecycle(task_id): body\<close>: the exit runs whatever the body does.\<close>

definition with_lifecycle :: "'c env \<Rightarrow> lifecycle \<Rightarrow> ('c world, unit) py \<Rightarrow> ('c world, unit) py" where
  "with_lifecycle E lc body = py_bind (lifecycle_enter lc) (\<lambda>lc'. py_finally body (lifecycle_exit E lc'))"

text \<open>One renewal by the heartbeat thread.\<close>

definition renew_one :: "'c env \<Rightarrow> string \<Rightarrow> string \<Rightarrow> 'c world \<Rightarrow> renew_outcome \<times> 'c world" where
  "renew_one E task_id on_failure_action w =
     (case extend_lease E task_id (l_lease_duration (w_lim w)) w of (res, w1) \<Rightarrow>
      (case hb_renew_one res task_id on_failure_action (w_hb w1) of (out, h) \<Rightarrow> (out, w1\<lparr>w_hb := h\<rparr>)))"

section \<open>Inline acquisition\<close>

definition acquire_payload :: "string \<Rightarrow> rat \<Rightarrow> (string \<times> json) list" where
  "acquire_payload u timeout = [(''_uuid'', JStr u), (''_acquire_timeout_ms'', JInt \<lfloor>timeout * 1000\<rfloor>)]"

definition acquire :: "'c env \<Rightarrow> rat \<Rightarrow> rat option \<Rightarrow> ('c world, lifecycle) py" where
  "acquire E timeout priority =
     (if timeout \<le> 0 then py_raise ValueError
      else py_bind (py_get (\<lambda>w. w_loop w = None)) (\<lambda>no_loop.
        if no_loop then py_raise RuntimeError
        else py_bind (next_uuid E) (\<lambda>u.
             py_bind (schedule_task E acquire_marker (acquire_payload u timeout) priority (Some (max 1 \<lceil>timeout\<rceil>))) (\<lambda>p.
             if \<not> fst p then py_raise RuntimeError
             else py_bind (py_get w_lim) (\<lambda>l.
                  py_bind (on_redis (c_blpop (e_client E) (signal_key (l_id l) (snd p)) timeout)) (\<lambda>r.
                  if r = None then py_raise AcquireTimeout else task_lifecycle (snd p) None))))))"

section \<open>Draining\<close>

definition task_field :: "(string \<times> json) list \<Rightarrow> string \<Rightarrow> ('w, json) py" where
  "task_field fs k = (case jget fs k of Some v \<Rightarrow> py_return v | None \<Rightarrow> py_raise KeyError)"

text \<open>Dispatch of an admitted task; an acquire marker has no work of its own.\<close>

definition dispatch_admitted :: "'c env \<Rightarrow> (string \<times> json) list \<Rightarrow> ('c world, unit) py" where
  "dispatch_admitted E task =
     py_bind (task_field task ''func_path'') (\<lambda>func_path.
     if func_path \<noteq> JStr acquire_marker
     then py_bind (task_field task ''payload'') (\<lambda>payload.
          case (func_path, payload, jget task ''id'') of
            (JStr f, JObj ps, Some (JStr u)) \<Rightarrow> e_dispatch E f ps u
          | _ \<Rightarrow> py_raise TypeError)
     else py_return ())"

text \<open>The retry after a rate limit: recovery of a token, or the window reset with jitter.\<close>

definition rate_limited_retry :: "'c env \<Rightarrow> consume_result \<Rightarrow> ('c world, unit) py" where
  "rate_limited_retry E q = py_bind (py_get w_lim) (\<lambda>l.
     let base_delay = calculate_token_recovery_delay l (q_val_previous q) (q_val_current q) (q_reset_in_ms q);
         is_fallback = (q_val_previous q \<le> 0 \<or> l_limit l \<le> q_val_current q)
     in py_bind (if is_fallback \<and> l_jitter_enabled l
                 then py_bind (next_random E) (\<lambda>rnd.
                      py_return (calculate_smart_jitter l rnd (q_remaining_tasks q) (q_active_concurrency q)))
                 else py_return 0)
          (\<lambda>jitter. schedule_drain (py_round3 (max (1 / 1000) (base_delay + jitter)))))"

definition drain_inner :: "'c env \<Rightarrow> ('c world, unit) py" where
  "drain_inner E = py_bind (py_get (e_has_local_capacity E)) (\<lambda>capacity.
     if \<not> capacity then py_bind (py_get w_lim) (\<lambda>l. schedule_drain (token_interval l))
     else py_bind (consume E) (\<lambda>q.
       py_bind (py_get w_lim) (\<lambda>l.
       if q_yielded q then schedule_drain (token_interval l)
       else if q_success q
       then (case q_task q of
               None \<Rightarrow> py_raise AssertionError
             | Some task \<Rightarrow> py_then (dispatch_admitted E task) (py_if (0 < q_remaining_tasks q) (schedule_drain 0)))
       else if q_remaining_tasks q = 0 then py_return ()
       else if l_max_concurrency l \<le> q_active_concurrency q then py_return ()
       else if q_marker_skipped q then py_if (0 < q_remaining_tasks q) (schedule_drain 0)
       else if q_remaining_tokens q \<le> 0 then rate_limited_retry E q
       else py_return ())))"

definition drain_refresh :: "'c env \<Rightarrow> ('c world, unit) py" where
  "drain_refresh E = (case e_refresh E of
     None \<Rightarrow> py_return ()
   | Some refresh_config \<Rightarrow> py_bind (py_get w_clk) (\<lambda>now. py_bind (py_get w_lim) (\<lambda>l.
       py_if (1 \<le> now - l_last_refresh_at l)
         (py_then (set_lim (\<lambda>l. l\<lparr>l_last_refresh_at := now\<rparr>)) refresh_config))))"

definition drain_failed :: "('c world, unit) py" where
  "drain_failed =
     py_then (set_lim (\<lambda>l. l\<lparr>l_consecutive_drain_failures := l_consecutive_drain_failures l + 1\<rparr>))
       (py_bind (py_get w_lim) (\<lambda>l.
        case backoff_delay l (l_consecutive_drain_failures l) of
          Inl e \<Rightarrow> py_raise e
        | Inr delay \<Rightarrow> py_catch (schedule_drain delay) (\<lambda>_. py_return ())))"

definition drain_body :: "'c env \<Rightarrow> ('c world, unit) py" where
  "drain_body E =
     py_then (drain_refresh E)
       (py_bind (py_get w_lim) (\<lambda>l. py_bind (py_get w_time) (\<lambda>time.
        if time < l_drain_paused_until l then schedule_drain (l_drain_paused_until l - time)
        else py_then (drain_inner E) (set_lim (\<lambda>l. l\<lparr>l_consecutive_drain_failures := 0\<rparr>)))))"

definition drain :: "'c env \<Rightarrow> ('c world, unit) py" where
  "drain E = py_catch (drain_body E) (\<lambda>_. drain_failed)"

text \<open>One turn of the loop thread: an exception that escapes \<^verbatim>\<open>drain()\<close> is logged and dropped.\<close>

definition loop_drain :: "'c env \<Rightarrow> ('c world, unit) py" where
  "loop_drain E = py_catch (drain E) (\<lambda>_. py_return ())"

text \<open>\<^verbatim>\<open>_dispatch_task\<close> of the abstract class.\<close>

definition abstract_dispatch_task :: "string \<Rightarrow> (string \<times> json) list \<Rightarrow> string \<Rightarrow> ('c world, unit) py" where
  "abstract_dispatch_task func_path payload task_id = py_raise NotImplementedError"

section \<open>Signals from other processes\<close>

text \<open>A message of the Pub/Sub connection: its type and its data.\<close>

definition subscriber_handle :: "(string \<times> string) option \<Rightarrow> ('c world, unit) py" where
  "subscriber_handle message = (case message of
     Some (type, sender_id) \<Rightarrow> py_bind (py_get w_lim) (\<lambda>l.
       py_if (type = ''message'' \<and> sender_id \<noteq> l_worker_id l) (schedule_drain 0))
   | None \<Rightarrow> py_return ())"

definition subscriber_start :: "'c env \<Rightarrow> ('c world, unit) py" where
  "subscriber_start E = py_bind (py_get w_lim) (\<lambda>l.
     py_then (on_redis (c_subscribe (e_client E) (drain_signal_channel (l_id l))))
       (py_modify (\<lambda>w. w\<lparr>w_subscriber := Some \<lparr>sb_shutdown = False, sb_running = True\<rparr>\<rparr>)))"

definition subscriber_shutdown :: "'c env \<Rightarrow> ('c world, unit) py" where
  "subscriber_shutdown E = py_bind (py_get w_lim) (\<lambda>l.
     py_then (py_modify (\<lambda>w. w\<lparr>w_subscriber := map_option (\<lambda>s. s\<lparr>sb_shutdown := True, sb_running := False\<rparr>) (w_subscriber w)\<rparr>))
       (py_catch (on_redis (c_publish (e_client E) (drain_signal_channel (l_id l)) [])) (\<lambda>_. py_return ())))"

section \<open>Backend health\<close>

definition monitor_run_once :: "'c env \<Rightarrow> ('c world, unit) py" where
  "monitor_run_once E =
     py_bind (py_catch (case e_check_health E of None \<Rightarrow> py_return True | Some check \<Rightarrow> check) (\<lambda>_. py_return False))
       (\<lambda>healthy. py_modify (\<lambda>w. case w_monitor w of
          None \<Rightarrow> w
        | Some m \<Rightarrow> w\<lparr>w_events := w_events w @
              (if m_healthy m \<and> \<not> healthy then [EvUnhealthy] else if \<not> m_healthy m \<and> healthy then [EvRecovered] else []),
            w_monitor := Some (m\<lparr>m_healthy := healthy\<rparr>)\<rparr>))"

definition monitor_shutdown :: "'c world \<Rightarrow> 'c world" where
  "monitor_shutdown w = w\<lparr>w_monitor := map_option (\<lambda>m. m\<lparr>m_shutdown := True, m_running := False\<rparr>) (w_monitor w)\<rparr>"

section \<open>Construction and shutdown\<close>

definition register_all :: "'c env \<Rightarrow> string list \<Rightarrow> ('c world, unit) py" where
  "register_all E names = foldr (\<lambda>n m. py_bind (on_scripts (register_script (e_files E) (e_client E) n)) (\<lambda>_. m)) names (py_return ())"

definition limiter_scripts :: "string list" where
  "limiter_scripts = [''consume.lua'', ''schedule.lua'', ''health.lua'', ''renew.lua'', ''release.lua'']"

definition distributed_init :: "'c env \<Rightarrow> limiter_args \<Rightarrow> ('c world, unit) py" where
  "distributed_init E a = py_bind (next_uuid E) (\<lambda>worker_id.
     case mixin_init a worker_id of
       Inl e \<Rightarrow> py_raise e
     | Inr l \<Rightarrow>
         py_then (py_modify (\<lambda>w. w\<lparr>w_lim := l, w_shutdown_called := False, w_hb_created := False,
             w_scripts := (w_scripts w)\<lparr>s_sources := Map.empty, s_shas := Map.empty\<rparr>\<rparr>))
         (py_then (register_all E limiter_scripts)
         (py_then (py_modify (\<lambda>w. w\<lparr>w_hb := heartbeat_init l, w_hb_created := True\<rparr>))
         (py_then (if a_drain_enabled a
             then py_then (py_modify (\<lambda>w. w\<lparr>w_loop := Some (drain_loop_init (watchdog_interval l))\<rparr>)) (subscriber_start E)
             else py_modify (\<lambda>w. w\<lparr>w_loop := None, w_subscriber := None\<rparr>))
         (py_modify (\<lambda>w. w\<lparr>w_monitor :=
            (if a_drain_enabled a \<and> e_check_health E \<noteq> None
             then Some \<lparr>m_healthy = True, m_shutdown = False, m_running = True\<rparr> else None)\<rparr>))))))"

definition shutdown :: "'c env \<Rightarrow> ('c world, unit) py" where
  "shutdown E =
     py_then (py_modify (\<lambda>w. monitor_shutdown (w\<lparr>w_shutdown_called := True\<rparr>)))
     (py_then (py_modify (\<lambda>w. w\<lparr>w_loop := map_option loop_shutdown (w_loop w)\<rparr>))
     (py_then (py_bind (py_get w_subscriber) (\<lambda>s. py_if (s \<noteq> None) (subscriber_shutdown E)))
       (py_modify (\<lambda>w. w\<lparr>w_hb := hb_stop (w_hb w)\<rparr>))))"

text \<open>\<^verbatim>\<open>__del__\<close> warns about a limiter that was not shut down.\<close>

definition del_warns :: "'c world \<Rightarrow> bool" where
  "del_warns w = (w_loop w \<noteq> None \<and> \<not> w_shutdown_called w)"

end
