(* ===== verification/Async_Distributed.thy ===== *)
theory Async_Distributed
  imports Distributed
begin

text \<open>
  The asynchronous distributed limiter of \<^verbatim>\<open>core/async_limiters.py\<close>: \<^verbatim>\<open>AbstractAsyncDistributedRateLimiter\<close>,
  \<^verbatim>\<open>AsyncTaskLifecycle\<close>, \<^verbatim>\<open>AsyncDrainSignalSubscriber\<close>, \<^verbatim>\<open>AsyncBackendHealthMonitor\<close> and the rest of
  \<^verbatim>\<open>AsyncHeartbeatScheduler\<close>. A coroutine is a function in the same monad as a method; it runs without the interleaving of
  other coroutines at its \<^verbatim>\<open>await\<close> points, except for the wakes of the drain loop, which stay pending until the
  event loop runs them. The environment of an asynchronous limiter holds the asynchronous hooks.
\<close>

section \<open>The heartbeat task\<close>

definition async_heartbeat_init :: "limiter \<Rightarrow> heartbeat" where
  "async_heartbeat_init l = \<lparr>hb_interval = of_int (l_lease_duration l) / 2, hb_entries = Map.empty, hb_heap = [],
     hb_shutdown = False, hb_alive = False,
     hb_objects = 0, hb_detached = Map.empty\<rparr>"

definition async_hb_get_entry :: "string \<Rightarrow> heartbeat \<Rightarrow> hb_entry option" where
  "async_hb_get_entry task_id h = hb_entries h task_id"

definition async_hb_stop :: "heartbeat \<Rightarrow> heartbeat" where
  "async_hb_stop h = h\<lparr>hb_shutdown := True\<rparr>"

definition async_hb_ensure_started :: "heartbeat \<Rightarrow> heartbeat" where
  "async_hb_ensure_started h = (if hb_alive h then h else h\<lparr>hb_shutdown := False, hb_alive := True\<rparr>)"

definition async_hb_reschedule :: "rat \<Rightarrow> string \<Rightarrow> heartbeat \<Rightarrow> heartbeat" where
  "async_hb_reschedule clk task_id h = (case hb_entries h task_id of
     None \<Rightarrow> h
   | Some e \<Rightarrow> (let e1 = e\<lparr>he_generation := he_generation e + 1\<rparr>
        in hb_push (clk + hb_interval h) task_id (he_generation e1)
             (h\<lparr>hb_entries := (hb_entries h)(task_id \<mapsto> e1)\<rparr>)))"

section \<open>Drain signals and scripts\<close>

definition async_schedule_drain :: "rat \<Rightarrow> ('c world, unit) py" where
  "async_schedule_drain delay = py_modify (\<lambda>w. case w_loop w of
     None \<Rightarrow> w | Some l \<Rightarrow> w\<lparr>w_loop := Some (async_loop_wake (w_clk w) delay l)\<rparr>)"

definition async_call_script :: "'c env \<Rightarrow> script_call \<Rightarrow> ('c world, reply) py" where
  "async_call_script E call = on_scripts (async_eval_script (e_files E) (e_client E) call)"

definition async_publish_drain_signal :: "'c env \<Rightarrow> ('c world, unit) py" where
  "async_publish_drain_signal E = py_bind (py_get w_lim) (\<lambda>l.
     py_catch (on_redis (c_publish (e_client E) (drain_signal_channel (l_id l)) (l_worker_id l))) (\<lambda>_. py_return ()))"

definition async_trigger_consume :: "'c env \<Rightarrow> ('c world, unit) py" where
  "async_trigger_consume E = py_then (async_schedule_drain 0) (async_publish_drain_signal E)"

section \<open>Scheduling, consumption, leases\<close>

definition async_cleanup_inflight_key :: "'c env \<Rightarrow> string \<Rightarrow> ('c world, unit) py" where
  "async_cleanup_inflight_key E inflight_key =
     py_catch (py_bind (on_redis (c_delete (e_client E) inflight_key)) (\<lambda>_. py_return ())) (\<lambda>_. py_return ())"

definition async_schedule_task :: "'c env \<Rightarrow> string \<Rightarrow> (string \<times> json) list \<Rightarrow> rat option \<Rightarrow> int option
    \<Rightarrow> ('c world, bool \<times> string) py" where
  "async_schedule_task E func_path payload priority max_age = (case priority of
     None \<Rightarrow> py_raise ValueError
   | Some p \<Rightarrow>
       py_bind (py_get w_lim) (\<lambda>l.
       let task_id = e_md5 E (get_task_signature_str func_path payload);
           inflight_key = get_inflight_key (l_id l) task_id;
           inflight_ttl = get_inflight_ttl l max_age
       in py_bind (on_redis (c_set_nx_ex (e_client E) inflight_key ''1'' inflight_ttl)) (\<lambda>claimed.
          if \<not> claimed
          then py_then (emit_metric E (MSchedule False task_id)) (py_return (False, task_id))
          else (let full_data = get_task_data_str (l_id l) task_id func_path payload
                in py_bind
                     (py_catch (async_call_script E (CallSchedule (buffer_key (l_id l)) full_data p (max_age_arg max_age)))
                        (\<lambda>e. py_then (async_cleanup_inflight_key E inflight_key) (py_raise e)))
                     (\<lambda>_. py_then (async_trigger_consume E)
                          (py_then (emit_metric E (MSchedule True task_id)) (py_return (True, task_id))))))))"

definition async_consume :: "'c env \<Rightarrow> ('c world, consume_result) py" where
  "async_consume E = py_bind (py_get w_lim) (\<lambda>l.
     py_bind (async_call_script E (CallConsume \<lparr>ca_base_key = l_id l, ca_buffer_key = buffer_key (l_id l),
       ca_concurrency_key = concurrency_key (l_id l), ca_dlq_key = dlq_key (l_id l),
       ca_window = l_window l, ca_limit = l_limit l, ca_max_concurrency = l_max_concurrency l,
       ca_max_age = Some (l_max_age l), ca_lease_duration = Some (l_lease_duration l),
       ca_worker_id = l_worker_id l\<rparr>)) (\<lambda>rep.
     case rep of
       RepConsume r \<Rightarrow>
         py_bind (load_task (cr_task r)) (\<lambda>task.
         let q = to_result r task
         in py_then (emit_metric E (MConsume (q_success q) (q_expired q) (q_remaining_tokens q)
                       (q_active_concurrency q) (q_reset_in_ms q) (q_remaining_tasks q)))
              (py_return q))
     | _ \<Rightarrow> py_raise TypeError))"

definition async_extend_lease :: "'c env \<Rightarrow> string \<Rightarrow> int \<Rightarrow> ('c world, unit) py" where
  "async_extend_lease E task_id duration = py_bind (py_get w_lim) (\<lambda>l.
     py_bind (async_call_script E (CallRenew (concurrency_key (l_id l)) task_id duration)) (\<lambda>rep.
     case rep of
       RepInt renewed \<Rightarrow> (if renewed \<noteq> 1 then py_raise KeyError else py_return ())
     | _ \<Rightarrow> py_raise TypeError))"

definition async_get_buffer_count :: "'c env \<Rightarrow> ('c world, int) py" where
  "async_get_buffer_count E = py_bind (py_get w_lim) (\<lambda>l. on_redis (c_zcard (e_client E) (buffer_key (l_id l))))"

definition async_get_status :: "'c env \<Rightarrow> ('c world, limiter_status) py" where
  "async_get_status E = py_bind (py_get w_lim) (\<lambda>l.
     py_bind (async_call_script E (CallHealth (l_id l) (buffer_key (l_id l)) (concurrency_key (l_id l)) (l_window l))) (\<lambda>rep.
     case rep of
       RepHealth h \<Rightarrow> py_return
         \<lparr>st_limiter_id = l_id l, st_current = hr_active h, st_max = l_max_concurrency l,
          st_available = max 0 (l_max_concurrency l - hr_active h), st_buffer_count = hr_buffer h,
          st_val_previous = hr_previous h, st_val_current = hr_current h, st_tokens_used = of_int (hr_estimated h),
          st_limit = l_limit l, st_window = l_window l, st_reset_in_ms = hr_reset_in_ms h\<rparr>
     | _ \<Rightarrow> py_raise TypeError))"

section \<open>The life of a running task\<close>

definition async_lifecycle_init :: "limiter \<Rightarrow> string \<Rightarrow> string \<Rightarrow> lifecycle" where
  "async_lifecycle_init l task_id on_heartbeat_failure =
     \<lparr>lc_task_id = task_id, lc_interval = of_int (l_lease_duration l) / 2,
      lc_on_failure_action = py_lower on_heartbeat_failure, lc_entry = None\<rparr>"

definition async_task_lifecycle :: "string \<Rightarrow> string option \<Rightarrow> ('c world, lifecycle) py" where
  "async_task_lifecycle task_id override = py_bind (py_get w_lim) (\<lambda>l.
     py_return (async_lifecycle_init l task_id
       (case override of Some s \<Rightarrow> (if s = [] then l_on_heartbeat_failure l else s) | None \<Rightarrow> l_on_heartbeat_failure l)))"

definition async_is_healthy :: "lifecycle \<Rightarrow> 'c world \<Rightarrow> bool" where
  "async_is_healthy lc w = (case lc_entry lc of None \<Rightarrow> True | Some e \<Rightarrow> he_is_healthy (hb_object (w_hb w) e))"

definition async_set_healthy :: "bool \<Rightarrow> lifecycle \<Rightarrow> ('c world, unit) py" where
  "async_set_healthy b lc = py_modify (\<lambda>w. case lc_entry lc of None \<Rightarrow> w | Some e \<Rightarrow> w\<lparr>w_hb := hb_assign b e (w_hb w)\<rparr>)"

text \<open>Before \<^verbatim>\<open>start()\<close> there is no heartbeat scheduler.\<close>

definition async_lifecycle_enter :: "lifecycle \<Rightarrow> ('c world, lifecycle) py" where
  "async_lifecycle_enter lc w = (if \<not> w_hb_created w then (Inl AttributeError, w)
     else case async_hb_register (w_clk w) (lc_task_id lc) (lc_on_failure_action lc) (w_hb w) of
       (entry, h) \<Rightarrow> (Inr (lc\<lparr>lc_entry := Some entry\<rparr>), w\<lparr>w_hb := h\<rparr>))"

definition async_lifecycle_exit :: "'c env \<Rightarrow> lifecycle \<Rightarrow> ('c world, unit) py" where
  "async_lifecycle_exit E lc =
     py_then (py_modify (\<lambda>w. w\<lparr>w_hb := async_hb_deregister (lc_task_id lc) (w_hb w)\<rparr>))
       (py_finally
          (py_bind (py_get w_lim) (\<lambda>l.
             let inflight_key = (if lc_task_id lc \<noteq> [] then get_inflight_key (l_id l) (lc_task_id lc) else [])
             in py_bind (async_call_script E (CallRelease (concurrency_key (l_id l)) inflight_key
                          (drain_signal_channel (l_id l)) (lc_task_id lc) (l_worker_id l))) (\<lambda>rep.
                case rep of RepPair _ \<Rightarrow> py_return () | _ \<Rightarrow> py_raise TypeError)))
          (async_schedule_drain 0))"

definition async_with_lifecycle :: "'c env \<Rightarrow> lifecycle \<Rightarrow> ('c world, unit) py \<Rightarrow> ('c world, unit) py" where
  "async_with_lifecycle E lc body = py_bind (async_lifecycle_enter lc) (\<lambda>lc'. py_finally body (async_lifecycle_exit E lc'))"

definition async_renew_one :: "'c env \<Rightarrow> string \<Rightarrow> string \<Rightarrow> 'c world \<Rightarrow> renew_outcome \<times> 'c world" where
  "async_renew_one E task_id on_failure_action w =
     (case async_extend_lease E task_id (l_lease_duration (w_lim w)) w of (res, w1) \<Rightarrow>
      (case async_hb_renew_one res task_id on_failure_action (w_hb w1) of (out, h) \<Rightarrow> (out, w1\<lparr>w_hb := h\<rparr>)))"

definition async_acquire :: "'c env \<Rightarrow> rat \<Rightarrow> rat option \<Rightarrow> ('c world, lifecycle) py" where
  "async_acquire E timeout priority =
     (if timeout \<le> 0 then py_raise ValueError
      else py_bind (py_get (\<lambda>w. w_loop w = None)) (\<lambda>no_loop.
        if no_loop then py_raise RuntimeError
        else py_bind (next_uuid E) (\<lambda>u.
             py_bind (async_schedule_task E acquire_marker (acquire_payload u timeout) priority (Some (max 1 \<lceil>timeout\<rceil>))) (\<lambda>p.
             if \<not> fst p then py_raise RuntimeError
             else py_bind (py_get w_lim) (\<lambda>l.
                  py_bind (on_redis (c_blpop (e_client E) (signal_key (l_id l) (snd p)) timeout)) (\<lambda>r.
                  if r = None then py_raise AcquireTimeout else async_task_lifecycle (snd p) None))))))"

section \<open>Draining\<close>

definition async_dispatch_admitted :: "'c env \<Rightarrow> (string \<times> json) list \<Rightarrow> ('c world, unit) py" where
  "async_dispatch_admitted E task =
     py_bind (task_field task ''func_path'') (\<lambda>func_path.
     if func_path \<noteq> JStr acquire_marker
     then py_bind (task_field task ''payload'') (\<lambda>payload.
          case (func_path, payload, jget task ''id'') of
            (JStr f, JObj ps, Some (JStr u)) \<Rightarrow> e_dispatch E f ps u
          | _ \<Rightarrow> py_raise TypeError)
     else py_return ())"

definition async_rate_limited_retry :: "'c env \<Rightarrow> consume_result \<Rightarrow> ('c world, unit) py" where
  "async_rate_limited_retry E q = py_bind (py_get w_lim) (\<lambda>l.
     let base_delay = calculate_token_recovery_delay l (q_val_previous q) (q_val_current q) (q_reset_in_ms q);
         is_fallback = (q_val_previous q \<le> 0 \<or> l_limit l \<le> q_val_current q)
     in py_bind (if is_fallback \<and> l_jitter_enabled l
                 then py_bind (next_random E) (\<lambda>rnd.
                      py_return (calculate_smart_jitter l rnd (q_remaining_tasks q) (q_active_concurrency q)))
                 else py_return 0)
          (\<lambda>jitter. async_schedule_drain (py_round3 (max (1 / 1000) (base_delay + jitter)))))"

definition async_drain_inner :: "'c env \<Rightarrow> ('c world, unit) py" where
  "async_drain_inner E = py_bind (py_get (e_has_local_capacity E)) (\<lambda>capacity.
     if \<not> capacity then py_bind (py_get w_lim) (\<lambda>l. async_schedule_drain (token_interval l))
     else py_bind (async_consume E) (\<lambda>q.
       py_bind (py_get w_lim) (\<lambda>l.
       if q_yielded q then async_schedule_drain (token_interval l)
       else if q_success q
       then (case q_task q of
               None \<Rightarrow> py_raise AssertionError
             | Some task \<Rightarrow> py_then (async_dispatch_admitted E task) (py_if (0 < q_remaining_tasks q) (async_schedule_drain 0)))
       else if q_remaining_tasks q = 0 then py_return ()
       else if l_max_concurrency l \<le> q_active_concurrency q then py_return ()
       else if q_marker_skipped q then py_if (0 < q_remaining_tasks q) (async_schedule_drain 0)
       else if q_remaining_tokens q \<le> 0 then async_rate_limited_retry E q
       else py_return ())))"

definition async_drain_refresh :: "'c env \<Rightarrow> ('c world, unit) py" where
  "async_drain_refresh E = (case e_refresh E of
     None \<Rightarrow> py_return ()
   | Some refresh_config \<Rightarrow> py_bind (py_get w_clk) (\<lambda>now. py_bind (py_get w_lim) (\<lambda>l.
       py_if (1 \<le> now - l_last_refresh_at l)
         (py_then (set_lim (\<lambda>l. l\<lparr>l_last_refresh_at := now\<rparr>)) refresh_config))))"

definition async_drain_failed :: "('c world, unit) py" where
  "async_drain_failed =
     py_then (set_lim (\<lambda>l. l\<lparr>l_consecutive_drain_failures := l_consecutive_drain_failures l + 1\<rparr>))
       (py_bind (py_get w_lim) (\<lambda>l.
        case backoff_delay l (l_consecutive_drain_failures l) of
          Inl e \<Rightarrow> py_raise e
        | Inr delay \<Rightarrow> py_catch (async_schedule_drain delay) (\<lambda>_. py_return ())))"

definition async_drain_body :: "'c env \<Rightarrow> ('c world, unit) py" where
  "async_drain_body E =
     py_then (async_drain_refresh E)
       (py_bind (py_get w_lim) (\<lambda>l. py_bind (py_get w_time) (\<lambda>time.
        if time < l_drain_paused_until l then async_schedule_drain (l_drain_paused_until l - time)
        else py_then (async_drain_inner E) (set_lim (\<lambda>l. l\<lparr>l_consecutive_drain_failures := 0\<rparr>)))))"

definition async_drain :: "'c env \<Rightarrow> ('c world, unit) py" where
  "async_drain E = py_catch (async_drain_body E) (\<lambda>_. async_drain_failed)"

definition async_loop_drain :: "'c env \<Rightarrow> ('c world, unit) py" where
  "async_loop_drain E = py_catch (async_drain E) (\<lambda>_. py_return ())"

definition async_abstract_dispatch_task :: "string \<Rightarrow> (string \<times> json) list \<Rightarrow> string \<Rightarrow> ('c world, unit) py" where
  "async_abstract_dispatch_task func_path payload task_id = py_raise NotImplementedError"

section \<open>Signals, health, construction, shutdown\<close>

definition async_subscriber_handle :: "(string \<times> string) option \<Rightarrow> ('c world, unit) py" where
  "async_subscriber_handle message = (case message of
     Some (type, sender_id) \<Rightarrow> py_bind (py_get w_lim) (\<lambda>l.
       py_if (type = ''message'' \<and> sender_id \<noteq> l_worker_id l) (async_schedule_drain 0))
   | None \<Rightarrow> py_return ())"

definition async_subscriber_start :: "'c env \<Rightarrow> ('c world, unit) py" where
  "async_subscriber_start E = py_bind (py_get w_lim) (\<lambda>l.
     py_then (on_redis (c_subscribe (e_client E) (drain_signal_channel (l_id l))))
       (py_modify (\<lambda>w. w\<lparr>w_subscriber := map_option (\<lambda>s. s\<lparr>sb_running := True\<rparr>) (w_subscriber w)\<rparr>)))"

definition async_subscriber_shutdown :: "'c env \<Rightarrow> ('c world, unit) py" where
  "async_subscriber_shutdown E =
     py_then (py_modify (\<lambda>w. w\<lparr>w_subscriber := map_option (\<lambda>s. s\<lparr>sb_shutdown := True\<rparr>) (w_subscriber w)\<rparr>))
     (py_then (py_catch (on_redis (c_unsubscribe (e_client E))) (\<lambda>_. py_return ()))
       (py_modify (\<lambda>w. w\<lparr>w_subscriber := map_option (\<lambda>s. s\<lparr>sb_running := False\<rparr>) (w_subscriber w)\<rparr>)))"

text \<open>The asynchronous class compares with its own default \<^verbatim>\<open>_check_backend_health\<close>, which answers \<^verbatim>\<open>True\<close>.\<close>

definition async_monitor_run_once :: "'c env \<Rightarrow> ('c world, unit) py" where
  "async_monitor_run_once E =
     py_bind (py_catch (case e_check_health E of None \<Rightarrow> py_return True | Some check \<Rightarrow> check) (\<lambda>_. py_return False))
       (\<lambda>healthy. py_modify (\<lambda>w. case w_monitor w of
          None \<Rightarrow> w
        | Some m \<Rightarrow> w\<lparr>w_events := w_events w @
              (if m_healthy m \<and> \<not> healthy then [EvUnhealthy] else if \<not> m_healthy m \<and> healthy then [EvRecovered] else []),
            w_monitor := Some (m\<lparr>m_healthy := healthy\<rparr>)\<rparr>))"

definition async_monitor_start :: "'c world \<Rightarrow> 'c world" where
  "async_monitor_start w = w\<lparr>w_monitor := map_option (\<lambda>m. m\<lparr>m_running := True\<rparr>) (w_monitor w)\<rparr>"

definition async_monitor_shutdown :: "'c world \<Rightarrow> 'c world" where
  "async_monitor_shutdown w = w\<lparr>w_monitor := map_option (\<lambda>m. m\<lparr>m_shutdown := True, m_running := False\<rparr>) (w_monitor w)\<rparr>"

definition async_register_all :: "'c env \<Rightarrow> string list \<Rightarrow> ('c world, unit) py" where
  "async_register_all E names = foldr (\<lambda>n m. py_bind (on_scripts (async_register_script (e_files E) (e_client E) n)) (\<lambda>_. m)) names (py_return ())"

definition async_distributed_init :: "'c env \<Rightarrow> limiter_args \<Rightarrow> ('c world, unit) py" where
  "async_distributed_init E a = py_bind (next_uuid E) (\<lambda>worker_id.
     case mixin_init a worker_id of
       Inl e \<Rightarrow> py_raise e
     | Inr l \<Rightarrow> py_modify (\<lambda>w. w\<lparr>w_lim := l, w_shutdown_called := False, w_hb_created := False,
         w_scripts := (w_scripts w)\<lparr>s_sources := Map.empty, s_shas := Map.empty\<rparr>,
         w_loop := (if a_drain_enabled a then Some (drain_loop_init (watchdog_interval l)) else None),
         w_subscriber := (if a_drain_enabled a then Some \<lparr>sb_shutdown = False, sb_running = False\<rparr> else None),
         w_monitor := (if a_drain_enabled a \<and> e_check_health E \<noteq> None
           then Some \<lparr>m_healthy = True, m_shutdown = False, m_running = False\<rparr> else None)\<rparr>))"

definition async_start :: "'c env \<Rightarrow> ('c world, unit) py" where
  "async_start E =
     py_then (async_register_all E limiter_scripts)
     (py_then (py_modify (\<lambda>w. w\<lparr>w_hb := async_heartbeat_init (w_lim w), w_hb_created := True\<rparr>))
     (py_then (py_bind (py_get (\<lambda>w. w_subscriber w \<noteq> None)) (\<lambda>s. py_if s (async_subscriber_start E)))
       (py_modify async_monitor_start)))"

definition async_shutdown :: "'c env \<Rightarrow> ('c world, unit) py" where
  "async_shutdown E =
     py_then (py_modify (\<lambda>w. async_monitor_shutdown (w\<lparr>w_shutdown_called := True\<rparr>)))
     (py_then (py_modify (\<lambda>w. w\<lparr>w_loop := map_option async_loop_shutdown (w_loop w)\<rparr>))
     (py_then (py_bind (py_get (\<lambda>w. w_subscriber w \<noteq> None)) (\<lambda>s. py_if s (async_subscriber_shutdown E)))
       (py_modify (\<lambda>w. if w_hb_created w then w\<lparr>w_hb := async_hb_stop (w_hb w)\<rparr> else w))))"

definition async_del_warns :: "'c world \<Rightarrow> bool" where
  "async_del_warns w = (w_loop w \<noteq> None \<and> \<not> w_shutdown_called w)"

end
