(* ===== verification/Config_Props.thy ===== *)
theory Config_Props
  imports Limiter_Config Task_Json
begin

text \<open>
  The guarantees of the configuration and of the arithmetic of the Python side.
\<close>

section \<open>Shared facts\<close>

text \<open>The configuration that the constructors admit.\<close>

definition config_ok :: "limiter \<Rightarrow> bool" where
  "config_ok l = (l_id l \<noteq> [] \<and> 0 \<le> l_limit l \<and> 0 < l_window l \<and> 1 \<le> l_max_concurrency l
     \<and> 1 \<le> l_max_age l \<and> 1 \<le> l_lease_duration l)"



lemma demo_limiter_ex: "mixin_init (default_args ''lim'' 2 1 1) ''w1'' = Inr
  \<lparr>l_id = ''lim'', l_limit = 2, l_window = 1, l_config_version = 0, l_drain_paused_until = 0,
   l_max_concurrency = 1, l_max_age = 3600, l_lease_duration = 30, l_on_heartbeat_failure = ''warn'',
   l_jitter_enabled = True, l_jitter_min_pct = 2 / 100, l_jitter_max_pct = 8 / 100,
   l_metrics_callback = False, l_drain_enabled = True, l_worker_id = ''w1'',
   l_consecutive_drain_failures = 0, l_last_refresh_at = 0\<rparr>"
  by (simp add: mixin_init_def base_init_def default_args_def)

definition demo_limiter :: limiter where
  "demo_limiter = projr (mixin_init (default_args ''lim'' 2 1 1) ''w1'')"

lemmas demo_limiter_simps [simp] = demo_limiter_def [unfolded demo_limiter_ex, simplified]

section \<open>Properties\<close>

text \<open>Construction: the constructors accept exactly the configurations with a non-empty id, a non-negative limit,
  a positive window and concurrency, age and lease of at least one, and raise \<^verbatim>\<open>ValueError\<close> on all others;
  an accepted configuration is stored as given, under the given worker id, with a zero version and no pause.\<close>

lemma init_validates:
  "case mixin_init a worker of
     Inl e \<Rightarrow> e = ValueError \<and> (a_limiter_id a = [] \<or> a_limit a < 0 \<or> a_window a \<le> 0 \<or> a_max_concurrency a < 1
        \<or> a_max_age a < 1 \<or> a_lease_duration a < 1)
   | Inr l \<Rightarrow> config_ok l \<and> l_id l = a_limiter_id a \<and> l_limit l = a_limit a \<and> l_window l = a_window a
        \<and> l_max_concurrency l = a_max_concurrency a \<and> l_max_age l = a_max_age a
        \<and> l_lease_duration l = a_lease_duration a \<and> l_worker_id l = worker \<and> l_config_version l = 0
        \<and> l_drain_paused_until l = 0 \<and> l_consecutive_drain_failures l = 0"
  by (auto simp: mixin_init_def base_init_def config_ok_def split: sum.splits)






text \<open>C19. The deduplication marker outlives the task: if the marker was set at \<open>claim\<close> milliseconds and the task entered
  the buffer at most one window later, then whenever \<^verbatim>\<open>consume.lua\<close> still admits the task (it has not exceeded
  its maximum age), the marker's TTL from \<^verbatim>\<open>_get_inflight_ttl\<close> covers the whole first lease. So the same task
  cannot be scheduled a second time between its scheduling and the end of its first lease.\<close>

theorem inflight_outlives_lease:
  assumes "config_ok l" "\<And>m. ov = Some m \<Longrightarrow> 0 < m"
    and "ca_max_age a = Some (l_max_age l)" "ca_lease_duration a = Some (l_lease_duration l)"
    and "td_max_age td = map_option of_int ov" "of_int arrived \<le> claim + 1000 * l_window l"
    and "td_arrived_at td = of_int arrived" "\<not> task_expired a td T"
  shows "1000 * of_int (T + l_lease_duration l) \<le> claim + 1000 * of_int (get_inflight_ttl l ov)"
proof -
  define m where "m = (case ov of None \<Rightarrow> l_max_age l | Some m \<Rightarrow> m)"
  have m: "(case td_max_age td of Some m \<Rightarrow> m | None \<Rightarrow> of_int (l_max_age l)) = (of_int m :: rat)"
    by (simp add: assms(5) m_def split: option.split)
  have "of_int (T - \<lfloor>td_arrived_at td / 1000\<rfloor>) \<le> (of_int m :: rat)"
    using assms(8) m by (simp add: task_expired_def assms(3) Let_def not_less)
  moreover have "of_int \<lfloor>td_arrived_at td / 1000\<rfloor> \<le> td_arrived_at td / 1000" by (rule of_int_floor_le)
  ultimately have "1000 * of_int T \<le> of_int arrived + 1000 * (of_int m :: rat)"
    by (simp add: assms(7) field_simps)
  moreover have "of_int m + of_int (l_lease_duration l) + l_window l \<le> (of_int (get_inflight_ttl l ov) :: rat)"
    by (simp add: get_inflight_ttl_def Let_def m_def [symmetric]) linarith
  ultimately show ?thesis using assms(6) by simp
qed

theorem inflight_outlives_lease_witness:
  "1000 * of_int (1700003600 + 30) \<le> (1700000000000 :: rat) + 1000 * of_int (get_inflight_ttl demo_limiter None)"
  using inflight_outlives_lease [of demo_limiter None
      "\<lparr>ca_base_key = [], ca_buffer_key = [], ca_concurrency_key = [], ca_dlq_key = [], ca_window = 1, ca_limit = 2,
        ca_max_concurrency = 1, ca_max_age = Some 3600, ca_lease_duration = Some 30, ca_worker_id = []\<rparr>"
      "\<lparr>td_id = [], td_func_path = [], td_inflight_key = [], td_arrived_at = of_int 1700000000000, td_max_age = None,
        td_timeout_ms = None\<rparr>" 1700000000000 1700000000000 1700003600]
  by (simp add: config_ok_def task_expired_def)

text \<open>Configuration refresh converges: applying the persisted configuration of one instance to another of the same
  limiter makes all persisted fields equal, draining is paused for the longer of the two windows
  exactly when the window changes, nothing else changes, and applying it again, whenever, changes nothing.\<close>

theorem overrides_converge:
  "let l' = apply_config_overrides time (build_persist_config k) l
   in build_persist_config l' = build_persist_config k
    \<and> l_drain_paused_until l' =
        (if l_window k = l_window l then l_drain_paused_until l else time + max (l_window l) (l_window k))
    \<and> l_id l' = l_id l \<and> l_worker_id l' = l_worker_id l \<and> l_config_version l' = l_config_version l
    \<and> apply_config_overrides time' (build_persist_config k) l' = l'"
  by (simp add: apply_config_overrides_def base_apply_config_overrides_def build_persist_config_def
      base_build_persist_config_def no_overrides_def Let_def)

lemma jitter_band:
  assumes "config_ok l" "0 \<le> l_jitter_min_pct l" "l_jitter_min_pct l \<le> l_jitter_max_pct l"
    and "0 \<le> rnd" "rnd \<le> 1" "0 \<le> active" "active \<le> l_max_concurrency l" "l_jitter_enabled l"
  shows "l_window l * l_jitter_min_pct l - 1 / 2000 \<le> calculate_smart_jitter l rnd tasks active
    \<and> calculate_smart_jitter l rnd tasks active \<le> l_window l * l_jitter_max_pct l + 1 / 2000
    \<and> 0 \<le> calculate_smart_jitter l rnd tasks active"
proof -
  define lo hi where "lo = l_window l * l_jitter_min_pct l" and "hi = l_window l * l_jitter_max_pct l"
  have win: "0 < l_window l" and mc: "1 \<le> l_max_concurrency l" using assms(1) by (simp_all add: config_ok_def)
  have lohi: "0 \<le> lo" "lo \<le> hi" using win assms(2,3) by (simp_all add: lo_def hi_def)
  define cp where "cp = (of_int active / of_int (max 1 (l_max_concurrency l)) :: rat)"
  have cp: "0 \<le> cp" "cp \<le> 1" using assms(6,7) mc by (simp_all add: cp_def max_def)
  have lp: "0 \<le> load_pressure tasks" "load_pressure tasks \<le> 1" by (auto simp: load_pressure_def)
  define sc where "sc = 3 / 10 + (load_pressure tasks * (7 / 10) + cp * (3 / 10)) * (7 / 10)"
  have sc: "0 \<le> sc" "sc \<le> 1" using cp lp by (simp_all add: sc_def field_simps)
  define x where "x = lo + (hi - lo) * sc * rnd"
  have j: "calculate_smart_jitter l rnd tasks active = py_round3 x"
    using assms(8) by (simp add: calculate_smart_jitter_def Let_def x_def lo_def hi_def sc_def cp_def)
  have "(hi - lo) * sc * rnd \<le> (hi - lo) * 1 * 1"
    using lohi sc assms(4,5) by (intro mult_mono) simp_all
  moreover have "0 \<le> (hi - lo) * sc * rnd" using lohi sc assms(4) by simp
  ultimately have x: "lo \<le> x" "x \<le> hi" by (simp_all add: x_def)
  have "py_round3 0 \<le> py_round3 x" using x lohi by (intro py_round3_mono) simp
  moreover have "py_round3 0 = 0" using round_half_even_of_int [of 0] by (simp add: py_round3_def)
  ultimately show ?thesis
    unfolding j lo_def [symmetric] hi_def [symmetric] using py_round3_bounds [of x] x by linarith
qed

text \<open>Jitter stays in its band: for a random number between 0 and 1, percentages in order and no more active
  tasks than slots, the jitter lies between the minimum and the maximum percentage of the window, up to
  the rounding to milliseconds, and is never negative.\<close>

theorem jitter_bounds:
  assumes "config_ok l" "0 \<le> l_jitter_min_pct l" "l_jitter_min_pct l \<le> l_jitter_max_pct l"
    and "0 \<le> rnd" "rnd \<le> 1" "0 \<le> active" "active \<le> l_max_concurrency l" "l_jitter_enabled l"
  shows "l_window l * l_jitter_min_pct l - 1 / 2000 \<le> calculate_smart_jitter l rnd tasks active
    \<and> calculate_smart_jitter l rnd tasks active \<le> l_window l * l_jitter_max_pct l + 1 / 2000
    \<and> 0 \<le> calculate_smart_jitter l rnd tasks active"
  using jitter_band [OF assms] .

theorem jitter_bounds_witness: "calculate_smart_jitter demo_limiter (1 / 2) 20 1 \<le> 8 / 100 + 1 / 2000"
  using jitter_bounds [of demo_limiter "1 / 2" 1 20] by (simp add: config_ok_def)

end
