(* ===== verification/System.thy ===== *)
theory System
  imports Scripts_Props
begin

text \<open>
  The limiter as a distributed system: any number of workers, each calling the scripts in any order,
  share one server. A state is the server's together with a log of the admission times (a ghost:
  the program does not keep it). A step is one atomic call of a script or command that the Python
  code makes on the limiter's keys, the passage of time, or a change to keys of somebody else.
  The invariants hold in every reachable state, and the rate guarantees follow from them.
\<close>

section \<open>The step relation\<close>

definition own_keys :: "string \<Rightarrow> string set" where
  "own_keys i = {buffer_key i, concurrency_key i, dlq_key i, last_consumer_key i, last_caller_key i}
     \<union> range (window_key i) \<union> range (get_inflight_key i) \<union> range (signal_key i)"

definition log_consume :: "int \<Rightarrow> exn + consume_reply \<Rightarrow> int list \<Rightarrow> int list" where
  "log_consume now r adm = (case r of Inr t \<Rightarrow> (if cr_status t = 1 then adm @ [now] else adm) | Inl _ \<Rightarrow> adm)"

definition log_acquire :: "int \<Rightarrow> exn + acquire_reply \<Rightarrow> int list \<Rightarrow> int list" where
  "log_acquire now r adm = (case r of Inr t \<Rightarrow> (if ar_allowed t = 1 then adm @ [now] else adm) | Inl _ \<Rightarrow> adm)"

text \<open>
  What the workers of a limiter have in common. They need not agree on the limits: after an update
  each worker goes on with the limits it read last until it refreshes its configuration, so a call may
  come with any limits up to the largest that are in use, \<open>limit\<close> and \<open>cap\<close>. They do agree
  on the window, which names the counters.
\<close>

definition config_of :: "string \<Rightarrow> rat \<Rightarrow> int \<Rightarrow> int \<Rightarrow> consume_args \<Rightarrow> bool" where
  "config_of i window limit cap a = (args_for i a \<and> ca_window a = window \<and> ca_limit a \<le> limit
     \<and> ca_max_concurrency a \<le> cap)"

inductive lim_step :: "'s redis \<Rightarrow> ('s \<Rightarrow> keyspace) \<Rightarrow> ('s \<Rightarrow> 's \<Rightarrow> bool) \<Rightarrow> cjson \<Rightarrow> string \<Rightarrow> rat
    \<Rightarrow> int \<Rightarrow> int \<Rightarrow> 's \<times> int list \<Rightarrow> 's \<times> int list \<Rightarrow> bool"
  for R look el decode i window limit cap where
  step_consume: "config_of i window limit cap a \<Longrightarrow> consume_lua R decode a s = (r, s') \<Longrightarrow>
    lim_step R look el decode i window limit cap (s, adm) (s', log_consume (lua_now_ms R s) r adm)"
| step_acquire: "lmt \<le> limit \<Longrightarrow> acquire_lua R i window lmt s = (r, s') \<Longrightarrow>
    lim_step R look el decode i window limit cap (s, adm) (s', log_acquire (lua_now_ms R s) r adm)"
| step_schedule: "decode (inject_metadata js (of_int (lua_now_ms R s)) ov) = Some td \<Longrightarrow> member_ok i td \<Longrightarrow>
    lim_step R look el decode i window limit cap (s, adm) (schedule_lua R (buffer_key i) js p ov s, adm)"
| step_claim: "0 < ex \<Longrightarrow>
    lim_step R look el decode i window limit cap (s, adm) (snd (r_SET_NX_EX R (get_inflight_key i u) v ex s), adm)"
| step_unclaim:
    "lim_step R look el decode i window limit cap (s, adm) (snd (r_DEL R (get_inflight_key i u) s), adm)"
| step_renew:
    "lim_step R look el decode i window limit cap (s, adm) (snd (renew_lua R (concurrency_key i) u d s), adm)"
| step_release: "u \<noteq> [] \<Longrightarrow>
    lim_step R look el decode i window limit cap (s, adm)
      (snd (release_lua R (concurrency_key i) (get_inflight_key i u) (drain_signal_channel i) u wk s), adm)"
| step_pop_signal:
    "lim_step R look el decode i window limit cap (s, adm) (snd (r_LPOP R (signal_key i u) s), adm)"
| step_time: "el s s' \<Longrightarrow> lim_step R look el decode i window limit cap (s, adm) (s', adm)"
| step_other: "(\<And>k. k \<in> own_keys i \<Longrightarrow> look s' k = look s k) \<Longrightarrow> r_TIME R s' = r_TIME R s \<Longrightarrow>
    lim_step R look el decode i window limit cap (s, adm) (s', adm)"

inductive lim_reachable :: "'s redis \<Rightarrow> ('s \<Rightarrow> keyspace) \<Rightarrow> ('s \<Rightarrow> 's \<Rightarrow> bool) \<Rightarrow> cjson \<Rightarrow> string \<Rightarrow> rat
    \<Rightarrow> int \<Rightarrow> int \<Rightarrow> 's \<times> int list \<Rightarrow> bool"
  for R look el decode i window limit cap where
  reach_start: "(\<And>k. k \<in> own_keys i \<Longrightarrow> look s k = None) \<Longrightarrow>
    lim_reachable R look el decode i window limit cap (s, [])"
| reach_step: "lim_reachable R look el decode i window limit cap x \<Longrightarrow>
    lim_step R look el decode i window limit cap x y \<Longrightarrow>
    lim_reachable R look el decode i window limit cap y"

section \<open>The invariant\<close>

text \<open>The counter of every fixed window is the number of admissions in it, until it expires, which is not before
  the end of the following window.\<close>

definition counters_exact :: "string \<Rightarrow> int \<Rightarrow> rat \<Rightarrow> int list \<Rightarrow> keyspace \<Rightarrow> bool" where
  "counters_exact i w clock adm K = (\<forall>q. \<bar>q * w\<bar> < 10 ^ 14 \<longrightarrow>
     (case K (window_key i (of_int (q * w))) of
        None \<Rightarrow> in_window w q adm = 0 \<or> of_int (q * w + 2 * w + 10000) \<le> clock
      | Some (v, d) \<Rightarrow> v = RCnt (int (in_window w q adm)) \<and> in_window w q adm \<noteq> 0
          \<and> (\<exists>e. d = Some e \<and> of_int (q * w + 2 * w + 10000) \<le> e)))"

definition lim_inv :: "'s redis \<Rightarrow> ('s \<Rightarrow> keyspace) \<Rightarrow> cjson \<Rightarrow> string \<Rightarrow> int \<Rightarrow> int \<Rightarrow> int
    \<Rightarrow> 's \<times> int list \<Rightarrow> bool" where
  "lim_inv R look decode i w limit cap x = (case x of (s, adm) \<Rightarrow>
     typed i (look s) \<and> buffer_ok i decode (look s)
     \<and> int (length (zset_of (look s (concurrency_key i)))) \<le> cap
     \<and> counters_exact i w (clock_ms R s) adm (look s)
     \<and> (\<forall>q. int (in_window w q adm) \<le> limit)
     \<and> (\<forall>t \<in> set adm. 0 \<le> t \<and> of_int t \<le> clock_ms R s))"

lemma div_window: "0 < (w :: int) \<Longrightarrow> t div w * w \<le> t \<and> t < t div w * w + w"
  using div_mult_mod_eq [of t w] pos_mod_bound [of w t] pos_mod_sign [of w t] by linarith

lemma counters_frame:
  "(\<And>x. K' (window_key i x) = K (window_key i x)) \<Longrightarrow>
    counters_exact i w c adm K' = counters_exact i w c adm K"
  by (simp add: counters_exact_def)

lemma counters_time:
  assumes "counters_exact i w c adm K" and le: "c \<le> c'"
  shows "counters_exact i w c' adm (\<lambda>k. alive_at c' (K k))"
  unfolding counters_exact_def
proof (intro allI impI)
  fix q assume q: "\<bar>q * w\<bar> < 10 ^ 14"
  let ?k = "window_key i (of_int (q * w))"
  from assms(1) q show "case alive_at c' (K ?k) of
        None \<Rightarrow> in_window w q adm = 0 \<or> of_int (q * w + 2 * w + 10000) \<le> c'
      | Some (v, d) \<Rightarrow> v = RCnt (int (in_window w q adm)) \<and> in_window w q adm \<noteq> 0
          \<and> (\<exists>e. d = Some e \<and> of_int (q * w + 2 * w + 10000) \<le> e)"
    using le unfolding counters_exact_def
    by (cases "K ?k") (force simp: alive_at_def)+
qed

text \<open>While a window is the current or the previous one, its counter is exact, expired or not.\<close>

lemma counters_read:
  assumes "counters_exact i w c adm K" and q: "\<bar>q * w\<bar> < 10 ^ 14" and c: "c < of_int (q * w + 2 * w + 10000)"
  shows "cnt_of (K (window_key i (of_int (q * w)))) = int (in_window w q adm)"
  using assms(1) q c unfolding counters_exact_def
  by (cases "K (window_key i (of_int (q * w)))") force+

lemma counters_admit:
  assumes ex: "counters_exact i w c adm K" and w: "0 < w" and now: "of_int now \<le> c" "c < of_int now + 1"
    and q: "now div w = q" "\<bar>q * w\<bar> < 10 ^ 14"
  shows "counters_exact i w c (adm @ [now])
    (K(window_key i (of_int (q * w)) \<mapsto>
        counted_entry (c + (2 * of_int w + 10000)) (K (window_key i (of_int (q * w))))))"
  unfolding counters_exact_def
proof (intro allI impI)
  fix p assume p: "\<bar>p * w\<bar> < 10 ^ 14"
  let ?k = "window_key i (of_int (q * w))" and ?k' = "window_key i (of_int (p * w))"
  have le: "q * w \<le> now" and lt: "now < q * w + w"
    using div_window [OF w, of now] q(1) by simp_all
  show "case (K(?k \<mapsto> counted_entry (c + (2 * of_int w + 10000)) (K ?k))) ?k' of
        None \<Rightarrow> in_window w p (adm @ [now]) = 0 \<or> of_int (p * w + 2 * w + 10000) \<le> c
      | Some (v, d) \<Rightarrow> v = RCnt (int (in_window w p (adm @ [now]))) \<and> in_window w p (adm @ [now]) \<noteq> 0
          \<and> (\<exists>e. d = Some e \<and> of_int (p * w + 2 * w + 10000) \<le> e)"
  proof (cases "p = q")
    case False
    then have "?k' \<noteq> ?k" using window_key_inject [OF p q(2)] w by simp
    then have "(K(?k \<mapsto> counted_entry (c + (2 * of_int w + 10000)) (K ?k))) ?k' = K ?k'" by (rule fun_upd_other)
    moreover have "in_window w p (adm @ [now]) = in_window w p adm" using False q(1) by simp
    ultimately show ?thesis using ex p unfolding counters_exact_def by presburger
  next
    case True
    have "of_int (now + 1) \<le> (of_int (q * w + 2 * w + 10000) :: rat)"
      using lt w by (subst of_int_le_iff) linarith
    then have cnt: "cnt_of (K ?k) = int (in_window w q adm)"
      using now(2) by (intro counters_read [OF ex q(2)]) simp
    have le': "of_int (q * w) \<le> c" using le now(1) by (meson of_int_le_iff order_trans)
    have "cnt_of (K ?k) \<noteq> 0 \<Longrightarrow> \<exists>e. ttl_of (K ?k) = Some e \<and> of_int (q * w + 2 * w + 10000) \<le> e"
      using ex q(2) unfolding counters_exact_def by (cases "K ?k") force+
    then show ?thesis using True cnt q(1) le' by (simp add: counted_entry_def)
  qed
qed

section \<open>Preservation\<close>

text \<open>What a call sees of the clock, and the counters at that moment.\<close>

context redis_server
begin

lemma now_clock: "of_int (lua_now_ms R s) \<le> clock_ms R s" "clock_ms R s < of_int (lua_now_ms R s) + 1"
    "0 \<le> lua_now_ms R s" "lua_now_ms R s < 10 ^ 14"
proof -
  obtain sec usec where t: "r_TIME R s = (sec, usec)" by force
  note b = TIME_range [OF t]
  have u: "usec = 1000 * (usec div 1000) + usec mod 1000" by simp
  have "rat_of_int usec = 1000 * of_int (usec div 1000) + of_int (usec mod 1000)"
    by (subst u) (simp only: of_int_add of_int_mult of_int_numeral)
  moreover have "of_int 0 \<le> (of_int (usec mod 1000) :: rat)" "of_int (usec mod 1000) < (of_int 1000 :: rat)"
    by (simp_all only: of_int_le_iff of_int_less_iff pos_mod_sign pos_mod_bound)
  ultimately show "of_int (lua_now_ms R s) \<le> clock_ms R s" "clock_ms R s < of_int (lua_now_ms R s) + 1"
    by (simp_all add: lua_now_ms_def clock_ms_def t field_simps)
  have "0 \<le> usec div 1000" "usec div 1000 < 1000" using b by auto
  then show "0 \<le> lua_now_ms R s" "lua_now_ms R s < 10 ^ 14" using b by (simp_all add: lua_now_ms_def t)
qed

lemma counters_now:
  fixes i w adm s
  defines "now \<equiv> lua_now_ms R s"
  assumes ex: "counters_exact i w (clock_ms R s) adm (look s)" and w: "0 < w" "w < 10 ^ 14"
  shows "ks_current i (of_int w) now (look s) = int (in_window w (now div w) adm)"
    and "ks_previous i (of_int w) now (look s) = int (in_window w (now div w - 1) adm)"
    and "\<bar>now div w * w\<bar> < 10 ^ 14"
proof -
  let ?q = "now div w"
  note b = now_clock [of s, folded now_def]
  have le: "?q * w \<le> now" and lt: "now < ?q * w + w" and nn: "0 \<le> ?q * w"
    using div_window [OF w(1), of now] b(3) w(1) by (simp_all add: pos_imp_zdiv_nonneg_iff)
  show small: "\<bar>?q * w\<bar> < 10 ^ 14" using le nn b(4) by linarith
  have prev: "\<bar>(?q - 1) * w\<bar> < 10 ^ 14" using le nn b(4) w by (simp add: left_diff_distrib abs_less_iff)
  have c: "clock_ms R s < of_int (now + 1)" using b(2) by simp
  have "now + 1 \<le> ?q * w + 2 * w + 10000" "now + 1 \<le> (?q - 1) * w + 2 * w + 10000"
    using lt w(1) by (simp_all add: left_diff_distrib)
  then have "of_int (now + 1) \<le> (of_int (?q * w + 2 * w + 10000) :: rat)"
    "of_int (now + 1) \<le> (of_int ((?q - 1) * w + 2 * w + 10000) :: rat)"
    by (simp_all only: of_int_le_iff)
  then have "clock_ms R s < of_int (?q * w + 2 * w + 10000)"
    "clock_ms R s < of_int ((?q - 1) * w + 2 * w + 10000)" using c by simp_all
  note rd = counters_read [OF ex small this(1)] counters_read [OF ex prev this(2)]
  show "ks_current i (of_int w) now (look s) = int (in_window w ?q adm)"
    using rd(1) by (simp add: ks_current_def)
  have "window_start (of_int w) now - of_int w = of_int ((?q - 1) * w)" by (simp add: left_diff_distrib)
  then show "ks_previous i (of_int w) now (look s) = int (in_window w (?q - 1) adm)"
    using rd(2) by (simp add: ks_previous_def)
qed

end

text \<open>One lemma per kind of step. The two admission steps first.\<close>

lemma window_ms_pos: "window_ms window = of_int w \<Longrightarrow> 0 < w \<Longrightarrow> 0 < window"
  by (simp add: window_ms_def)

lemma lim_inv_admit:
  assumes srv: "redis_server R look el" and w: "0 < w" "w < 10 ^ 14"
    and inv: "lim_inv R look decode i w limit cap (s, adm)"
    and t: "r_TIME R s' = r_TIME R s" and ty: "typed i (look s')" "buffer_ok i decode (look s')"
    and le: "int (length (zset_of (look s' (concurrency_key i)))) \<le> cap"
    and est: "ks_estimate i (of_int w) (lua_now_ms R s) (look s) < of_int lmt" and lmt: "lmt \<le> limit"
    and cnt: "\<And>x. look s' (window_key i x) =
      ((look s)(window_key i (window_start (of_int w) (lua_now_ms R s)) \<mapsto>
        counted_entry (clock_ms R s + (2 * of_int w + 10000))
          (look s (window_key i (window_start (of_int w) (lua_now_ms R s)))))) (window_key i x)"
  shows "lim_inv R look decode i w limit cap (s', adm @ [lua_now_ms R s])"
proof -
  let ?now = "lua_now_ms R s" and ?q = "lua_now_ms R s div w"
  have ex: "counters_exact i w (clock_ms R s) adm (look s)" using inv by (simp add: lim_inv_def)
  note b = redis_server.now_clock [OF srv, of s]
  note cn = redis_server.counters_now [OF srv ex w]
  have "counters_exact i w (clock_ms R s) (adm @ [?now]) (look s')"
    using counters_admit [OF ex w(1) b(1,2) refl cn(3)]
    by (subst counters_frame [where K = "(look s)(window_key i (window_start (of_int w) ?now) \<mapsto>
        counted_entry (clock_ms R s + (2 * of_int w + 10000))
          (look s (window_key i (window_start (of_int w) ?now))))", OF cnt]) simp
  moreover have "clock_ms R s' = clock_ms R s" using t by (simp add: clock_ms_def)
  moreover have "ks_current i (of_int w) ?now (look s) < lmt"
    using estimate_below_limit [of "of_int w" "ks_previous i (of_int w) ?now (look s)"] est w(1) cn(2)
    by (simp add: ks_estimate_def)
  then have "int (in_window w q (adm @ [?now])) \<le> limit" for q
    using inv cn(1) lmt by (auto simp: lim_inv_def)
  ultimately show ?thesis using inv ty le b by (auto simp: lim_inv_def)
qed

lemma lim_inv_frame:
  assumes inv: "lim_inv R look decode i w limit cap (s, adm)"
    and "r_TIME R s' = r_TIME R s" "typed i (look s')" "buffer_ok i decode (look s')"
    and "int (length (zset_of (look s' (concurrency_key i)))) \<le> cap"
    and "\<And>x. look s' (window_key i x) = look s (window_key i x)"
  shows "lim_inv R look decode i w limit cap (s', adm)"
  using inv assms(2-5) counters_frame [where K = "look s" and K' = "look s'", OF assms(6)]
  by (auto simp: lim_inv_def clock_ms_def)

lemma lim_inv_consume:
  assumes srv: "redis_server R look el" and w: "0 < w" "w < 10 ^ 14" and win: "window_ms window = of_int w"
    and inv: "lim_inv R look decode i w limit cap (s, adm)"
    and cfg: "config_of i window limit cap a" and run: "consume_lua R decode a s = (r, s')"
  shows "lim_inv R look decode i w limit cap (s', log_consume (lua_now_ms R s) r adm)"
proof -
  have a: "ca_window a = window" "args_for i a" and lmt: "ca_limit a \<le> limit" and cap: "ca_max_concurrency a \<le> cap"
    using cfg by (simp_all add: config_of_def)
  have "0 < window" by (rule window_ms_pos [OF win w(1)])
  then have ok: "call_ok i a" using a win by (simp add: call_ok_def)
  have ty: "typed i (look s)" and bo: "buffer_ok i decode (look s)"
    and le: "int (length (zset_of (look s (concurrency_key i)))) \<le> cap"
    using inv by (simp_all add: lim_inv_def)
  obtain t where r: "r = Inr t" and sp: "(t, look s') = spec_at R look i decode a s"
    and tm: "r_TIME R s' = r_TIME R s"
    by (rule consume_specE [OF srv ty ok bo run])
  have l: "look s' = snd (spec_at R look i decode a s)" using sp by (metis snd_conv)
  have ty': "typed i (look s')" unfolding l by (rule typed_consume_ks [OF ty])
  have bo': "buffer_ok i decode (look s')" by (rule buffer_ok_consume_ks [OF sp ty bo])
  have le': "int (length (zset_of (look s' (concurrency_key i)))) \<le> cap"
    unfolding l by (rule consume_ks_leases [OF ty le cap])
  note c = consume_ks_counters [OF sp, unfolded a(1) win]
  have ttl: "counter_ttl window = 2 * of_int w + 10000" by (simp add: counter_ttl_def win)
  show ?thesis
  proof (cases "cr_status t = 1")
    case True
    then show ?thesis
      using c by (auto simp: r log_consume_def ttl intro!: lim_inv_admit [OF srv w inv tm ty' bo' le' _ lmt])
  next
    case False
    then show ?thesis
      using c by (auto simp: r log_consume_def intro!: lim_inv_frame [OF inv tm ty' bo' le'])
  qed
qed

lemma lim_inv_acquire:
  assumes srv: "redis_server R look el" and w: "0 < w" "w < 10 ^ 14" and win: "window_ms window = of_int w"
    and inv: "lim_inv R look decode i w limit cap (s, adm)"
    and lmt: "lmt \<le> limit" and run: "acquire_lua R i window lmt s = (r, s')"
  shows "lim_inv R look decode i w limit cap (s', log_acquire (lua_now_ms R s) r adm)"
proof -
  have "0 < window" by (rule window_ms_pos [OF win w(1)])
  moreover have ty: "typed i (look s)" using inv by (simp add: lim_inv_def)
  moreover have "is_integral (window_ms window)" by (simp add: win)
  ultimately obtain a where run': "fst (acquire_lua R i window lmt s) = Inr a"
      "ar_allowed a = (if ks_estimate i (of_int w) (lua_now_ms R s) (look s) < of_int lmt then 1 else 0)"
    and l: "look s' = (if ks_estimate i (of_int w) (lua_now_ms R s) (look s) < of_int lmt
      then acquired_ks i window (lua_now_ms R s) (clock_ms R s) (look s) else look s)"
    and tm: "r_TIME R s' = r_TIME R s"
    using redis_server.acquire_spec [OF srv ty, of window lmt thesis, unfolded win] run by auto
  have ttl: "counter_ttl window = 2 * of_int w + 10000" by (simp add: counter_ttl_def win)
  show ?thesis
  proof (cases "ks_estimate i (of_int w) (lua_now_ms R s) (look s) < of_int lmt")
    case True
    then have l': "look s' = acquired_ks i window (lua_now_ms R s) (clock_ms R s) (look s)" by (simp add: l)
    have "lim_inv R look decode i w limit cap (s', adm @ [lua_now_ms R s])"
    proof (rule lim_inv_admit [OF srv w inv tm _ _ _ True lmt])
      show "typed i (look s')" "buffer_ok i decode (look s')"
        "int (length (zset_of (look s' (concurrency_key i)))) \<le> cap"
        using inv typed_counted [OF ty] by (simp_all add: l' acquired_ks_def Let_def buffer_ok_def lim_inv_def)
    qed (simp add: l' acquired_ks_def Let_def ttl win)
    with True run run' show ?thesis by (simp add: log_acquire_def)
  next
    case False
    then have "lim_inv R look decode i w limit cap (s', adm)"
      using inv by (intro lim_inv_frame [OF inv tm]) (simp_all add: l lim_inv_def)
    with False run run' show ?thesis by (simp add: log_acquire_def)
  qed
qed

text \<open>The steps that leave the counters alone.\<close>

lemma lim_inv_keys:
  assumes inv: "lim_inv R look decode i w limit cap (s, adm)" and tm: "r_TIME R s' = r_TIME R s"
    and ty: "typed i (look s')" and b: "look s' (buffer_key i) = look s (buffer_key i)"
    and c: "length (zset_of (look s' (concurrency_key i))) \<le> length (zset_of (look s (concurrency_key i)))"
    and k: "\<And>x. look s' (window_key i x) = look s (window_key i x)"
  shows "lim_inv R look decode i w limit cap (s', adm)"
  using inv b c by (intro lim_inv_frame [OF inv tm ty _ _ k]) (simp_all add: lim_inv_def buffer_ok_def)

lemma lim_inv_schedule:
  assumes srv: "redis_server R look el" and inv: "lim_inv R look decode i w limit cap (s, adm)"
    and td: "decode (inject_metadata js (of_int (lua_now_ms R s)) ov) = Some td" "member_ok i td"
  shows "lim_inv R look decode i w limit cap (schedule_lua R (buffer_key i) js p ov s, adm)"
proof -
  have ty: "typed i (look s)" using inv by (simp add: lim_inv_def)
  note sp = redis_server.schedule_spec [OF srv ty, of js p ov]
  have "list_all (\<lambda>e. case decode (snd e) of Some td \<Rightarrow> member_ok i td | None \<Rightarrow> False)
      (zadd p (inject_metadata js (of_int (lua_now_ms R s)) ov) (zset_of (look s (buffer_key i))))"
    using inv td by (auto simp: lim_inv_def buffer_ok_def list_all_iff set_zadd set_zrem)
  then show ?thesis
    using inv by (intro lim_inv_frame [OF inv])
      (simp_all add: sp typed_upd ty zinv_zadd typedD [OF ty] buffer_ok_def lim_inv_def)
qed

lemma lim_inv_renew:
  assumes srv: "redis_server R look el" and inv: "lim_inv R look decode i w limit cap (s, adm)"
  shows "lim_inv R look decode i w limit cap (snd (renew_lua R (concurrency_key i) u d s), adm)"
proof -
  have ty: "typed i (look s)" using inv by (simp add: lim_inv_def)
  let ?L = "zset_of (look s (concurrency_key i))"
  have "length (zadd sc u ?L) = length ?L" if "zscore ?L u \<noteq> None" for sc
    using zs.size_add [OF zinv_zset_of [OF typedD(2) [OF ty]]] that by simp
  then have "zscore ?L u \<noteq> None \<Longrightarrow> lim_inv R look decode i w limit cap
      (r_ZADD R (concurrency_key i) (of_int (fst (r_TIME R s) + d)) u s, adm)"
    by (intro lim_inv_keys [OF inv]) (simp_all add: redis_server.ZADD [OF srv] typedD [OF ty]
        typed_upd ty zinv_zadd redis_server.TIME_frozen [OF srv])
  then show ?thesis using inv by (simp add: redis_server.renew_spec [OF srv ty])
qed

lemma lim_inv_release:
  assumes srv: "redis_server R look el" and inv: "lim_inv R look decode i w limit cap (s, adm)" and u: "u \<noteq> []"
  shows "lim_inv R look decode i w limit cap
    (snd (release_lua R (concurrency_key i) (get_inflight_key i u) ch u wk s), adm)"
proof -
  have ty: "typed i (look s)" using inv by (simp add: lim_inv_def)
  obtain s' where e: "snd (release_lua R (concurrency_key i) (get_inflight_key i u) ch u wk s) = s'"
    and l: "look s' = (look s)(concurrency_key i := put_zset (zrem u (zset_of (look s (concurrency_key i))))
        (look s (concurrency_key i)), get_inflight_key i u := None)"
    and t: "r_TIME R s' = r_TIME R s"
    by (rule redis_server.release_spec [OF srv ty u, of ch wk]) simp
  show ?thesis
    unfolding e by (rule lim_inv_keys [OF inv t])
      (simp_all add: l typed_upd ty zinv_zrem typedD [OF ty], simp add: zrem_def)
qed

lemma lim_inv_claim:
  assumes srv: "redis_server R look el" and inv: "lim_inv R look decode i w limit cap (s, adm)" and "0 < ex"
  shows "lim_inv R look decode i w limit cap (snd (r_SET_NX_EX R (get_inflight_key i u) v ex s), adm)"
proof -
  have ty: "typed i (look s)" using inv by (simp add: lim_inv_def)
  note l = conjunct2 [OF redis_server.SET_NX_EX [OF srv assms(3), of "get_inflight_key i u" v s]]
  show ?thesis
    by (rule lim_inv_keys [OF inv]) (simp_all add: redis_server.TIME_frozen [OF srv] l ty typed_upd(7))
qed

lemma lim_inv_unclaim:
  assumes srv: "redis_server R look el" and inv: "lim_inv R look decode i w limit cap (s, adm)"
  shows "lim_inv R look decode i w limit cap (snd (r_DEL R (get_inflight_key i u) s), adm)"
proof -
  have ty: "typed i (look s)" using inv by (simp add: lim_inv_def)
  note l = conjunct2 [OF redis_server.DEL [OF srv, of "get_inflight_key i u" s]]
  show ?thesis
    by (rule lim_inv_keys [OF inv]) (simp_all add: redis_server.TIME_frozen [OF srv] l ty)
qed

lemma lim_inv_pop:
  assumes srv: "redis_server R look el" and inv: "lim_inv R look decode i w limit cap (s, adm)"
  shows "lim_inv R look decode i w limit cap (snd (r_LPOP R (signal_key i u) s), adm)"
proof -
  have ty: "typed i (look s)" using inv by (simp add: lim_inv_def)
  note l = conjunct2 [OF redis_server.LPOP [OF srv typedD(8) [OF ty], of u]]
  show ?thesis
    by (rule lim_inv_keys [OF inv]) (simp_all add: redis_server.TIME_frozen [OF srv] l ty typed_upd(8))
qed

lemma lim_inv_time:
  assumes srv: "redis_server R look el" and inv: "lim_inv R look decode i w limit cap (s, adm)" and el: "el s s'"
  shows "lim_inv R look decode i w limit cap (s', adm)"
proof -
  have c: "clock_ms R s \<le> clock_ms R s'" and l: "look s' = (\<lambda>k. alive_at (clock_ms R s') (look s k))"
    using redis_server.elapses [OF srv el] by auto
  have "zset_of (alive_at (clock_ms R s') (look s k)) \<in> {[], zset_of (look s k)}" for k
    by (auto simp: alive_at_def split: option.splits)
  then have "length (zset_of (look s' (concurrency_key i))) \<le> length (zset_of (look s (concurrency_key i)))"
    unfolding l by (metis empty_iff insert_iff le_zero_eq length_0_conv nat_le_linear)
  moreover have "counters_exact i w (clock_ms R s') adm (look s')"
    using inv c counters_time [of i w "clock_ms R s" adm "look s"] by (simp add: l lim_inv_def)
  ultimately show ?thesis
    using inv c typed_alive buffer_ok_alive by (auto simp: lim_inv_def l intro: order_trans)
qed

lemma lim_inv_other:
  assumes inv: "lim_inv R look decode i w limit cap (s, adm)"
    and k: "\<And>k. k \<in> own_keys i \<Longrightarrow> look s' k = look s k" and t: "r_TIME R s' = r_TIME R s"
  shows "lim_inv R look decode i w limit cap (s', adm)"
proof (rule lim_inv_keys [OF inv t])
  have "typed i (look s)" using inv by (simp add: lim_inv_def)
  then show "typed i (look s')" using k by (simp add: typed_def own_keys_def)
qed (simp_all add: k own_keys_def)

lemma lim_inv_step:
  assumes srv: "redis_server R look el" and w: "0 < w" "w < 10 ^ 14" and win: "window_ms window = of_int w"
    and "lim_step R look el decode i window limit cap x y" and "lim_inv R look decode i w limit cap x"
  shows "lim_inv R look decode i w limit cap y"
  using assms(5,6)
proof cases
  case (step_consume a s r s' adm)
  then show ?thesis using lim_inv_consume [OF srv w win] assms(6) by simp
next
  case (step_acquire lmt s r s' adm)
  then show ?thesis using lim_inv_acquire [OF srv w win] assms(6) by simp
next
  case (step_schedule js s ov td adm p)
  then show ?thesis using lim_inv_schedule [OF srv] assms(6) by simp
next
  case (step_claim ex s adm u v)
  then show ?thesis using lim_inv_claim [OF srv] assms(6) by simp
next
  case (step_unclaim s adm u)
  then show ?thesis using lim_inv_unclaim [OF srv] assms(6) by simp
next
  case (step_renew s adm u d)
  then show ?thesis using lim_inv_renew [OF srv] assms(6) by simp
next
  case (step_release u s adm wk)
  then show ?thesis using lim_inv_release [OF srv] assms(6) by simp
next
  case (step_pop_signal s adm u)
  then show ?thesis using lim_inv_pop [OF srv] assms(6) by simp
next
  case (step_time s s' adm)
  then show ?thesis using lim_inv_time [OF srv] assms(6) by simp
next
  case (step_other s' s adm)
  then show ?thesis using lim_inv_other assms(6) by (metis (no_types, lifting))
qed

lemma lim_inv_reachable:
  assumes "redis_server R look el" and "0 < w" "w < 10 ^ 14" and "window_ms window = of_int w"
    and "0 \<le> limit" "0 \<le> cap" and "lim_reachable R look el decode i window limit cap x"
  shows "lim_inv R look decode i w limit cap x"
  using assms(7)
proof induction
  case (reach_start s)
  then have "look s (window_key i q) = None" "typed i (look s)" "look s (concurrency_key i) = None"
    "look s (buffer_key i) = None" for q by (simp_all add: own_keys_def typed_def)
  then show ?case using assms(5,6) by (simp add: lim_inv_def counters_exact_def buffer_ok_def)
next
  case (reach_step x y)
  then show ?case using lim_inv_step [OF assms(1-4)] by blast
qed

text \<open>A run: a task is scheduled on an empty server and consumed.\<close>

definition demo_decode_any :: cjson where
  "demo_decode_any raw = Some demo_task"

definition demo_scheduled :: mem where
  "demo_scheduled = schedule_lua mem_redis (buffer_key ''lim'') ''{}'' 5 None (mem_start 1700000000)"

definition demo_served :: mem where
  "demo_served = snd (consume_lua mem_redis demo_decode_any demo_args demo_scheduled)"

lemma demo_scheduled_time [simp]: "mem_TIME demo_scheduled = (1700000000, 0)"
  by (simp add: demo_scheduled_def schedule_lua_def mem_start_def mem_TIME_def)

lemma demo_served_time [simp]: "lua_now_ms mem_redis demo_served = 1700000000000"
  by (simp add: demo_served_def script_run demo_args_def demo_decode_any_def demo_task_def acquire_marker_def
      demo_scheduled_def schedule_lua_def mem_start_def mem_TIME_def)

lemma demo_served_status:
  "\<exists>t. fst (consume_lua mem_redis demo_decode_any demo_args demo_scheduled) = Inr t \<and> cr_status t = 1"
  by (simp add: script_run demo_args_def demo_decode_any_def demo_task_def acquire_marker_def
      demo_scheduled_def schedule_lua_def mem_start_def mem_TIME_def)

lemma demo_reachable:
  "lim_reachable mem_redis ks mem_elapses demo_decode_any ''lim'' 1 2 1 (demo_served, [1700000000000])"
proof -
  let ?R = "lim_reachable mem_redis ks mem_elapses demo_decode_any ''lim'' 1 2 1"
  have "?R (mem_start 1700000000, [])" by (rule reach_start) (simp add: mem_start_def)
  moreover have "member_ok ''lim'' demo_task" by (simp add: member_ok_def demo_task_def acquire_marker_def)
  ultimately have "?R (demo_scheduled, [])"
    unfolding demo_scheduled_def
    by (intro reach_step [OF _ step_schedule]) (simp_all add: demo_decode_any_def)
  moreover have "config_of ''lim'' 1 2 1 demo_args" by (simp add: config_of_def args_for_def demo_args_def)
  ultimately have "?R (demo_served, log_consume (lua_now_ms mem_redis demo_scheduled)
      (fst (consume_lua mem_redis demo_decode_any demo_args demo_scheduled)) [])"
    unfolding demo_served_def by (intro reach_step [OF _ step_consume]) simp_all
  moreover have "lua_now_ms mem_redis demo_scheduled = 1700000000000" by (simp add: lua_now_ms_def)
  ultimately show ?thesis using demo_served_status by (auto simp: log_consume_def)
qed

section \<open>Properties\<close>

text \<open>C6. The rate guarantee of the whole system. However many workers call \<^verbatim>\<open>consume.lua\<close> and \<^verbatim>\<open>acquire.lua\<close> in
  whatever order, in every reachable state the number of admissions in any fixed window is at most
  the limit, and the number in any interval of one window length, wherever it starts, is at most
  twice the limit. The limit is the largest that some worker uses: the bounds hold while a changed
  limit has reached only some of the workers.\<close>

theorem system_rate_bound:
  assumes "redis_server R look el" "0 < w" "w < 10 ^ 14" "window_ms window = of_int w" "0 \<le> limit" "0 \<le> cap"
    and "lim_reachable R look el decode i window limit cap (s, adm)"
  shows "int (in_window w q adm) \<le> limit \<and> int (in_interval a w adm) \<le> 2 * limit"
proof -
  have le: "int (in_window w q adm) \<le> limit" for q
    using lim_inv_reachable [OF assms] by (simp add: lim_inv_def)
  then have "in_window w q adm \<le> nat limit" for q by (metis nat_int nat_mono)
  then have "in_interval a w adm \<le> 2 * nat limit" by (rule in_interval_le [OF assms(2)])
  then have "int (in_interval a w adm) \<le> 2 * limit" using assms(5) by linarith
  then show ?thesis using le by simp
qed

theorem system_rate_bound_witness:
  "int (in_window 1000 1700000000 [1700000000000]) \<le> 2 \<and> int (in_interval 1699999999500 1000 [1700000000000]) \<le> 4"
proof -
  have "redis_server mem_redis ks mem_elapses" by (rule mem.redis_server_axioms)
  then show ?thesis
    using system_rate_bound [OF _ _ _ _ _ _ demo_reachable, where w = 1000]
    by (simp add: window_ms_def)
qed

text \<open>C7. The concurrency guarantee of the whole system: in every reachable state at most \<^verbatim>\<open>max_concurrency\<close>
  tasks hold a lease, where the workers may use different values and the largest counts.\<close>

theorem system_concurrency_bound:
  assumes "redis_server R look el" "0 < w" "w < 10 ^ 14" "window_ms window = of_int w" "0 \<le> limit" "0 \<le> cap"
    and "lim_reachable R look el decode i window limit cap (s, adm)"
  shows "int (length (zset_of (look s (concurrency_key i)))) \<le> cap"
  using lim_inv_reachable [OF assms] by (simp add: lim_inv_def)

theorem system_concurrency_bound_witness:
  "int (length (zset_of (ks demo_served (concurrency_key ''lim'')))) \<le> 1"
proof -
  have "redis_server mem_redis ks mem_elapses" by (rule mem.redis_server_axioms)
  then show ?thesis
    using system_concurrency_bound [OF _ _ _ _ _ _ demo_reachable, where w = 1000]
    by (simp add: window_ms_def)
qed

text \<open>C8. The counters never lie, expiry included: in every reachable state the two counters that a script reads
  are exactly the numbers of admissions in the current and in the previous fixed window, so the
  estimate compared with the limit is the sliding-window blend of the true admission history.\<close>

theorem system_counters_exact:
  assumes "redis_server R look el" "0 < w" "w < 10 ^ 14" "window_ms window = of_int w" "0 \<le> limit" "0 \<le> cap"
    and "lim_reachable R look el decode i window limit cap (s, adm)"
  shows "read_count R (current_key R i (window_ms window) s) s = int (in_window w (lua_now_ms R s div w) adm)
    \<and> read_count R (previous_key R i (window_ms window) s) s = int (in_window w (lua_now_ms R s div w - 1) adm)"
proof -
  have inv: "typed i (look s)" "counters_exact i w (clock_ms R s) adm (look s)"
    using lim_inv_reachable [OF assms] by (simp_all add: lim_inv_def)
  note rc = redis_server.read_count [OF assms(1) typedD(6) [OF inv(1)]]
  show ?thesis
    using redis_server.counters_now [OF assms(1) inv(2) assms(2,3)]
    by (simp add: current_key_def previous_key_def rc assms(4) ks_current_def ks_previous_def)
qed

theorem system_counters_exact_witness:
  "read_count mem_redis (current_key mem_redis ''lim'' 1000 demo_served) demo_served = 1"
proof -
  have "redis_server mem_redis ks mem_elapses" by (rule mem.redis_server_axioms)
  then show ?thesis
    using system_counters_exact [OF _ _ _ _ _ _ demo_reachable, where w = 1000]
    by (simp add: window_ms_def)
qed

end
