(* ===== verification/Mem_Client.thy ===== *)
theory Mem_Client
  imports Client
begin

text \<open>
  An executable client on the in-memory server: a connection that can be lost before or after the server has
  executed a command, and a script cache that can have been flushed. It satisfies the laws of
  \<open>redis_client\<close>, and the concrete runs of the limiter's methods use it.
\<close>

datatype link = Up | LostBefore | LostAfter

record conn =
  cn_mem :: mem
  cn_loaded :: "string list"
  cn_links :: "link list"

definition mem_files :: "string \<Rightarrow> string \<Rightarrow> exn + string" where
  "mem_files p n = (if p = ''redis_rate_limiter.lua'' then Inr (''-- '' @ n) else Inl ModuleNotFoundError)"

definition mem_source :: "string \<Rightarrow> string" where
  "mem_source n = ''-- '' @ n"

definition mem_sha1 :: "string \<Rightarrow> string" where
  "mem_sha1 t = ''sha:'' @ t"

definition link_of :: "conn \<Rightarrow> link" where
  "link_of c = (case cn_links c of [] \<Rightarrow> Up | l # _ \<Rightarrow> l)"

definition used :: "conn \<Rightarrow> conn" where
  "used c = c\<lparr>cn_links := tl (cn_links c)\<rparr>"

definition mem_cmd :: "(mem \<Rightarrow> 'a \<times> mem) \<Rightarrow> (conn, 'a) py" where
  "mem_cmd f c = (case link_of c of
     Up \<Rightarrow> (case f (cn_mem c) of (x, s) \<Rightarrow> (Inr x, (used c)\<lparr>cn_mem := s\<rparr>))
   | LostBefore \<Rightarrow> (Inl RedisConnectionError, used c)
   | LostAfter \<Rightarrow> (Inl RedisConnectionError, (used c)\<lparr>cn_mem := snd (f (cn_mem c))\<rparr>))"

definition mem_script_load :: "string \<Rightarrow> (conn, string) py" where
  "mem_script_load t c = (case link_of c of
     Up \<Rightarrow> (Inr (mem_sha1 t), (used c)\<lparr>cn_loaded := mem_sha1 t # cn_loaded c\<rparr>)
   | _ \<Rightarrow> (Inl RedisConnectionError, used c))"

definition mem_evalsha :: "cjson \<Rightarrow> string \<Rightarrow> script_call \<Rightarrow> (conn, reply) py" where
  "mem_evalsha decode sha call c =
     (if sha \<notin> set (cn_loaded c)
      then (if link_of c = Up then Inl NoScriptError else Inl RedisConnectionError, used c)
      else (case mem_cmd (run_script mem_redis decode call) c of
              (Inl e, c') \<Rightarrow> (Inl e, c') | (Inr (Inl e), c') \<Rightarrow> (Inl e, c') | (Inr (Inr x), c') \<Rightarrow> (Inr x, c')))"

definition mem_client :: "cjson \<Rightarrow> conn client" where
  "mem_client decode = \<lparr>
     c_script_load = mem_script_load,
     c_evalsha = mem_evalsha decode,
     c_set_nx_ex = (\<lambda>k v ex. mem_cmd (r_SET_NX_EX mem_redis k v ex)),
     c_delete = (\<lambda>k. mem_cmd (r_DEL mem_redis k)),
     c_zcard = (\<lambda>k. mem_cmd (\<lambda>s. (r_ZCARD mem_redis k s, s))),
     c_publish = (\<lambda>ch v. mem_cmd (\<lambda>s. ((), r_PUBLISH mem_redis ch v s))),
     c_blpop = (\<lambda>k t. mem_cmd (r_LPOP mem_redis k)),
     c_subscribe = (\<lambda>ch. mem_cmd (\<lambda>s. ((), s))),
     c_unsubscribe = mem_cmd (\<lambda>s. ((), s)),
     c_hget = (\<lambda>k f. mem_cmd (\<lambda>s. (r_HGET mem_redis k f s, s))),
     c_hset = (\<lambda>k f h. mem_cmd (\<lambda>s. ((), r_HSET mem_redis k f h s))),
     c_hincrby = (\<lambda>k f. mem_cmd (r_HINCRBY mem_redis k f))\<rparr>"

lemma used_fields [simp]: "cn_mem (used c) = cn_mem c" "cn_loaded (used c) = cn_loaded c" "cn_links (used c) = tl (cn_links c)"
  by (simp_all add: used_def)

lemma mem_cmd_performs: "performs cn_mem (\<lambda>c. set (cn_loaded c)) (mem_cmd f) f"
  by (auto simp: performs_def mem_cmd_def split: link.splits prod.splits)

lemma mem_refusal:
  "fst (mem_SET_PX k v ttl s) \<noteq> Inl NoScriptError" "fst (mem_PEXPIRE k ttl s) \<noteq> Inl NoScriptError"
  by (simp_all add: mem_SET_PX_def mem_PEXPIRE_def)

lemma count_no_script: "fst (count_admission mem_redis k ttl n s) \<noteq> Inl NoScriptError"
  by (simp add: count_admission_def Let_def mem_refusal)

lemma signal_no_script: "fst (consume_signal mem_redis a td s) \<noteq> Inl NoScriptError"
  by (simp add: consume_signal_def Let_def mem_refusal split: option.split)

lemma fst_not: "p = (a, b) \<Longrightarrow> fst p \<noteq> c \<Longrightarrow> a \<noteq> c"
  by simp

lemma admit_no_script: "fst (consume_admit mem_redis a raw td t s) \<noteq> Inl NoScriptError"
  by (auto simp: consume_admit_def Let_def split: prod.split sum.split
      dest: fst_not [OF _ count_no_script] fst_not [OF _ signal_no_script] fst_not [OF _ mem_refusal(1)])

lemma consume_no_script: "fst (consume_lua mem_redis decode a s) \<noteq> Inl NoScriptError"
proof -
  have h: "fst (consume_head mem_redis a raw td t s) \<noteq> Inl NoScriptError" for raw td t s
    by (simp add: consume_head_def Let_def admit_no_script split: prod.split)
  have "fst (consume_attempt mem_redis decode a n s) \<noteq> Inl NoScriptError" for n s
    by (simp add: consume_attempt_def Let_def h del: mem_cmds split: option.split)
  then show ?thesis
    by (auto simp: consume_lua_def Let_def split: prod.split sum.split dest: fst_not [OF _ mem_refusal(1)])
qed

lemma acquire_no_script: "fst (acquire_lua mem_redis b w n s) \<noteq> Inl NoScriptError"
  by (auto simp: acquire_lua_def Let_def split: prod.split sum.split dest: fst_not [OF _ count_no_script])

lemma run_script_not_lost: "fst (run_script mem_redis decode call s) \<noteq> Inl NoScriptError"
proof (cases call)
  case (CallConsume a)
  then show ?thesis using consume_no_script [of decode a s]
    by (cases "consume_lua mem_redis decode a s"; cases "fst (consume_lua mem_redis decode a s)") (auto simp: run_script_def)
next
  case (CallAcquire b w n)
  then show ?thesis using acquire_no_script [of b w n s]
    by (cases "acquire_lua mem_redis b w n s"; cases "fst (acquire_lua mem_redis b w n s)") (auto simp: run_script_def)
qed (simp_all add: run_script_def split: prod.split)

interpretation mc: redis_client mem_redis decode "mem_client decode" cn_mem "\<lambda>c. set (cn_loaded c)"
    mem_files mem_source mem_sha1
proof unfold_locales
  fix call c r c'
  assume "mem_sha1 (mem_source (script_of call)) \<in> set (cn_loaded c)"
    and "c_evalsha (mem_client decode) (mem_sha1 (mem_source (script_of call))) call c = (r, c')"
  then show "set (cn_loaded c') = set (cn_loaded c) \<and> r \<noteq> Inl NoScriptError \<and>
      ((r, cn_mem c') = run_script mem_redis decode call (cn_mem c) \<or>
       r = Inl RedisConnectionError \<and> (cn_mem c' = cn_mem c \<or> cn_mem c' = snd (run_script mem_redis decode call (cn_mem c))))"
    using run_script_not_lost [of decode call "cn_mem c"]
    by (auto simp: mem_client_def mem_evalsha_def mem_cmd_def split: link.splits prod.splits sum.splits)
qed (auto simp: mem_client_def mem_files_def mem_source_def mem_script_load_def mem_evalsha_def mem_cmd_performs
      split: link.splits if_splits)

lemmas mem_client_run = mem_client_def mem_evalsha_def mem_script_load_def mem_cmd_def link_of_def used_def

section \<open>Script calls\<close>

text \<open>C16. A script call of the limiter (\<^verbatim>\<open>eval_script\<close>) executes its Lua script exactly once on the server and
  returns its reply, also when the server has lost its script cache: the \<^verbatim>\<open>NOSCRIPT\<close> answer is caught, the
  script is loaded again and the call repeated, and \<^verbatim>\<open>NoScriptError\<close> never reaches the caller. The only other
  outcome is a connection error, after which the script has run at most once. The local caches stay right.\<close>

theorem eval_script_once:
  assumes "redis_client R decode C srv loaded files source sha1" "caches_ok source sha1 w"
    and "eval_script files C call w = (r, w')"
  shows "caches_ok source sha1 w' \<and> ((r, srv (s_conn w')) = run_script R decode call (srv (s_conn w)) \<or>
    r = Inl RedisConnectionError \<and>
      (srv (s_conn w') = srv (s_conn w) \<or> srv (s_conn w') = snd (run_script R decode call (srv (s_conn w)))))"
  using redis_client.eval_cases [OF assms] .

definition demo_flushed :: "conn scripts" where
  "demo_flushed = \<lparr>s_conn = \<lparr>cn_mem = mem_start 1700000000, cn_loaded = [], cn_links = []\<rparr>, s_sources = Map.empty,
     s_shas = [''renew.lua'' \<mapsto> mem_sha1 (mem_source ''renew.lua'')]\<rparr>"

lemma demo_flushed_ok: "caches_ok mem_source mem_sha1 demo_flushed"
  by (simp add: caches_ok_def demo_flushed_def)

theorem eval_script_once_witness:
  "fst (eval_script mem_files (mem_client (\<lambda>_. None)) (CallRenew ''lim:concurrency'' ''t1'' 30) demo_flushed) = Inr (RepInt 0) \<and>
   caches_ok mem_source mem_sha1
     (snd (eval_script mem_files (mem_client (\<lambda>_. None)) (CallRenew ''lim:concurrency'' ''t1'' 30) demo_flushed))"
  using eval_script_once [OF mc.redis_client_axioms demo_flushed_ok, of "\<lambda>_. None" "CallRenew ''lim:concurrency'' ''t1'' 30"]
  by (simp add: eval_script_def evalsha_cached_def register_script_def py_simps lookup_key_def on_conn_def Let_def
      demo_flushed_def script_of_def mem_client_run mem_sha1_def mem_source_def mem_files_def default_resource_packages_def
      run_script_def renew_lua_def mem_start_def zscore_def)

text \<open>A server that does not keep its scripts is outside the laws of \<open>redis_client\<close>; what \<^verbatim>\<open>_eval_script\<close> does then needs none of
  them. If every \<^verbatim>\<open>EVALSHA\<close> is refused, with the known hash and with the one of the reloaded script, the call ends with \<^verbatim>\<open>RuntimeError\<close>
  after exactly one reload between exactly two attempts, and the new hash is remembered.\<close>

lemma eval_script_gives_up:
  assumes "\<And>h c. c_evalsha C h call c = (Inl NoScriptError, refused h c)" "\<And>t c. c_script_load C t c = (Inr (sha t), loaded t c)"
    and "s_sources w (script_of call) = Some t" "s_shas w (script_of call) = Some h"
  shows "eval_script files C call w = (Inl RuntimeError, w\<lparr>s_conn := refused (sha t) (loaded t (refused h (s_conn w))),
      s_shas := (s_shas w)(script_of call \<mapsto> sha t)\<rparr>)"
proof -
  have d: "script_of call \<in> dom (s_shas w)" "script_of call \<in> dom (s_sources w)" using assms(3,4) by auto
  then show ?thesis
    using assms by (simp add: eval_script_def evalsha_cached_def register_script_def py_simps lookup_key_def on_conn_def Let_def)
qed

end
