(* ===== verification/Distributed_Props.thy ===== *)
theory Distributed_Props
  imports Distributed Config_Props System Mem_Client
begin

text \<open>
  The guarantees of the synchronous limiter's methods: what they do to the server and to the instance on every
  outcome, connection errors included.
\<close>

section \<open>Running commands and scripts\<close>

text \<open>Only the connection and the script caches change.\<close>

definition local_same :: "'c world \<Rightarrow> 'c world \<Rightarrow> bool" where
  "local_same w w' = (w' = w\<lparr>w_scripts := w_scripts w'\<rparr>)"

lemma local_sameD:
  assumes "local_same w w'"
  shows "w_lim w' = w_lim w" "w_clk w' = w_clk w" "w_loop w' = w_loop w" "w_hb w' = w_hb w" "w_time w' = w_time w"
  using assms unfolding local_same_def by (metis world.select_convs world.surjective world.update_convs(1))+

lemma local_same_refl [simp]: "local_same w w" "local_same w (w\<lparr>w_scripts := s\<rparr>)"
  by (simp_all add: local_same_def)

lemma schedule_drain_eq:
  "schedule_drain d w = (Inr (), case w_loop w of None \<Rightarrow> w
     | Some l \<Rightarrow> w\<lparr>w_loop := Some (fst (loop_wake (w_clk w) d l))\<rparr>)"
  by (simp add: schedule_drain_def py_simps)

lemma schedule_drain_scripts [simp]: "w_scripts (snd (schedule_drain d w)) = w_scripts w"
    "w_lim (snd (schedule_drain d w)) = w_lim w" "w_hb (snd (schedule_drain d w)) = w_hb w"
  by (simp_all add: schedule_drain_eq split: option.split)

lemma schedule_drain_wakes:
  "w_loop w = Some l \<Longrightarrow> \<exists>l' t. w_loop (snd (schedule_drain d w)) = Some l' \<and> dl_alive l' \<and>
     dl_next_wake l' = Some t \<and> t \<le> w_clk w + d"
  by (auto simp: schedule_drain_eq loop_wake_def loop_request_def loop_ensure_started_def split: option.splits if_splits)

lemma emit_metric_ok:
  assumes "\<And>d w. w_scripts (snd (e_callback E d w)) = w_scripts w"
  shows "\<exists>w'. emit_metric E d w = (Inr (), w') \<and> w_scripts w' = w_scripts w"
proof -
  obtain r w1 where c: "e_callback E d w = (r, w1)" by force
  then have "w_scripts w1 = w_scripts w" using assms [of d w] by simp
  then show ?thesis using c
    by (cases r) (auto simp: emit_metric_def py_simps)
qed

lemma redis_cases:
  assumes "performs srv loaded m f" "on_redis m w = (r, w')"
  shows "local_same w w' \<and> (caches_ok src h (w_scripts w) \<longrightarrow> caches_ok src h (w_scripts w')) \<and>
    (case r of Inr x \<Rightarrow> (x, server_of srv w') = f (server_of srv w)
     | Inl e \<Rightarrow> e = RedisConnectionError \<and>
         (server_of srv w' = server_of srv w \<or> server_of srv w' = snd (f (server_of srv w))))"
proof -
  obtain c where c: "m (s_conn (w_scripts w)) = (r, c)" and w': "w' = w\<lparr>w_scripts := (w_scripts w)\<lparr>s_conn := c\<rparr>\<rparr>"
    using assms(2) by (auto simp: on_redis_def on_scripts_def on_conn_def split: prod.splits)
  show ?thesis using assms(1) c unfolding performs_def w'
    by (auto simp: server_of_def split: sum.splits)
qed

lemma script_cases:
  assumes cl: "redis_client R decode (e_client E) srv loaded (e_files E) source sha1"
    and ok: "caches_ok source sha1 (w_scripts w)" and run: "call_script E call w = (r, w')"
  shows "local_same w w' \<and> caches_ok source sha1 (w_scripts w') \<and>
    ((r, server_of srv w') = run_script R decode call (server_of srv w) \<or>
     r = Inl RedisConnectionError \<and> (server_of srv w' = server_of srv w \<or>
       server_of srv w' = snd (run_script R decode call (server_of srv w))))"
proof -
  obtain s where s: "eval_script (e_files E) (e_client E) call (w_scripts w) = (r, s)" and w': "w' = w\<lparr>w_scripts := s\<rparr>"
    using run by (auto simp: call_script_def on_scripts_def split: prod.splits)
  show ?thesis using redis_client.eval_cases [OF cl ok s] by (simp add: w' server_of_def)
qed

section \<open>Leases\<close>

lemma run_renew: "run_script R decode (CallRenew c u d) s = (Inr (RepInt (fst (renew_lua R c u d s))), snd (renew_lua R c u d s))"
  by (simp add: run_script_def split: prod.split)

lemma run_release: "run_script R decode (CallRelease c k ch u wk) s =
    (Inr (RepPair (fst (release_lua R c k ch u wk s))), snd (release_lua R c k ch u wk s))"
  by (simp add: run_script_def split: prod.split)

lemma run_schedule: "run_script R decode (CallSchedule k js p ov) s = (Inr RepNil, schedule_lua R k js p ov s)"
  by (simp add: run_script_def)

lemma py_bind_get: "py_bind (py_get g) f w = f (g w) w"
  by (simp add: py_simps)

lemma extend_lease_cases:
  assumes cl: "redis_client R decode (e_client E) srv loaded (e_files E) source sha1"
    and ok: "caches_ok source sha1 (w_scripts w)" and run: "extend_lease E u d w = (r, w')"
  shows "local_same w w' \<and> caches_ok source sha1 (w_scripts w') \<and>
    (r = Inl RedisConnectionError \<or>
     server_of srv w' = snd (renew_lua R (concurrency_key (l_id (w_lim w))) u d (server_of srv w)) \<and>
     r = (if fst (renew_lua R (concurrency_key (l_id (w_lim w))) u d (server_of srv w)) = 1 then Inr () else Inl KeyError))"
proof -
  let ?call = "CallRenew (concurrency_key (l_id (w_lim w))) u d"
  obtain q w1 where c: "call_script E ?call w = (q, w1)" by force
  have un: "extend_lease E u d w = (case q of Inl e \<Rightarrow> (Inl e, w1)
      | Inr rep \<Rightarrow> (case rep of RepInt n \<Rightarrow> (if n \<noteq> 1 then py_raise KeyError else py_return ()) | _ \<Rightarrow> py_raise TypeError) w1)"
    by (simp add: extend_lease_def py_bind_get, simp add: py_bind_def c split: sum.split)
  from script_cases [OF cl ok c] un run show ?thesis
    by (auto simp: run_renew py_simps split: if_splits)
qed

lemma lifecycle_exit_cases:
  assumes cl: "redis_client R decode (e_client E) srv loaded (e_files E) source sha1"
    and ok: "caches_ok source sha1 (w_scripts w)" and u: "lc_task_id lc = u" "u \<noteq> []"
    and run: "lifecycle_exit E lc w = (r, w')"
  defines "rel \<equiv> release_lua R (concurrency_key (l_id (w_lim w))) (get_inflight_key (l_id (w_lim w)) u)
      (drain_signal_channel (l_id (w_lim w))) u (l_worker_id (w_lim w)) (server_of srv w)"
  shows "caches_ok source sha1 (w_scripts w') \<and> w_hb w' = hb_deregister u (w_hb w)
    \<and> (\<exists>w1. w_loop w1 = w_loop w \<and> w_clk w1 = w_clk w \<and> w' = snd (schedule_drain 0 w1))
    \<and> (r = Inr () \<and> server_of srv w' = snd rel
       \<or> r = Inl RedisConnectionError \<and> (server_of srv w' = server_of srv w \<or> server_of srv w' = snd rel))"
proof -
  let ?w = "w\<lparr>w_hb := hb_deregister u (w_hb w)\<rparr>"
  let ?call = "CallRelease (concurrency_key (l_id (w_lim w))) (get_inflight_key (l_id (w_lim w)) u)
      (drain_signal_channel (l_id (w_lim w))) u (l_worker_id (w_lim w))"
  obtain q w1 where c: "call_script E ?call ?w = (q, w1)" by force
  have ok': "caches_ok source sha1 (w_scripts ?w)" using ok by simp
  note sc = script_cases [OF cl ok' c]
  have sv: "server_of srv ?w = server_of srv w" by (simp add: server_of_def)
  note ls = local_sameD [OF conjunct1 [OF sc]]
  have un: "lifecycle_exit E lc w = (case (case q of Inl e \<Rightarrow> (Inl e, w1)
        | Inr rep \<Rightarrow> (case rep of RepPair _ \<Rightarrow> py_return () | _ \<Rightarrow> py_raise TypeError) w1) of
      (x, v) \<Rightarrow> (case schedule_drain 0 v of (Inl e, v') \<Rightarrow> (Inl e, v') | (Inr _, v') \<Rightarrow> (x, v')))"
    using u c by (simp add: lifecycle_exit_def py_then_def py_bind_def py_modify_def py_finally_def py_get_def Let_def
        split: sum.split prod.split)
  have sd: "schedule_drain 0 v = (Inr (), snd (schedule_drain 0 v))" for v :: "'b world" by (simp add: schedule_drain_eq)
  have fin: "r = x \<and> w' = snd (schedule_drain 0 w1)"
    if "(case q of Inl e \<Rightarrow> (Inl e, w1) | Inr rep \<Rightarrow> (case rep of RepPair _ \<Rightarrow> py_return () | _ \<Rightarrow> py_raise TypeError) w1) = (x, w1)" for x
    using un run sd [of w1] unfolding that by (metis (no_types, lifting) case_prod_conv old.sum.simps(6) prod.inject)
  have sv': "server_of srv (snd (schedule_drain 0 w1)) = server_of srv w1" by (simp add: server_of_def)
  show ?thesis
    using sc
  proof (elim conjE disjE)
    assume hit: "(q, server_of srv w1) = run_script R decode ?call (server_of srv ?w)" and k: "caches_ok source sha1 (w_scripts w1)"
    then have q: "q = Inr (RepPair (fst rel))" "server_of srv w1 = snd rel" by (simp_all add: run_release sv rel_def)
    have "r = Inr ()" "w' = snd (schedule_drain 0 w1)" using fin [of "Inr ()"] q by (simp_all add: py_return_def)
    then show ?thesis using q k ls by (auto simp: sv')
  next
    assume e: "q = Inl RedisConnectionError" and k: "caches_ok source sha1 (w_scripts w1)"
      and s: "server_of srv w1 = server_of srv ?w"
    have "r = Inl RedisConnectionError" "w' = snd (schedule_drain 0 w1)" using fin [of "Inl RedisConnectionError"] e by simp_all
    then show ?thesis using k ls s by (auto simp: sv' sv)
  next
    assume e: "q = Inl RedisConnectionError" and k: "caches_ok source sha1 (w_scripts w1)"
      and s: "server_of srv w1 = snd (run_script R decode ?call (server_of srv ?w))"
    have "r = Inl RedisConnectionError" "w' = snd (schedule_drain 0 w1)" using fin [of "Inl RedisConnectionError"] e by simp_all
    then show ?thesis using k ls s by (auto simp: sv' sv run_release rel_def)
  qed
qed

lemma lifecycle_enter_eq: "lifecycle_enter lc w = (let p = hb_register (w_clk w) (lc_task_id lc) (lc_on_failure_action lc) (w_hb w)
    in (Inr (lc\<lparr>lc_entry := Some (fst p)\<rparr>), w\<lparr>w_hb := snd p\<rparr>))"
  by (simp add: lifecycle_enter_def Let_def split: prod.split)

section \<open>A concrete limiter\<close>

definition demo_env :: "conn env" where
  "demo_env = \<lparr>e_client = mem_client json_task, e_files = mem_files, e_md5 = (\<lambda>_. ''t1''), e_uuid = (\<lambda>n. ''u'' @ dec_int (int n)),
     e_random = (\<lambda>_. 1 / 2), e_callback = (\<lambda>d. py_modify (\<lambda>w. w\<lparr>w_metrics := w_metrics w @ [d]\<rparr>)),
     e_dispatch = (\<lambda>f ps u. py_return ()), e_refresh = None, e_has_local_capacity = (\<lambda>_. True), e_check_health = None\<rparr>"

definition demo_world :: "link list \<Rightarrow> mem \<Rightarrow> conn world" where
  "demo_world links s = \<lparr>w_scripts = \<lparr>s_conn = \<lparr>cn_mem = s, cn_loaded = [], cn_links = links\<rparr>, s_sources = Map.empty, s_shas = Map.empty\<rparr>,
     w_lim = demo_limiter, w_time = 1700000000, w_clk = 0, w_loop = Some (drain_loop_init 5), w_hb = heartbeat_init demo_limiter,
     w_monitor = None, w_subscriber = None, w_metrics = [], w_events = [], w_uuids = 0, w_rands = 0,
     w_shutdown_called = False, w_hb_created = True, w_local = 0, w_jobs = []\<rparr>"

lemma demo_env_client: "redis_client mem_redis json_task (e_client demo_env) cn_mem (\<lambda>c. set (cn_loaded c)) (e_files demo_env)
    mem_source mem_sha1"
  by (simp add: demo_env_def mc.redis_client_axioms)

lemma demo_world_simps [simp]:
  "caches_ok source sha1 (w_scripts (demo_world links s))" "server_of cn_mem (demo_world links s) = s"
  "w_lim (demo_world links s) = demo_limiter" "w_clk (demo_world links s) = 0"
  "w_loop (demo_world links s) = Some (drain_loop_init 5)" "w_hb (demo_world links s) = heartbeat_init demo_limiter"
  "w_time (demo_world links s) = 1700000000" "w_shutdown_called (demo_world links s) = False"
  by (simp_all add: demo_world_def caches_ok_def server_of_def del: demo_limiter_simps)

definition demo_env_for :: "cjson \<Rightarrow> conn env" where
  "demo_env_for decode = demo_env\<lparr>e_client := mem_client decode\<rparr>"

lemma demo_env_for_simps [simp]:
  "e_client (demo_env_for d) = mem_client d" "e_files (demo_env_for d) = mem_files" "e_random (demo_env_for d) n = 1 / 2"
  "e_dispatch (demo_env_for d) = (\<lambda>f ps u. py_return ())" "e_has_local_capacity (demo_env_for d) = (\<lambda>_. True)"
  "e_callback (demo_env_for d) m = py_modify (\<lambda>w. w\<lparr>w_metrics := w_metrics w @ [m]\<rparr>)"
  by (simp_all add: demo_env_for_def demo_env_def)

lemma demo_call:
  "call_script (demo_env_for decode) call (demo_world [] s) = (fst (run_script mem_redis decode call s),
    (demo_world [] s)\<lparr>w_scripts := \<lparr>s_conn = \<lparr>cn_mem = snd (run_script mem_redis decode call s),
        cn_loaded = [mem_sha1 (mem_source (script_of call))], cn_links = []\<rparr>,
      s_sources = [script_of call \<mapsto> mem_source (script_of call)],
      s_shas = [script_of call \<mapsto> mem_sha1 (mem_source (script_of call))]\<rparr>\<rparr>)"
  using run_script_not_lost [of decode call s]
  by (cases "run_script mem_redis decode call s"; cases "fst (run_script mem_redis decode call s)")
    (auto simp: call_script_def on_scripts_def eval_script_def evalsha_cached_def register_script_def py_simps lookup_key_def
      on_conn_def Let_def demo_world_def mem_client_run mem_source_def mem_files_def default_resource_packages_def)

lemma demo_env_for_json [simp]: "demo_env_for json_task = demo_env"
  by (simp add: demo_env_for_def demo_env_def)

section \<open>Properties\<close>

text \<open>C13. One renewal by the heartbeat (\<^verbatim>\<open>extend_lease\<close> under \<^verbatim>\<open>_renew_one\<close>), by what \<^verbatim>\<open>extend_lease\<close> did. If it met a
  connection error, the entry is marked unhealthy and, if the task asked for it, the process is killed; nothing is
  raised. Otherwise the server decides: a lease that exists is moved to end one lease duration from
  now, no other lease or key changes, and the entry is marked healthy; a lease that has been reclaimed is not
  recreated, the keyspace and the entry stay as they are, and the \<^verbatim>\<open>KeyError\<close> that reports it leaves
  \<^verbatim>\<open>_renew_one\<close>.\<close>

theorem renew_one_outcome:
  assumes "redis_server R look el" "redis_client R decode (e_client E) srv loaded (e_files E) source sha1"
    and "caches_ok source sha1 (w_scripts w)" "typed (l_id (w_lim w)) (look (server_of srv w))"
    and "renew_one E u action w = (out, w')"
  defines "i \<equiv> l_id (w_lim w)" and "K \<equiv> look (server_of srv w)" and "K' \<equiv> look (server_of srv w')"
    and "until \<equiv> fst (r_TIME R (server_of srv w)) + l_lease_duration (w_lim w)"
    and "x \<equiv> fst (extend_lease E u (l_lease_duration (w_lim w)) w)"
  shows "caches_ok source sha1 (w_scripts w') \<and>
    (if x = Inl RedisConnectionError
     then out = (if action = ''kill'' then RKill else RDone) \<and> w_hb w' = hb_set_health u False (w_hb w)
     else if zscore (zset_of (K (concurrency_key i))) u = None
     then x = Inl KeyError \<and> out = RRaise KeyError \<and> w_hb w' = w_hb w \<and> K' = K
     else x = Inr () \<and> out = RDone \<and> w_hb w' = hb_set_health u True (w_hb w)
       \<and> zscore (zset_of (K' (concurrency_key i))) = (zscore (zset_of (K (concurrency_key i))))(u \<mapsto> of_int until)
       \<and> (\<forall>k. k \<noteq> concurrency_key i \<longrightarrow> K' k = K k))"
proof -
  obtain r w1 where e: "extend_lease E u (l_lease_duration (w_lim w)) w = (r, w1)" by force
  then have xr: "x = r" by (simp add: x_def)
  note c = extend_lease_cases [OF assms(2,3) e]
  have hb: "w_hb w1 = w_hb w" using c by (auto dest: local_sameD)
  have un: "out = fst (hb_renew_one r u action (w_hb w))" "w' = w1\<lparr>w_hb := snd (hb_renew_one r u action (w_hb w))\<rparr>"
    using assms(5) e by (auto simp: renew_one_def hb split: prod.splits)
  then have K': "K' = look (server_of srv w1)" and sc: "w_scripts w' = w_scripts w1" by (simp_all add: K'_def server_of_def)
  note ty = assms(4)
  show ?thesis
  proof (cases "r = Inl RedisConnectionError")
    case True
    then show ?thesis using c un sc by (simp add: hb_renew_one_def is_redis_error_def xr)
  next
    case False
    then have s: "server_of srv w1 = snd (renew_lua R (concurrency_key i) u (l_lease_duration (w_lim w)) (server_of srv w))"
      and r: "r = (if fst (renew_lua R (concurrency_key i) u (l_lease_duration (w_lim w)) (server_of srv w)) = 1 then Inr () else Inl KeyError)"
      using c by (auto simp: i_def)
    note spec = redis_server.renew_spec [OF assms(1) ty, of u "l_lease_duration (w_lim w)", folded i_def K_def]
    show ?thesis
    proof (cases "zscore (zset_of (K (concurrency_key i))) u = None")
      case True
      then show ?thesis using c un sc r s spec by (simp add: hb_renew_one_def is_redis_error_def K' K_def xr)
    next
      case False
      then have one: "renew_lua R (concurrency_key i) u (l_lease_duration (w_lim w)) (server_of srv w) =
          (1, r_ZADD R (concurrency_key i) (of_int until) u (server_of srv w))"
        using spec by (simp add: until_def)
      have "K' = K(concurrency_key i := put_zset (zadd (of_int until) u (zset_of (K (concurrency_key i)))) (K (concurrency_key i)))"
        using redis_server.ZADD [OF assms(1) typedD(2) [OF ty]] unfolding K' s one by (simp add: K_def i_def)
      moreover have "zinv (zset_of (K (concurrency_key i)))" using typedD(2) [OF ty] by (simp add: K_def i_def)
      ultimately show ?thesis using False c un sc r one
        by (simp add: hb_renew_one_def zscore_zadd xr)
    qed
  qed
qed

lemma demo_extend:
  "fst (extend_lease demo_env ''t1'' 30 (demo_world [] demo_leased)) = Inr ()"
  "fst (extend_lease demo_env ''t2'' 30 (demo_world [] demo_leased)) = Inl KeyError"
  "fst (extend_lease demo_env ''t1'' 30 (demo_world [LostBefore] demo_leased)) = Inl RedisConnectionError"
proof -
  have z: "zset_of (ks demo_leased (concurrency_key ''lim'')) = [(1700000010, ''t1'')]" by (simp add: demo_leased_def)
  have k: "r_ZSCORE mem_redis (concurrency_key ''lim'') u demo_leased = (if u = ''t1'' then Some 1700000010 else None)" for u
    using z by (simp add: zscore_def)
  note run = demo_call [of json_task, simplified]
  show "fst (extend_lease demo_env ''t1'' 30 (demo_world [] demo_leased)) = Inr ()"
    "fst (extend_lease demo_env ''t2'' 30 (demo_world [] demo_leased)) = Inl KeyError"
    using k by (simp_all add: extend_lease_def py_simps run run_renew renew_lua_def Let_def del: mem_cmds)
  show "fst (extend_lease demo_env ''t1'' 30 (demo_world [LostBefore] demo_leased)) = Inl RedisConnectionError"
    by (simp add: extend_lease_def py_simps call_script_def on_scripts_def eval_script_def evalsha_cached_def
        register_script_def lookup_key_def on_conn_def Let_def demo_world_def mem_client_run mem_files_def
        default_resource_packages_def demo_env_def)
qed

text \<open>A lease that is held is extended, and a lost one raises.\<close>

theorem renew_one_outcome_witness:
  "fst (renew_one demo_env ''t1'' ''kill'' (demo_world [] demo_leased)) = RDone \<and>
   fst (renew_one demo_env ''t2'' ''kill'' (demo_world [] demo_leased)) = RRaise KeyError \<and>
   fst (renew_one demo_env ''t1'' ''kill'' (demo_world [LostBefore] demo_leased)) = RKill"
proof -
  have ty: "typed (l_id (w_lim (demo_world ls demo_leased))) (ks (server_of cn_mem (demo_world ls demo_leased)))" for ls
    using demo_leased_typed by simp
  have z: "zscore (zset_of (ks demo_leased (concurrency_key ''lim''))) ''t2'' = None"
    by (simp add: demo_leased_def zscore_def)
  have out: "fst (renew_one demo_env u ''kill'' w) =
      (if fst (extend_lease demo_env u (l_lease_duration (w_lim w)) w) = Inl RedisConnectionError then RKill
       else if zscore (zset_of (ks (server_of cn_mem w) (concurrency_key (l_id (w_lim w))))) u = None then RRaise KeyError
       else RDone)" if "w = demo_world ls demo_leased" for u ls w
    using renew_one_outcome [OF mem.redis_server_axioms demo_env_client demo_world_simps(1) ty prod.collapse [symmetric], of u "''kill''" ls]
    unfolding that by presburger
  show ?thesis using z by (simp add: out [OF refl] demo_extend)
qed

text \<open>C12. A task runs under \<^verbatim>\<open>task_lifecycle\<close> (\<^verbatim>\<open>with limiter.task_lifecycle(id): ...\<close>). Whatever the task does, an
  exception included, the task is healthy at the start, and on the way out the heartbeat no longer renews it (\<^verbatim>\<open>is_healthy\<close> keeps what the last renewal recorded), the lease and the deduplication marker are
  removed from Redis without touching another key, a drain is requested at once so that the freed slot is
  used, and the task's own result or exception reaches the caller; only a connection error takes its place,
  and also then the drain is requested.\<close>

theorem with_lifecycle_releases:
  assumes "redis_server R look el" "redis_client R decode (e_client E) srv loaded (e_files E) source sha1"
    and "lc_task_id lc = u" "u \<noteq> []"
    and "lifecycle_enter lc w = (Inr lc', w1)" "body w1 = (rb, v)"
    and "caches_ok source sha1 (w_scripts v)" "typed (l_id (w_lim v)) (look (server_of srv v))"
    and "with_lifecycle E lc body w = (r, w')"
  defines "i \<equiv> l_id (w_lim v)" and "K \<equiv> look (server_of srv v)" and "K' \<equiv> look (server_of srv w')"
  shows "hb_get_entry u (w_hb w1) \<noteq> None \<and> is_healthy lc' w1 \<and> hb_get_entry u (w_hb w') = None \<and> is_healthy lc' w' = is_healthy lc' v
    \<and> (\<forall>l. w_loop v = Some l \<longrightarrow> (\<exists>l' t. w_loop w' = Some l' \<and> dl_alive l' \<and> dl_next_wake l' = Some t \<and> t \<le> w_clk v))
    \<and> (r = Inl RedisConnectionError
       \<or> r = rb \<and> zscore (zset_of (K' (concurrency_key i))) = (zscore (zset_of (K (concurrency_key i))))(u := None)
         \<and> K' (get_inflight_key i u) = None
         \<and> (\<forall>k. k \<noteq> concurrency_key i \<longrightarrow> k \<noteq> get_inflight_key i u \<longrightarrow> K' k = K k))"
proof -
  have lc': "lc_task_id lc' = u" and reg: "hb_get_entry u (w_hb w1) \<noteq> None" "is_healthy lc' w1"
    and own: "\<And>e. lc_entry lc' = Some e \<Longrightarrow> he_task_id e = u"
    using assms(3-5) by (auto simp: lifecycle_enter_def hb_register_def Let_def hb_get_entry_def hb_ensure_started_def
        hb_push_def is_healthy_def hb_object_def split: if_splits prod.splits)
  obtain x z where x: "lifecycle_exit E lc' v = (x, z)" by force
  have un: "r = (case x of Inl e \<Rightarrow> Inl e | Inr _ \<Rightarrow> rb)" "w' = z"
    using assms(5,6,9) x by (auto simp: with_lifecycle_def py_bind_def py_finally_def split: sum.splits)
  note c = lifecycle_exit_cases [OF assms(2,7) lc' assms(4) x, folded i_def]
  obtain w2 where w2: "w_loop w2 = w_loop v" "w_clk w2 = w_clk v" "z = snd (schedule_drain 0 w2)" using c by blast
  have wake: "w_loop v = Some l \<Longrightarrow> \<exists>l' t. w_loop w' = Some l' \<and> dl_alive l' \<and> dl_next_wake l' = Some t \<and> t \<le> w_clk v" for l
    using schedule_drain_wakes [of w2 l 0] w2 un by simp
  have gone: "hb_get_entry u (w_hb w') = None" "is_healthy lc' w' = is_healthy lc' v"
    using c un own hb_object_detached [of _ u "w_hb v"] by (auto simp: hb_get_entry_def hb_deregister_def is_healthy_def split: option.split)
  obtain t where t: "release_lua R (concurrency_key i) (get_inflight_key i u) (drain_signal_channel i) u
        (l_worker_id (w_lim v)) (server_of srv v) = ((if zscore (zset_of (K (concurrency_key i))) u = None then 0 else 1,
        if K (get_inflight_key i u) = None then 0 else 1), t)"
    "look t = K(concurrency_key i := put_zset (zrem u (zset_of (K (concurrency_key i)))) (K (concurrency_key i)),
        get_inflight_key i u := None)"
    using redis_server.release_spec [OF assms(1,8,4), folded i_def K_def] by blast
  have zi: "zinv (zset_of (K (concurrency_key i)))" using typedD(2) [OF assms(8)] by (simp add: K_def i_def)
  have "r = rb \<and> K' = look t" if "r \<noteq> Inl RedisConnectionError"
    using c that un t(1) by (auto simp: K'_def)
  then show ?thesis using reg gone wake t(2) zi by (auto simp: zscore_zrem)
qed

theorem with_lifecycle_releases_witness:
  "\<exists>r w'. with_lifecycle demo_env (lifecycle_init demo_limiter ''t1'' ''warn'') (py_raise (UserError ''boom'')) (demo_world [] demo_leased) = (r, w')
     \<and> (r = Inl (UserError ''boom'') \<or> r = Inl RedisConnectionError) \<and> hb_get_entry ''t1'' (w_hb w') = None"
proof -
  let ?lc = "lifecycle_init demo_limiter ''t1'' ''warn''"
  obtain lc' w1 where e: "lifecycle_enter ?lc (demo_world [] demo_leased) = (Inr lc', w1)"
    by (simp add: lifecycle_enter_eq Let_def del: demo_limiter_simps)
  then have w1: "w_scripts w1 = w_scripts (demo_world [] demo_leased)" "w_lim w1 = demo_limiter"
    by (auto simp: lifecycle_enter_eq Let_def simp del: demo_limiter_simps)
  have sv: "server_of cn_mem w1 = demo_leased" using w1(1) demo_world_simps(2) [of "[]" demo_leased] by (simp add: server_of_def)
  have ty: "typed (l_id (w_lim w1)) (ks (server_of cn_mem w1))" using demo_leased_typed by (simp add: sv w1(2))
  have ok: "caches_ok mem_source mem_sha1 (w_scripts w1)" by (simp add: w1)
  obtain r w' where run: "with_lifecycle demo_env ?lc (py_raise (UserError ''boom'')) (demo_world [] demo_leased) = (r, w')" by force
  have u: "lc_task_id ?lc = ''t1''" by (simp add: lifecycle_init_def)
  show ?thesis
    using with_lifecycle_releases [OF mem.redis_server_axioms demo_env_client u _ e _ ok ty run, of "Inl (UserError ''boom'')"] run
    by (auto simp: py_raise_def)
qed

end
