(* ===== verification/Schedule_Props.thy ===== *)
theory Schedule_Props
  imports Distributed_Props
begin

text \<open>
  Scheduling: what \<^verbatim>\<open>schedule_task\<close> leaves in Redis in every outcome.
\<close>

section \<open>The parts of a schedule call\<close>

lemma trigger_consume_ok:
  assumes "redis_server R look el" and cl: "redis_client R decode (e_client E) srv loaded (e_files E) source sha1"
    and ok: "caches_ok source sha1 (w_scripts w)" and run: "trigger_consume E w = (r, w')"
  shows "r = Inr () \<and> caches_ok source sha1 (w_scripts w') \<and> look (server_of srv w') = look (server_of srv w)
    \<and> w_loop w' = w_loop (snd (schedule_drain 0 w))"
proof -
  define w1 where "w1 = snd (schedule_drain 0 w)"
  let ?pub = "on_redis (c_publish (e_client E) (drain_signal_channel (l_id (w_lim w1))) (l_worker_id (w_lim w1)))"
  obtain q w2 where q: "?pub w1 = (q, w2)" by force
  note c = redis_cases [OF redis_client.publish [OF cl] q, of source sha1]
  have "schedule_drain 0 w = (Inr (), w1)" by (simp add: w1_def schedule_drain_eq)
  then have un: "r = Inr () \<and> w' = w2"
    using run q by (cases q) (simp_all add: trigger_consume_def publish_drain_signal_def py_simps)
  have w1: "w_scripts w1 = w_scripts w" "server_of srv w1 = server_of srv w" by (simp_all add: w1_def server_of_def)
  have "look (server_of srv w2) = look (server_of srv w1)"
    using c by (cases q) (auto simp: redis_server.PUBLISH [OF assms(1)])
  moreover have "w_loop w2 = w_loop w1" using c by (blast dest: local_sameD)
  ultimately show ?thesis using c un ok w1 by (simp add: w1_def)
qed

lemma cleanup_ok:
  assumes "redis_server R look el" and cl: "redis_client R decode (e_client E) srv loaded (e_files E) source sha1"
    and ok: "caches_ok source sha1 (w_scripts w)" and run: "cleanup_inflight_key E k w = (r, w')"
  shows "r = Inr () \<and> caches_ok source sha1 (w_scripts w')
    \<and> look (server_of srv w') \<in> {look (server_of srv w), (look (server_of srv w))(k := None)}"
proof -
  obtain q w1 where q: "on_redis (c_delete (e_client E) k) w = (q, w1)" by force
  note c = redis_cases [OF redis_client.delete [OF cl] q, of source sha1]
  have un: "r = Inr () \<and> w' = w1" using run q by (cases q) (simp_all add: cleanup_inflight_key_def py_simps)
  have d: "look (snd (r_DEL R k s)) = (look s)(k := None)" for s using redis_server.DEL [OF assms(1)] by blast
  have "look (server_of srv w1) \<in> {look (server_of srv w), (look (server_of srv w))(k := None)}"
  proof (cases q)
    case (Inl e)
    then show ?thesis using c d [of "server_of srv w"] by auto
  next
    case (Inr x)
    then have "(x, server_of srv w1) = r_DEL R k (server_of srv w)" using c by simp
    then have "server_of srv w1 = snd (r_DEL R k (server_of srv w))" by (metis snd_conv)
    then show ?thesis using d [of "server_of srv w"] by simp
  qed
  then show ?thesis using un c ok by simp
qed

lemma emit_metric_frame:
  assumes "\<And>d w. w_scripts (snd (e_callback E d w)) = w_scripts w \<and> w_loop (snd (e_callback E d w)) = w_loop w"
  shows "\<exists>w'. emit_metric E d w = (Inr (), w') \<and> w_scripts w' = w_scripts w \<and> w_loop w' = w_loop w"
proof -
  obtain r w1 where c: "e_callback E d w = (r, w1)" by force
  then have "w_scripts w1 = w_scripts w \<and> w_loop w1 = w_loop w" using assms [of d w] by simp
  then show ?thesis using c by (cases r) (auto simp: emit_metric_def py_simps)
qed

lemma inflight_ttl_pos: "0 < get_inflight_ttl l m"
  unfolding get_inflight_ttl_def Let_def by (subst zero_less_ceiling) (simp add: add_pos_pos less_max_iff_disj)

text \<open>The keyspace after the deduplication marker was set, and after the member was added as well.\<close>

definition marked_ks :: "string \<Rightarrow> rat \<Rightarrow> keyspace \<Rightarrow> keyspace" where
  "marked_ks key until K = K(key \<mapsto> (RStr ''1'', Some until))"

definition buffered_ks :: "string \<Rightarrow> rat \<Rightarrow> string \<Rightarrow> keyspace \<Rightarrow> keyspace" where
  "buffered_ks i p member K = K(buffer_key i := put_zset (zadd p member (zset_of (K (buffer_key i)))) (K (buffer_key i)))"

lemma typed_marked: "typed i K \<Longrightarrow> typed i (marked_ks (get_inflight_key i u) t K)"
  by (simp add: marked_ks_def typed_upd)

lemma claim_cases:
  assumes sv: "redis_server R look el" and cl: "redis_client R decode (e_client E) srv loaded (e_files E) source sha1"
    and run: "on_redis (c_set_nx_ex (e_client E) key ''1'' ttl) w = (q, w1)" and ttl: "0 < ttl"
  defines "K \<equiv> look (server_of srv w)"
  defines "K1 \<equiv> marked_ks key (clock_ms R (server_of srv w) + 1000 * of_int ttl) K"
  shows "q = Inl RedisConnectionError \<and> (look (server_of srv w1) = K \<or> K key = None \<and> look (server_of srv w1) = K1)
    \<or> q = Inr False \<and> K key \<noteq> None \<and> look (server_of srv w1) = K
    \<or> q = Inr True \<and> K key = None \<and> look (server_of srv w1) = K1 \<and> r_TIME R (server_of srv w1) = r_TIME R (server_of srv w)"
proof -
  note c = redis_cases [OF redis_client.set_nx_ex [OF cl] run, THEN conjunct2, THEN conjunct2]
  let ?set = "r_SET_NX_EX R key ''1'' ttl (server_of srv w)"
  have set: "fst ?set = (K key = None)" "look (snd ?set) = (if K key = None then K1 else K)"
    "r_TIME R (snd ?set) = r_TIME R (server_of srv w)"
    using redis_server.SET_NX_EX [OF sv ttl, of key "''1''" "server_of srv w"] redis_server.TIME_frozen(2) [OF sv]
    by (simp_all add: K_def K1_def marked_ks_def)
  show ?thesis
  proof (cases q)
    case (Inl e)
    then show ?thesis using c set(2) by (auto simp: K_def)
  next
    case (Inr b)
    then have "(b, server_of srv w1) = ?set" using c by simp
    then have "b = fst ?set" "server_of srv w1 = snd ?set" by (metis fst_conv, metis snd_conv)
    then show ?thesis using Inr set by auto
  qed
qed

lemma buffered_unmark:
  "K (get_inflight_key i u) = None \<Longrightarrow>
   (buffered_ks i p m (marked_ks (get_inflight_key i u) t K))(get_inflight_key i u := None) = buffered_ks i p m K"
  by (auto simp: buffered_ks_def marked_ks_def fun_eq_iff)

lemma script_schedule_cases:
  assumes sv: "redis_server R look el" and cl: "redis_client R decode (e_client E) srv loaded (e_files E) source sha1"
    and ok: "caches_ok source sha1 (w_scripts w)" and ty: "typed i (look (server_of srv w))"
    and run: "call_script E (CallSchedule (buffer_key i) js p ov) w = (q, w1)"
  defines "K \<equiv> look (server_of srv w)"
  defines "K1 \<equiv> buffered_ks i p (inject_metadata js (of_int (lua_now_ms R (server_of srv w))) ov) K"
  shows "caches_ok source sha1 (w_scripts w1) \<and> w_loop w1 = w_loop w \<and> w_clk w1 = w_clk w \<and>
    (q = Inl RedisConnectionError \<and> look (server_of srv w1) \<in> {K, K1} \<or> q = Inr RepNil \<and> look (server_of srv w1) = K1)"
  using script_cases [OF cl ok run] redis_server.schedule_spec(1) [OF sv ty, of js p ov]
  by (auto simp: run_schedule K_def K1_def buffered_ks_def dest: local_sameD)

text \<open>The control flow of \<^verbatim>\<open>schedule_task\<close> over the outcomes of its calls.\<close>

lemma schedule_task_flow:
  fixes E w f ps p max_age
  defines "i \<equiv> l_id (w_lim w)" and "u \<equiv> e_md5 E (get_task_signature_str f ps)"
  defines "key \<equiv> get_inflight_key i u"
  assumes "on_redis (c_set_nx_ex (e_client E) key ''1'' (get_inflight_ttl (w_lim w) max_age)) w = (q, w1)"
    and "call_script E (CallSchedule (buffer_key i) (get_task_data_str i u f ps) p (max_age_arg max_age)) w1 = (q2, w2)"
    and "cleanup_inflight_key E key w2 = (q3, w3)" "trigger_consume E w2 = (q4, w4)"
    and "emit_metric E (MSchedule False u) w1 = (Inr (), v1)" "emit_metric E (MSchedule True u) w4 = (Inr (), v4)"
  shows "schedule_task E f ps (Some p) max_age w = (case q of Inl e \<Rightarrow> (Inl e, w1)
      | Inr b \<Rightarrow> if \<not> b then (Inr (False, u), v1)
          else case q2 of Inr _ \<Rightarrow> (case q4 of Inr _ \<Rightarrow> (Inr (True, u), v4) | Inl e \<Rightarrow> (Inl e, w4))
               | Inl e \<Rightarrow> (case q3 of Inr _ \<Rightarrow> (Inl e, w3) | Inl e' \<Rightarrow> (Inl e', w3)))"
  using assms(4-) unfolding i_def u_def key_def
  by (cases q; cases q2; cases q3; cases q4) (auto simp: schedule_task_def py_simps Let_def)

section \<open>Property\<close>

text \<open>C11. \<^verbatim>\<open>schedule_task\<close> deduplicates and enqueues. While the deduplication marker of the same function and payload is
  alive the call returns \<^verbatim>\<open>(False, task_id)\<close> and Redis is unchanged. Otherwise it returns \<^verbatim>\<open>(True, task_id)\<close>, the marker is
  set with the computed lifetime, the task text with its arrival time is in the buffer under its priority, no
  other key changes, and a drain is requested at once. The only exception is the connection error; then
  Redis holds neither, only the marker, both, or (when the reply to the script was lost and the clean-up
  succeeded) only the member, in which case a repetition of the call is not deduplicated.\<close>

theorem schedule_task_outcome:
  assumes "redis_server R look el" "redis_client R decode (e_client E) srv loaded (e_files E) source sha1"
    and "caches_ok source sha1 (w_scripts w)" "typed (l_id (w_lim w)) (look (server_of srv w))"
    and "\<And>d v. w_scripts (snd (e_callback E d v)) = w_scripts v \<and> w_loop (snd (e_callback E d v)) = w_loop v"
    and "schedule_task E f ps (Some p) max_age w = (r, w')"
  defines "i \<equiv> l_id (w_lim w)" and "K \<equiv> look (server_of srv w)" and "K' \<equiv> look (server_of srv w')"
    and "u \<equiv> e_md5 E (get_task_signature_str f ps)"
  defines "key \<equiv> get_inflight_key i u"
    and "member \<equiv> inject_metadata (get_task_data_str i u f ps) (of_int (lua_now_ms R (server_of srv w))) (max_age_arg max_age)"
  defines "K1 \<equiv> marked_ks key (clock_ms R (server_of srv w) + 1000 * of_int (get_inflight_ttl (w_lim w) max_age)) K"
  shows "caches_ok source sha1 (w_scripts w') \<and>
    (K key \<noteq> None \<and> K' = K \<and> (r = Inr (False, u) \<or> r = Inl RedisConnectionError)
     \<or> K key = None \<and> r = Inr (True, u) \<and> K' = buffered_ks i p member K1 \<and>
       (\<forall>l. w_loop w = Some l \<longrightarrow> (\<exists>l' t. w_loop w' = Some l' \<and> dl_alive l' \<and> dl_next_wake l' = Some t \<and> t \<le> w_clk w))
     \<or> K key = None \<and> r = Inl RedisConnectionError
       \<and> K' \<in> {K, K1, buffered_ks i p member K1, buffered_ks i p member K})"
proof -
  let ?ttl = "get_inflight_ttl (w_lim w) max_age"
  let ?call = "CallSchedule (buffer_key i) (get_task_data_str i u f ps) p (max_age_arg max_age)"
  obtain q w1 where q: "on_redis (c_set_nx_ex (e_client E) key ''1'' ?ttl) w = (q, w1)" by force
  note c1 = claim_cases [OF assms(1,2) q inflight_ttl_pos, folded K_def, folded K1_def]
  have ok1: "caches_ok source sha1 (w_scripts w1)" and loc: "w_loop w1 = w_loop w" "w_clk w1 = w_clk w"
    using redis_cases [OF redis_client.set_nx_ex [OF assms(2)] q, of source sha1] assms(3) by (auto dest: local_sameD)
  obtain q2 w2 where q2: "call_script E ?call w1 = (q2, w2)" by force
  obtain q3 w3 where q3: "cleanup_inflight_key E key w2 = (q3, w3)" by force
  obtain q4 w4 where q4: "trigger_consume E w2 = (q4, w4)" by force
  obtain v1 where v1: "emit_metric E (MSchedule False u) w1 = (Inr (), v1)" "w_scripts v1 = w_scripts w1"
    using emit_metric_frame [OF assms(5)] by blast
  obtain v4 where v4: "emit_metric E (MSchedule True u) w4 = (Inr (), v4)" "w_scripts v4 = w_scripts w4" "w_loop v4 = w_loop w4"
    using emit_metric_frame [OF assms(5)] by blast
  note un = trans [OF assms(6) [symmetric] schedule_task_flow [OF q [unfolded key_def u_def i_def] q2 [unfolded u_def i_def]
      q3 [unfolded key_def u_def i_def] q4 v1(1) [unfolded u_def] v4(1) [unfolded u_def]], folded u_def]
  show ?thesis
    using c1
  proof (elim disjE conjE)
    assume "q = Inr True" "K key = None" "look (server_of srv w1) = K1" "r_TIME R (server_of srv w1) = r_TIME R (server_of srv w)"
    note t = this
    have ty1: "typed i (look (server_of srv w1))" using assms(4) t(3) by (simp add: K1_def key_def typed_marked K_def i_def)
    have now: "lua_now_ms R (server_of srv w1) = lua_now_ms R (server_of srv w)" using t(4) by (simp add: lua_now_ms_def)
    note c2 = script_schedule_cases [OF assms(1,2) ok1 ty1 q2, unfolded t(3) now, folded member_def]
    then have ok2: "caches_ok source sha1 (w_scripts w2)" by blast
    note c3 = cleanup_ok [OF assms(1,2) ok2 q3]
    note c4 = trigger_consume_ok [OF assms(1,2) ok2 q4]
    have k: "K1(key := None) = K" "(buffered_ks i p member K1)(key := None) = buffered_ks i p member K"
      using t(2) buffered_unmark [of K i u p member] by (auto simp: K1_def key_def marked_ks_def)
    show ?thesis
    proof (cases "q2 = Inr RepNil")
      case True
      then have rw: "r = Inr (True, u)" "w' = v4" using un t(1) c4 by simp_all
      have "w_loop w = Some l \<Longrightarrow> \<exists>l' t. w_loop w' = Some l' \<and> dl_alive l' \<and> dl_next_wake l' = Some t \<and> t \<le> w_clk w" for l
        using schedule_drain_wakes [of w2 l 0] c2 c4 loc rw v4(3) by simp
      then show ?thesis using rw c2 c4 t(2) True v4(2) by (auto simp: K'_def server_of_def)
    next
      case False
      then have "r = Inl RedisConnectionError" "w' = w3" using un t(1) c2 c3 by auto
      then show ?thesis using c2 c3 t(2) False k by (auto simp: K'_def)
    qed
  next
    assume "q = Inr False" "K key \<noteq> None" "look (server_of srv w1) = K"
    then show ?thesis using un ok1 v1(2) by (simp add: K'_def server_of_def)
  qed (use un ok1 in \<open>auto simp: K'_def\<close>)
qed

lemma demo_callback_frame: "w_scripts (snd (e_callback demo_env d v)) = w_scripts v \<and> w_loop (snd (e_callback demo_env d v)) = w_loop v"
  by (simp add: demo_env_def py_modify_def)

theorem schedule_task_outcome_witness:
  "\<exists>r w'. schedule_task demo_env ''pkg.f'' [(''x'', JInt 1)] (Some 5) None (demo_world [] (mem_start 1700000000)) = (r, w')
     \<and> (r = Inr (True, ''t1'') \<and> ks (server_of cn_mem w') (get_inflight_key ''lim'' ''t1'') = Some (RStr ''1'', Some 1700003631000)
        \<or> r = Inl RedisConnectionError)"
proof -
  let ?w = "demo_world [] (mem_start 1700000000)"
  obtain r w' where run: "schedule_task demo_env ''pkg.f'' [(''x'', JInt 1)] (Some 5) None ?w = (r, w')" by force
  have ty: "typed (l_id (w_lim ?w)) (ks (server_of cn_mem ?w))" by (simp add: typed_def mem_start_def)
  have md5: "e_md5 demo_env x = ''t1''" for x by (simp add: demo_env_def)
  have "get_inflight_ttl demo_limiter None = 3631" by (simp add: get_inflight_ttl_def)
  then show ?thesis
    using schedule_task_outcome [OF mem.redis_server_axioms demo_env_client demo_world_simps(1) ty demo_callback_frame run] run
    by (auto simp: md5 mem_start_def buffered_ks_def marked_ks_def clock_ms_mem mem_clock_def mem_TIME_def)
qed

end
