(* ===== verification/Drain_Props.thy ===== *)
theory Drain_Props
  imports Schedule_Props
begin

text \<open>
  Draining: recovery from failures, and the follow-up that keeps the drain going while there is work.
\<close>

section \<open>Consuming from Python\<close>

text \<open>What a metrics callback or a dispatch may do to the limiter itself: nothing.\<close>

definition keeps_limiter :: "('c world, 'a) py \<Rightarrow> bool" where
  "keeps_limiter m = (\<forall>w. w_scripts (snd (m w)) = w_scripts w \<and> w_loop (snd (m w)) = w_loop w
     \<and> w_lim (snd (m w)) = w_lim w \<and> w_clk (snd (m w)) = w_clk w)"

lemma keeps_limiterD:
  assumes "keeps_limiter m" "m w = (r, w')"
  shows "w_scripts w' = w_scripts w" "w_loop w' = w_loop w" "w_lim w' = w_lim w" "w_clk w' = w_clk w"
  using assms unfolding keeps_limiter_def by (metis snd_conv)+

lemma keeps_limiter_compose:
  "keeps_limiter (py_return x)" "keeps_limiter (py_raise e)" "keeps_limiter (py_get f)"
  "keeps_limiter m \<Longrightarrow> (\<And>x. keeps_limiter (g x)) \<Longrightarrow> keeps_limiter (py_bind m g)"
  by (auto simp: keeps_limiter_def py_return_def py_raise_def py_get_def py_bind_def split: prod.split sum.split)
    (metis snd_conv)+

lemma emit_metric_keeps:
  assumes "\<And>d. keeps_limiter (e_callback E d)"
  shows "fst (emit_metric E d w) = Inr () \<and> keeps_limiter (emit_metric E d)"
proof -
  have "emit_metric E d v = (Inr (), if l_metrics_callback (w_lim v) then snd (e_callback E d v) else v)" for v
    by (cases "e_callback E d v"; cases "fst (e_callback E d v)") (auto simp: emit_metric_def py_simps)
  then show ?thesis using assms by (simp add: keeps_limiter_def)
qed

definition drain_args :: "limiter \<Rightarrow> consume_args" where
  "drain_args l = \<lparr>ca_base_key = l_id l, ca_buffer_key = buffer_key (l_id l),
     ca_concurrency_key = concurrency_key (l_id l), ca_dlq_key = dlq_key (l_id l),
     ca_window = l_window l, ca_limit = l_limit l, ca_max_concurrency = l_max_concurrency l,
     ca_max_age = Some (l_max_age l), ca_lease_duration = Some (l_lease_duration l),
     ca_worker_id = l_worker_id l\<rparr>"

lemma consume_call_eq: "consume_call l = CallConsume (drain_args l)"
  by (simp add: consume_call_def drain_args_def)

lemma drain_args_ok: "0 < l_window l \<Longrightarrow> is_integral (window_ms (l_window l)) \<Longrightarrow> call_ok (l_id l) (drain_args l)"
  by (simp add: call_ok_def args_for_def drain_args_def)

lemma load_task_frame: "load_task raw w = (r, w') \<Longrightarrow> w' = w \<and> (raw = None \<longrightarrow> r = Inr None)"
  by (auto simp: load_task_def py_simps split: option.splits json.splits if_splits)

lemma run_consume: "run_script R decode (CallConsume a) s =
    (map_sum id RepConsume (fst (consume_lua R decode a s)), snd (consume_lua R decode a s))"
  by (simp add: run_script_def split: prod.split)

lemma consume_returns:
  assumes cl: "redis_client R decode (e_client E) srv loaded (e_files E) source sha1"
    and ok: "caches_ok source sha1 (w_scripts w)" and cb: "\<And>d. keeps_limiter (e_callback E d)"
    and run: "consume E w = (Inr q, w')"
  shows "\<exists>t task. consume_lua R decode (drain_args (w_lim w)) (server_of srv w) = (Inr t, server_of srv w')
    \<and> q = to_result t task \<and> w_loop w' = w_loop w \<and> w_lim w' = w_lim w \<and> w_clk w' = w_clk w
    \<and> caches_ok source sha1 (w_scripts w')"
proof -
  obtain rep w1 where c: "call_script E (consume_call (w_lim w)) w = (rep, w1)" by force
  note sc = script_cases [OF cl ok c]
  then have loc: "w_loop w1 = w_loop w" "w_lim w1 = w_lim w" "w_clk w1 = w_clk w" by (blast dest: local_sameD)+
  obtain rr where rr: "rep = Inr rr" using run c by (cases rep) (auto simp: consume_def py_simps)
  then have rs: "(Inr rr, server_of srv w1) = run_script R decode (CallConsume (drain_args (w_lim w))) (server_of srv w)"
    using sc by (simp add: consume_call_eq)
  then obtain t where t: "rr = RepConsume t"
    "consume_lua R decode (drain_args (w_lim w)) (server_of srv w) = (Inr t, server_of srv w1)"
    by (cases "consume_lua R decode (drain_args (w_lim w)) (server_of srv w)";
        cases "fst (consume_lua R decode (drain_args (w_lim w)) (server_of srv w))") (auto simp: run_consume)
  obtain lt w2 where l: "load_task (cr_task t) w1 = (lt, w2)" by force
  then have w2: "w2 = w1" by (simp add: load_task_frame)
  obtain task where task: "lt = Inr task" using run c rr t(1) l
    by (cases lt) (auto simp: consume_def py_simps)
  define d where "d = (let p = to_result t task in MConsume (q_success p) (q_expired p) (q_remaining_tokens p)
                       (q_active_concurrency p) (q_reset_in_ms p) (q_remaining_tasks p))"
  obtain x w3 where e: "emit_metric E d w1 = (x, w3)" by force
  then have x: "x = Inr ()" and kp: "keeps_limiter (emit_metric E d)" using emit_metric_keeps [OF cb, of d w1] by simp_all
  have "q = to_result t task \<and> w' = w3"
    using run c rr t(1) l task w2 e x by (simp add: consume_def py_simps d_def Let_def)
  then show ?thesis using t(2) loc sc keeps_limiterD [OF kp e] by (auto simp: server_of_def)
qed

text \<open>Whatever \<^verbatim>\<open>consume\<close> returns or raises, only its call of \<^verbatim>\<open>consume.lua\<close> touches the server, and nothing the instance.\<close>

lemma consume_frame:
  assumes cb: "\<And>d. keeps_limiter (e_callback E d)" and c: "call_script E (consume_call (w_lim w)) w = (rep, w1)"
    and run: "consume E w = (r, v)"
  shows "w_scripts v = w_scripts w1 \<and> w_loop v = w_loop w \<and> w_lim v = w_lim w \<and> w_clk v = w_clk w"
    and "rep = Inl e \<Longrightarrow> r = Inl e"
proof -
  have loc: "w_loop w1 = w_loop w" "w_lim w1 = w_lim w" "w_clk w1 = w_clk w"
    using c by (auto simp: call_script_def on_scripts_def split: prod.splits)
  have ld: "keeps_limiter (load_task raw)" for raw :: "string option"
    unfolding keeps_limiter_def using load_task_frame by (metis prod.collapse)
  let ?rest = "\<lambda>rep. case rep of
       RepConsume r \<Rightarrow> py_bind (load_task (cr_task r)) (\<lambda>task. let q = to_result r task
         in py_then (emit_metric E (MConsume (q_success q) (q_expired q) (q_remaining_tokens q)
              (q_active_concurrency q) (q_reset_in_ms q) (q_remaining_tasks q))) (py_return q))
     | _ \<Rightarrow> py_raise TypeError"
  have k: "keeps_limiter (?rest x)" for x
    using emit_metric_keeps [OF cb] ld
    by (cases x) (auto simp: Let_def py_then_def intro!: keeps_limiter_compose)
  have "consume E w = (case rep of Inl e \<Rightarrow> (Inl e, w1) | Inr x \<Rightarrow> ?rest x w1)"
    by (simp add: consume_def py_bind_get) (simp add: py_bind_def [of "call_script E (consume_call (w_lim w))"] c)
  then have v: "(r, v) = (case rep of Inl e \<Rightarrow> (Inl e, w1) | Inr x \<Rightarrow> ?rest x w1)" using run by metis
  show "rep = Inl e \<Longrightarrow> r = Inl e" using v by simp
  show "w_scripts v = w_scripts w1 \<and> w_loop v = w_loop w \<and> w_lim v = w_lim w \<and> w_clk v = w_clk w"
  proof (cases rep)
    case (Inl e)
    then show ?thesis using v loc by simp
  next
    case (Inr x)
    then have "?rest x w1 = (r, v)" using v by simp
    from keeps_limiterD [OF k this] show ?thesis using loc by simp
  qed
qed

section \<open>Delays\<close>

text \<open>The longest time between a drain that could not admit a task and its follow-up.\<close>

definition longest_retry :: "limiter \<Rightarrow> rat" where
  "longest_retry l = l_window l + l_window l * l_jitter_max_pct l + 1 / 500"

lemma token_interval_le: "config_ok l \<Longrightarrow> token_interval l \<le> l_window l"
  by (auto simp: token_interval_def config_ok_def divide_le_eq mult_le_cancel_left1)

lemma recovery_delay_le:
  assumes "0 < l_window l" "0 \<le> reset" "of_int reset \<le> l_window l * 1000"
  shows "calculate_token_recovery_delay l p c reset \<le> l_window l"
proof (cases "p \<le> 0 \<or> l_limit l \<le> c")
  case True
  then show ?thesis using assms by (simp add: calculate_token_recovery_delay_def)
next
  case False
  define x where "x = l_window l * 1000 * (1 - (of_int (l_limit l) - of_int c) / of_int p)"
  have "0 \<le> (of_int (l_limit l) - of_int c) / (of_int p :: rat)" using False by simp
  then have "x \<le> l_window l * 1000 * 1"
    unfolding x_def using assms(1) by (intro mult_left_mono) simp_all
  then show ?thesis using False assms by (simp add: calculate_token_recovery_delay_def Let_def x_def [symmetric])
qed

lemma retry_delay_le:
  assumes "config_ok l" "0 \<le> l_jitter_min_pct l" "l_jitter_min_pct l \<le> l_jitter_max_pct l"
    and "0 \<le> rnd" "rnd \<le> 1" "0 \<le> active" "active \<le> l_max_concurrency l"
    and "0 \<le> reset" "of_int reset \<le> l_window l * 1000"
    and "jitter = 0 \<or> l_jitter_enabled l \<and> jitter = calculate_smart_jitter l rnd tasks active"
  shows "py_round3 (max (1 / 1000) (calculate_token_recovery_delay l p c reset + jitter)) \<le> longest_retry l"
proof -
  have w: "0 < l_window l" using assms(1) by (simp add: config_ok_def)
  have hi: "0 \<le> l_window l * l_jitter_max_pct l" using w assms(2,3) by simp
  have "jitter \<le> l_window l * l_jitter_max_pct l + 1 / 2000"
    using assms(10) jitter_band [OF assms(1-7), of tasks] hi by auto
  then have "max (1 / 1000) (calculate_token_recovery_delay l p c reset + jitter)
      \<le> l_window l + l_window l * l_jitter_max_pct l + 3 / 2000"
    using recovery_delay_le [OF w assms(8,9), of p c] w hi by (simp add: max_def)
  then show ?thesis
    using py_round3_bounds(2) [of "max (1 / 1000) (calculate_token_recovery_delay l p c reset + jitter)"]
    unfolding longest_retry_def by linarith
qed

section \<open>Follow-ups\<close>

text \<open>The drain loop is running and will wake within the given time.\<close>

definition wakes_within :: "rat \<Rightarrow> rat \<Rightarrow> 'c world \<Rightarrow> bool" where
  "wakes_within clk d w = (\<exists>l t. w_loop w = Some l \<and> dl_alive l \<and> dl_next_wake l = Some t \<and> t \<le> clk + d)"

lemma wakes_within_mono: "wakes_within clk d w \<Longrightarrow> d \<le> d' \<Longrightarrow> wakes_within clk d' w"
  by (fastforce simp: wakes_within_def)

lemma schedule_drain_within:
  "w_loop w \<noteq> None \<Longrightarrow> schedule_drain d w = (r, w') \<Longrightarrow> r = Inr () \<and> wakes_within (w_clk w) d w'"
  using schedule_drain_wakes [of w _ d] by (fastforce simp: wakes_within_def schedule_drain_eq)

lemma retry_within:
  assumes cfg: "config_ok (w_lim w)" "0 \<le> l_jitter_min_pct (w_lim w)" "l_jitter_min_pct (w_lim w) \<le> l_jitter_max_pct (w_lim w)"
    and rnd: "\<And>n. 0 \<le> e_random E n \<and> e_random E n \<le> 1"
    and q: "0 \<le> q_active_concurrency q" "q_active_concurrency q \<le> l_max_concurrency (w_lim w)"
      "0 \<le> q_reset_in_ms q" "of_int (q_reset_in_ms q) \<le> l_window (w_lim w) * 1000"
    and loop: "w_loop w \<noteq> None" and run: "rate_limited_retry E q w = (r, w')"
  shows "r = Inr () \<and> wakes_within (w_clk w) (longest_retry (w_lim w)) w'"
proof -
  let ?l = "w_lim w" and ?base = "calculate_token_recovery_delay (w_lim w) (q_val_previous q) (q_val_current q) (q_reset_in_ms q)"
  obtain v jitter where v: "w_loop v = w_loop w" "w_clk v = w_clk w"
    and j: "jitter = 0 \<or> l_jitter_enabled ?l \<and> jitter = calculate_smart_jitter ?l (e_random E (w_rands w)) (q_remaining_tasks q) (q_active_concurrency q)"
    and sd: "schedule_drain (py_round3 (max (1 / 1000) (?base + jitter))) v = (r, w')"
  proof (cases "(q_val_previous q \<le> 0 \<or> l_limit ?l \<le> q_val_current q) \<and> l_jitter_enabled ?l")
    case True
    show ?thesis
      by (rule that [of "w\<lparr>w_rands := w_rands w + 1\<rparr>" "calculate_smart_jitter ?l (e_random E (w_rands w)) (q_remaining_tasks q) (q_active_concurrency q)"])
        (use True run in \<open>simp_all add: rate_limited_retry_def py_bind_def py_get_def next_random_def py_return_def Let_def\<close>)
  next
    case False
    show ?thesis
      by (rule that [of w 0]) (use False run in \<open>auto simp: rate_limited_retry_def py_bind_get Let_def\<close>)
  qed
  have "r = Inr () \<and> wakes_within (w_clk w) (py_round3 (max (1 / 1000) (?base + jitter))) w'"
    using schedule_drain_within [OF _ sd] loop v by simp
  then show ?thesis
    using wakes_within_mono retry_delay_le [OF cfg _ _ q j, of "q_val_previous q" "q_val_current q"] rnd by blast
qed

text \<open>What the rest of a drain may do: request wakes of a loop that exists, and nothing else.\<close>

definition quiet :: "('c world, 'a) py \<Rightarrow> bool" where
  "quiet m = (\<forall>w. w_scripts (snd (m w)) = w_scripts w \<and> w_lim (snd (m w)) = w_lim w \<and> w_clk (snd (m w)) = w_clk w
     \<and> (w_loop (snd (m w)) = None \<longleftrightarrow> w_loop w = None))"

lemma quietD:
  assumes "quiet m" "m w = (r, w')"
  shows "w_scripts w' = w_scripts w" "w_lim w' = w_lim w" "w_clk w' = w_clk w" "w_loop w' = None \<longleftrightarrow> w_loop w = None"
  using assms unfolding quiet_def by (metis snd_conv)+

lemma quiet_compose:
  "keeps_limiter m \<Longrightarrow> quiet m" "quiet (schedule_drain d)" "quiet (next_random E)"
  "quiet m' \<Longrightarrow> (\<And>x. quiet (g x)) \<Longrightarrow> quiet (py_bind m' g)"
  by (auto simp: quiet_def keeps_limiter_def schedule_drain_eq next_random_def py_bind_def py_get_def py_simps
      split: prod.split sum.split option.split) (metis snd_conv)+

lemmas quiet_intros = quiet_compose(2-) keeps_limiter_compose(1-3) [THEN quiet_compose(1)]

lemma dispatch_admitted_quiet:
  assumes "\<And>f ps u. keeps_limiter (e_dispatch E f ps u)"
  shows "quiet (dispatch_admitted E task)"
  unfolding dispatch_admitted_def task_field_def
  by (auto intro!: quiet_intros assms [THEN quiet_compose(1)] split: option.split json.split)

lemma retry_quiet: "quiet (rate_limited_retry E q)"
  unfolding rate_limited_retry_def Let_def by (auto intro!: quiet_intros)

text \<open>What follows a call of \<^verbatim>\<open>consume\<close>, by its result.\<close>

lemma drain_inner_consumed:
  assumes "e_has_local_capacity E w" "consume E w = (Inr q, v)" "w_lim v = w_lim w"
  shows "drain_inner E w = (if q_yielded q then schedule_drain (token_interval (w_lim w))
       else if q_success q
       then (case q_task q of
               None \<Rightarrow> py_raise AssertionError
             | Some task \<Rightarrow> py_then (dispatch_admitted E task) (py_if (0 < q_remaining_tasks q) (schedule_drain 0)))
       else if q_remaining_tasks q = 0 then py_return ()
       else if l_max_concurrency (w_lim w) \<le> q_active_concurrency q then py_return ()
       else if q_marker_skipped q then py_if (0 < q_remaining_tasks q) (schedule_drain 0)
       else if q_remaining_tokens q \<le> 0 then rate_limited_retry E q
       else py_return ()) v"
  using assms by (simp add: drain_inner_def py_bind_get, simp add: py_bind_def py_get_def)

lemma drain_inner_frame:
  assumes cb: "\<And>d. keeps_limiter (e_callback E d)" and dis: "\<And>f ps u. keeps_limiter (e_dispatch E f ps u)"
    and run: "drain_inner E w = (r, w')"
  shows "w_lim w' = w_lim w \<and> w_clk w' = w_clk w \<and> (w_loop w' = None \<longleftrightarrow> w_loop w = None) \<and>
    w_scripts w' = (if e_has_local_capacity E w then w_scripts (snd (consume E w)) else w_scripts w)"
proof (cases "e_has_local_capacity E w")
  case False
  then have "schedule_drain (token_interval (w_lim w)) w = (r, w')"
    using run by (simp add: drain_inner_def py_bind_get)
  from quietD [OF quiet_compose(2) this] show ?thesis using False by simp
next
  case True
  obtain q v where q: "consume E w = (q, v)" by force
  obtain rep w1 where c: "call_script E (consume_call (w_lim w)) w = (rep, w1)" by force
  note v = consume_frame(1) [OF cb c q]
  show ?thesis
  proof (cases q)
    case (Inl e)
    then have "w' = v" using run True q by (simp add: drain_inner_def py_bind_get) (simp add: py_bind_def)
    then show ?thesis using v q True by simp
  next
    case (Inr x)
    define m where "m = (if q_yielded x then schedule_drain (token_interval (w_lim w))
       else if q_success x
       then (case q_task x of
               None \<Rightarrow> py_raise AssertionError
             | Some task \<Rightarrow> py_then (dispatch_admitted E task) (py_if (0 < q_remaining_tasks x) (schedule_drain 0)))
       else if q_remaining_tasks x = 0 then py_return ()
       else if l_max_concurrency (w_lim w) \<le> q_active_concurrency x then py_return ()
       else if q_marker_skipped x then py_if (0 < q_remaining_tasks x) (schedule_drain 0)
       else if q_remaining_tokens x \<le> 0 then rate_limited_retry E x
       else py_return ())"
    have "drain_inner E w = m v"
      unfolding m_def by (rule drain_inner_consumed [OF True q [unfolded Inr]]) (use v in simp)
    then have m: "m v = (r, w')" using run by simp
    have "quiet m"
      using dispatch_admitted_quiet [OF dis] retry_quiet
      by (auto simp: m_def py_then_def py_if_def intro!: quiet_intros split: option.split)
    note rest = quietD [OF this m]
    show ?thesis using rest v q True by simp
  qed
qed

text \<open>The follow-up decision of \<^verbatim>\<open>_drain_inner\<close>, given the result of \<^verbatim>\<open>consume\<close>.\<close>

definition wants_followup :: "limiter \<Rightarrow> consume_result \<Rightarrow> bool" where
  "wants_followup l q = (q_yielded q \<or> 0 < q_remaining_tasks q \<and>
     (q_success q \<or> q_active_concurrency q < l_max_concurrency l \<and> (q_marker_skipped q \<or> q_remaining_tokens q \<le> 0)))"

lemma dispatch_admitted_keeps:
  assumes "\<And>f ps u. keeps_limiter (e_dispatch E f ps u)" "dispatch_admitted E task v = (x, v1)"
  shows "w_loop v1 = w_loop v" "w_clk v1 = w_clk v"
proof -
  have "v1 = v \<or> (\<exists>f ps u y. e_dispatch E f ps u v = (y, v1))"
    using assms(2) by (auto simp: dispatch_admitted_def task_field_def py_simps split: option.splits json.splits if_splits)
  then show "w_loop v1 = w_loop v" "w_clk v1 = w_clk v" by (auto dest: keeps_limiterD [OF assms(1)])
qed

lemma followup_scheduled:
  assumes cfg: "config_ok (w_lim w)" "0 \<le> l_jitter_min_pct (w_lim w)" "l_jitter_min_pct (w_lim w) \<le> l_jitter_max_pct (w_lim w)"
    and rnd: "\<And>n. 0 \<le> e_random E n \<and> e_random E n \<le> 1"
    and q: "0 \<le> q_active_concurrency q" "0 \<le> q_reset_in_ms q" "of_int (q_reset_in_ms q) \<le> l_window (w_lim w) * 1000"
    and cap: "e_has_local_capacity E w" and con: "consume E w = (Inr q, v)"
    and v: "w_loop v \<noteq> None" "w_lim v = w_lim w" "w_clk v = w_clk w"
    and dis: "\<And>f ps u. keeps_limiter (e_dispatch E f ps u)"
    and want: "wants_followup (w_lim w) q" and run: "drain_inner E w = (Inr (), w')"
  shows "wakes_within (w_clk w) (longest_retry (w_lim w)) w'"
proof -
  let ?l = "w_lim w"
  have w: "0 < l_window ?l" using cfg(1) by (simp add: config_ok_def)
  have hi: "0 \<le> l_window ?l * l_jitter_max_pct ?l" using w cfg(2,3) by simp
  then have le: "0 \<le> longest_retry ?l" "token_interval ?l \<le> longest_retry ?l"
    using w token_interval_le [OF cfg(1)] unfolding longest_retry_def by linarith+
  have sd: "wakes_within (w_clk w) (longest_retry ?l) w'"
    if "schedule_drain d u = (Inr (), w')" "w_loop u \<noteq> None" "w_clk u = w_clk w" "d \<le> longest_retry ?l" for d u
    using wakes_within_mono [OF conjunct2 [OF schedule_drain_within [OF that(2,1)]] that(4)] that(3) by simp
  note un = drain_inner_consumed [OF cap con v(2)]
  consider (y) "q_yielded q" | (s) "\<not> q_yielded q" "q_success q" "0 < q_remaining_tasks q"
    | (m) "\<not> q_yielded q" "\<not> q_success q" "0 < q_remaining_tasks q" "q_active_concurrency q < l_max_concurrency ?l" "q_marker_skipped q"
    | (r) "\<not> q_yielded q" "\<not> q_success q" "0 < q_remaining_tasks q" "q_active_concurrency q < l_max_concurrency ?l" "\<not> q_marker_skipped q"
        "q_remaining_tokens q \<le> 0"
    using want by (auto simp: wants_followup_def)
  then show ?thesis
  proof cases
    case y
    then have "schedule_drain (token_interval ?l) v = (Inr (), w')" using run unfolding un by simp
    then show ?thesis by (rule sd) (use v le in simp_all)
  next
    case s
    then obtain task where task: "q_task q = Some task" using run un by (cases "q_task q") (auto simp: py_raise_def)
    obtain x v1 where d: "dispatch_admitted E task v = (x, v1)" by force
    note v1 = dispatch_admitted_keeps [OF dis d]
    have "schedule_drain 0 v1 = (Inr (), w')"
      using run s task d unfolding un by (cases x) (simp_all add: py_then_def py_bind_def py_if_def)
    then show ?thesis by (rule sd) (use v v1 le in simp_all)
  next
    case m
    then have "schedule_drain 0 v = (Inr (), w')" using run unfolding un by (simp add: py_if_def)
    then show ?thesis by (rule sd) (use v le in simp_all)
  next
    case r
    then have "rate_limited_retry E q v = (Inr (), w')" using run unfolding un by simp
    then show ?thesis using retry_within [of v E q] cfg rnd q r(4) v by simp
  qed
qed

lemma expired_stops:
  assumes "e_has_local_capacity E w" "consume E w = (Inr q, v)" "q_expired q \<and> 0 < q_remaining_tokens q"
  shows "drain_inner E w = (Inr (), v)"
proof -
  obtain t task where q: "q = to_result t task"
    using assms(2) by (auto simp: consume_def py_bind_def py_then_def py_return_def py_raise_def Let_def
        split: prod.splits sum.splits reply.splits)
  then show ?thesis using assms
    by (simp add: drain_inner_def py_bind_get, simp add: py_bind_def py_get_def to_result_def py_return_def)
qed

lemma zrem_head_length:
  assumes "zinv z" "zhead z = Some m"
  shows "length (zrem m z) = length z - 1"
proof -
  obtain sc zs where z: "z = (sc, m) # zs" using assms(2) by (cases z) (auto simp: zhead_def)
  then have "filter (\<lambda>e. snd e \<noteq> m) zs = zs" using assms(1) by (force simp: zinv_def filter_id_conv)
  then show ?thesis by (simp add: z zrem_def)
qed

lemma blocked_tokens:
  assumes "\<not> has_room i a now n K" "n < ca_max_concurrency a"
  shows "cr_remaining (ks_telemetry i a now n K) = 0"
  using assms by (simp add: has_room_def ks_telemetry_def ks_estimate_def Let_def window_remaining_zero not_less)

lemma reset_range: "0 < w \<Longrightarrow> 0 \<le> redis_int (window_reset w now) \<and> of_int (redis_int (window_reset w now)) \<le> w"
  using window_reset_bounds [of w now] order_trans [OF of_int_floor_le [of "window_reset w now"], of w] by (auto simp: redis_int_def)

lemma live_leases_called [simp]: "live_leases t (called_ks i a t c K) i = live_leases t K i"
  by (simp add: live_leases_def zprune_def called_ks_def)

text \<open>The reply of a call that leaves work and a free slot asks for a follow-up, or it has dropped an expired task with tokens left.\<close>

lemma reply_followup:
  assumes sv: "redis_server R look el" and ty: "typed (l_id l) (look s)" and bo: "buffer_ok (l_id l) decode (look s)"
    and win: "0 < l_window l" "is_integral (window_ms (l_window l))"
    and run: "consume_lua R decode (drain_args l) s = (Inr t, s')"
    and buf: "zset_of (look s' (buffer_key (l_id l))) \<noteq> []"
    and free: "int (length (live_leases (fst (r_TIME R s)) (look s') (l_id l))) < l_max_concurrency l"
  shows "wants_followup l (to_result t task) \<and> 0 \<le> cr_active t \<and> 0 \<le> cr_reset_in_ms t \<and> of_int (cr_reset_in_ms t) \<le> l_window l * 1000
    \<or> q_expired (to_result t task) \<and> 0 < q_remaining_tokens (to_result t task)"
proof -
  let ?a = "drain_args l" and ?i = "l_id l" and ?now = "lua_now_ms R s" and ?ts = "fst (r_TIME R s)"
  let ?n = "int (length (live_leases ?ts (look s) ?i))"
  have ok: "call_ok ?i ?a" by (rule drain_args_ok [OF win])
  have mc: "ca_max_concurrency ?a = l_max_concurrency l" "ca_window ?a = l_window l" by (simp_all add: drain_args_def)
  have res: "0 \<le> redis_int (window_reset (window_ms (l_window l)) ?now)"
    "of_int (redis_int (window_reset (window_ms (l_window l)) ?now)) \<le> l_window l * 1000"
    using reset_range [of "window_ms (l_window l)" ?now] win(1) by (simp_all add: window_ms_def)
  show ?thesis
  proof (rule redis_server.consume_cases [OF sv ty ok bo])
    fix s1
    assume "consume_lua R decode ?a s = (Inr (yield_reply ?n), s1)"
    then show ?thesis using run win(1) by (auto simp: wants_followup_def to_result_def yield_reply_def)
  next
    fix s1
    assume c: "consume_lua R decode ?a s = (Inr (ks_telemetry ?i ?a ?now ?n (look s)), s1)"
      and k: "look s1 = called_ks ?i ?a ?ts (clock_ms R s) (look s)"
      and b: "\<not> has_room ?i ?a ?now ?n (look s) \<or> zset_of (look s (buffer_key ?i)) = []"
    have "zset_of (look s (buffer_key ?i)) \<noteq> []" "?n < l_max_concurrency l" using buf free c k run by auto
    then show ?thesis using blocked_tokens [of ?i ?a ?now ?n "look s"] b c run mc res
      by (intro disjI1) (auto simp: wants_followup_def to_result_def ks_telemetry_def Let_def)
  next
    fix s1 t1 raw td
    assume c: "consume_lua R decode ?a s = (Inr t1, s1)" and h: "zhead (zset_of (look s (buffer_key ?i))) = Some raw" "decode raw = Some td"
      and sp: "(t1, look s1) = head_spec ?i ?a raw td ?ts ?now (clock_ms R s)
          (ks_telemetry ?i ?a ?now ?n (look s)) (popped_ks ?i raw (called_ks ?i ?a ?ts (clock_ms R s) (look s)))"
      and room: "has_room ?i ?a ?now ?n (look s)"
    have eq: "t1 = t" "s1 = s'" using c run by simp_all
    have "zset_of (look s' (buffer_key ?i)) = zrem raw (zset_of (look s (buffer_key ?i)))"
      using sp by (auto simp: eq head_spec_def popped_ks_def expired_ks_def split: if_splits)
    moreover have "zinv (zset_of (look s (buffer_key ?i)))" using typedD(1) [OF ty] by simp
    ultimately have "1 < length (zset_of (look s (buffer_key ?i)))"
      using buf zrem_head_length [OF _ h(1)] by (metis length_0_conv neq0_conv zero_less_diff)
    then show ?thesis using sp eq room res mc
      by (auto simp: wants_followup_def to_result_def head_spec_def ks_telemetry_def Let_def has_room_def split: if_splits)
  qed
qed

section \<open>Properties\<close>

text \<open>The world after a drain, by the outcome of its inner part.\<close>

lemma drain_after_refresh:
  assumes "drain_refresh E w = (Inr (), w1)" "\<not> w_time w1 < l_drain_paused_until (w_lim w1)"
    and "drain_inner E w1 = (x, w2)" "drain E w = (r, w')"
  shows "x = Inr () \<Longrightarrow> r = Inr () \<and> w' = w2\<lparr>w_lim := (w_lim w2)\<lparr>l_consecutive_drain_failures := 0\<rparr>\<rparr>"
    and "x = Inl e \<Longrightarrow> drain_failed w2 = (r, w')"
  using assms by (auto simp: drain_def drain_body_def set_lim_def py_simps)

lemma drain_failed_within:
  assumes "drain_failed v = (r, w')" "l_consecutive_drain_failures (w_lim v) < 1024" "w_loop v \<noteq> None"
  shows "r = Inr () \<and> wakes_within (w_clk v) (l_window (w_lim v)) w' \<and> w_scripts w' = w_scripts v"
proof -
  define n where "n = Suc (l_consecutive_drain_failures (w_lim v))"
  define d where "d = min (l_window (w_lim v)) (2 ^ (n - 1) / 10 :: rat)"
  let ?v = "v\<lparr>w_lim := (w_lim v)\<lparr>l_consecutive_drain_failures := n\<rparr>\<rparr>"
  have e: "(r, w') = (Inr (), snd (schedule_drain d ?v))"
    using assms(1,2) by (simp add: drain_failed_def set_lim_def py_simps backoff_delay_def n_def d_def schedule_drain_eq)
  then have "schedule_drain d ?v = (Inr (), w')" by (simp add: schedule_drain_eq)
  then have "wakes_within (w_clk v) d w'" using schedule_drain_within [of ?v d "Inr ()" w'] assms(3) by simp
  moreover have "d \<le> l_window (w_lim v)" by (simp add: d_def)
  ultimately show ?thesis using e wakes_within_mono by (auto simp: n_def)
qed

text \<open>C24. The drain does not stall. Take any call of \<^verbatim>\<open>drain()\<close> on an instance with a drain loop and a valid configuration whose
  configuration refresh raised nothing, with fewer than 1024 failures in a row before it, callbacks and dispatches that leave the instance alone,
  and random numbers between 0 and 1. Suppose that after it the buffer still holds a task and fewer leases than \<^verbatim>\<open>max_concurrency\<close> are alive. Then
  the call returns normally, and the drain loop runs and wakes again within one window plus the largest jitter and two
  milliseconds, or when the pause after an update of the window is over if that is later: whether the
  drain was paused, had no local capacity, lost the connection, yielded, was rate limited, admitted a task (also when its dispatch raised) or dropped a
  marker. There is exactly one exception: the call of \<^verbatim>\<open>consume.lua\<close> dropped an expired task and reported tokens left; then no wake is
  requested, and the tasks behind it wait for the next signal or for the watchdog of the loop.\<close>

theorem drain_no_stall:
  assumes "redis_server R look el" "redis_client R decode (e_client E) srv loaded (e_files E) source sha1"
    and "drain_refresh E w = (Inr (), w1)" "drain E w = (r, w')"
    and "caches_ok source sha1 (w_scripts w1)" "typed (l_id (w_lim w1)) (look (server_of srv w1))"
    and "buffer_ok (l_id (w_lim w1)) decode (look (server_of srv w1))"
    and "config_ok (w_lim w1)" "is_integral (window_ms (l_window (w_lim w1)))"
    and "0 \<le> l_jitter_min_pct (w_lim w1)" "l_jitter_min_pct (w_lim w1) \<le> l_jitter_max_pct (w_lim w1)"
    and "\<And>n. 0 \<le> e_random E n \<and> e_random E n \<le> 1"
    and "\<And>d. keeps_limiter (e_callback E d)" "\<And>f ps u. keeps_limiter (e_dispatch E f ps u)"
    and "w_loop w1 \<noteq> None" "l_consecutive_drain_failures (w_lim w1) < 1024"
  defines "l \<equiv> w_lim w1" and "K' \<equiv> look (server_of srv w')" and "timestamp \<equiv> fst (r_TIME R (server_of srv w1))"
  assumes "zset_of (K' (buffer_key (l_id l))) \<noteq> []"
    and "int (length (live_leases timestamp K' (l_id l))) < l_max_concurrency l"
  shows "r = Inr () \<and>
    (if \<not> w_time w1 < l_drain_paused_until l \<and> e_has_local_capacity E w1 \<and>
        (\<exists>q v. consume E w1 = (Inr q, v) \<and> q_expired q \<and> 0 < q_remaining_tokens q)
     then w_loop w' = w_loop w1
     else wakes_within (w_clk w1) (max (longest_retry l) (l_drain_paused_until l - w_time w1)) w')"
proof (cases "w_time w1 < l_drain_paused_until l")
  case True
  then have "schedule_drain (l_drain_paused_until l - w_time w1) w1 = (r, w')"
    using assms(3,4) by (simp add: drain_def drain_body_def py_simps l_def schedule_drain_eq)
  from schedule_drain_within [OF assms(15) this] show ?thesis
    using True wakes_within_mono by (metis max.cobounded2)
next
  case go: False
  have win: "0 < l_window l" using assms(8) by (simp add: config_ok_def l_def)
  then have "0 \<le> l_window l * l_jitter_max_pct l" using assms(10,11) by (simp add: l_def)
  then have le: "l_window l \<le> longest_retry l" by (simp add: longest_retry_def)
  note le = le order_trans [OF token_interval_le [OF assms(8), folded l_def] le]
  have up: "wakes_within (w_clk w1) (max (longest_retry l) y) w'" if "wakes_within (w_clk w1) x w'" "x \<le> longest_retry l" for x y
    using wakes_within_mono [OF that(1)] that(2) by (simp add: le_max_iff_disj)
  obtain x w2 where x: "drain_inner E w1 = (x, w2)" by force
  note f = drain_inner_frame [OF assms(13,14) x]
  note out = drain_after_refresh [OF assms(3) go [unfolded l_def] x assms(4)]
  have failed: ?thesis if "x = Inl e" "\<And>q v. consume E w1 = (Inr q, v) \<Longrightarrow> \<not> (q_expired q \<and> 0 < q_remaining_tokens q)" for e
  proof -
    have "r = Inr () \<and> wakes_within (w_clk w2) (l_window (w_lim w2)) w'"
      using drain_failed_within [OF out(2) [OF that(1)]] f assms(15,16) by auto
    then show ?thesis using that(2) f up [OF _ le(1)] by (auto simp: l_def)
  qed
  show ?thesis
  proof (cases "e_has_local_capacity E w1")
    case False
    then have "schedule_drain (token_interval l) w1 = (x, w2)"
      using x by (simp add: drain_inner_def py_bind_get l_def)
    from schedule_drain_within [OF assms(15) this] have "x = Inr ()" "wakes_within (w_clk w1) (token_interval l) w2" by simp_all
    then have "r = Inr () \<and> wakes_within (w_clk w1) (token_interval l) w'" using out(1) by (simp add: wakes_within_def)
    then show ?thesis using False up le(2) by auto
  next
    case cap: True
    obtain y v where y: "consume E w1 = (y, v)" by force
    show ?thesis
    proof (cases y)
      case (Inl e)
      then have "x = Inl e" using x y cap by (simp add: drain_inner_def py_bind_get) (simp add: py_bind_def)
      then show ?thesis using failed y Inl by simp
    next
      case (Inr q)
      then have y: "consume E w1 = (Inr q, v)" using y by simp
      obtain t task where t: "consume_lua R decode (drain_args l) (server_of srv w1) = (Inr t, server_of srv v)" "q = to_result t task"
        and v: "w_loop v = w_loop w1" "w_lim v = w_lim w1" "w_clk v = w_clk w1"
        using consume_returns [OF assms(2,5,13) y] unfolding l_def by blast
      have "w_scripts w' = w_scripts w2"
      proof (cases x)
        case (Inl e)
        then show ?thesis using drain_failed_within [OF out(2)] f assms(15,16) by auto
      qed (use out(1) in simp)
      then have K': "K' = look (server_of srv v)" using f y cap by (simp add: K'_def server_of_def)
      note rf = reply_followup [OF assms(1,6,7) win [unfolded l_def] assms(9) t(1) [unfolded l_def]
          assms(20,21) [unfolded K' timestamp_def l_def], of task, folded t(2) l_def]
      show ?thesis
      proof (cases "q_expired q \<and> 0 < q_remaining_tokens q")
        case True
        then have "x = Inr ()" "w2 = v" using expired_stops [OF cap y] x by simp_all
        then show ?thesis using out(1) v True go cap y by auto
      next
        case False
        then have want: "wants_followup l q" "0 \<le> cr_active t" "0 \<le> cr_reset_in_ms t" "of_int (cr_reset_in_ms t) \<le> l_window l * 1000"
          using rf by blast+
        show ?thesis
        proof (cases x)
          case (Inl e)
          then show ?thesis using failed y False by auto
        next
          case (Inr u)
          then have "drain_inner E w1 = (Inr (), w2)" using x by simp
          then have "wakes_within (w_clk w1) (longest_retry l) w2"
            unfolding l_def
            by (intro followup_scheduled [OF assms(8,10,11,12) _ _ _ cap y _ v(2,3) assms(14)])
              (use want t(2) assms(15) v in \<open>simp_all add: to_result_def l_def\<close>)
          then have "wakes_within (w_clk w1) (longest_retry l) w'" using out(1) Inr by (simp add: wakes_within_def)
          then show ?thesis using up [OF _ order_refl] out(1) Inr y False by auto
        qed
      qed
    qed
  qed
qed

lemma demo_drain_args: "drain_args demo_limiter = demo_args"
  by (simp add: drain_args_def demo_args_def buffer_key_def concurrency_key_def dlq_key_def)

lemma demo_consume_yield:
  "consume (demo_env_for demo_decode) (demo_world [] demo_rival) = (Inr (to_result (yield_reply 0) None),
     (demo_world [] demo_rival)\<lparr>w_scripts := \<lparr>s_conn = \<lparr>cn_mem = snd demo_yield,
        cn_loaded = [mem_sha1 (mem_source ''consume.lua'')], cn_links = []\<rparr>,
      s_sources = [''consume.lua'' \<mapsto> mem_source ''consume.lua''],
      s_shas = [''consume.lua'' \<mapsto> mem_sha1 (mem_source ''consume.lua'')]\<rparr>\<rparr>)"
proof -
  have "run_script mem_redis demo_decode (CallConsume demo_args) demo_rival = (Inr (RepConsume (yield_reply 0)), snd demo_yield)"
    using demo_yield_reply by (simp add: run_consume demo_yield_def)
  then show ?thesis
    using demo_call [of demo_decode "CallConsume demo_args" demo_rival]
    by (simp add: consume_def py_simps consume_call_eq demo_drain_args load_task_def yield_reply_def emit_metric_def
        script_of_def Let_def del: demo_limiter_simps) (simp add: emit_metric_def py_simps)
qed

lemma demo_rival_reads: "zset_of (ks demo_rival (buffer_key ''lim'')) = [(5, ''task''), (7, ''marker'')]"
    "ks demo_rival (concurrency_key ''lim'') = None" "r_TIME mem_redis demo_rival = (1700000000, 0)"
  by (simp_all add: demo_rival_def)

lemma demo_yield_ks: "zset_of (ks (snd demo_yield) (buffer_key ''lim'')) = [(5, ''task''), (7, ''marker'')]"
    "ks (snd demo_yield) (concurrency_key ''lim'') = None"
  by (simp_all add: demo_yield_def demo_rival_def script_run demo_args_def)

text \<open>A drain that has to yield to another worker comes back.\<close>

theorem drain_no_stall_witness:
  "\<exists>w'. drain (demo_env_for demo_decode) (demo_world [] demo_rival) = (Inr (), w') \<and> wakes_within 0 (541 / 500) w'"
proof -
  let ?E = "demo_env_for demo_decode" and ?w = "demo_world [] demo_rival"
  note con = demo_consume_yield
  obtain r w' where run: "drain ?E ?w = (r, w')" by force
  have ref: "drain_refresh ?E ?w = (Inr (), ?w)"
    by (simp add: drain_refresh_def demo_env_for_def demo_env_def py_return_def)
  have lr: "longest_retry demo_limiter = 541 / 500" by (simp add: longest_retry_def)
  have int: "is_integral (window_ms (l_window demo_limiter))" by (simp add: window_ms_def is_integral_def)
  have cfg: "config_ok demo_limiter" by (simp add: config_ok_def)
  have cb: "keeps_limiter (e_callback ?E d)" "keeps_limiter (e_dispatch ?E f ps u)" for d f ps u
    by (simp_all add: keeps_limiter_def py_modify_def py_return_def)
  have cl: "redis_client mem_redis demo_decode (e_client ?E) cn_mem (\<lambda>c. set (cn_loaded c)) (e_files ?E) mem_source mem_sha1"
    using mc.redis_client_axioms by simp
  have hyps: "typed (l_id (w_lim ?w)) (ks (server_of cn_mem ?w))" "buffer_ok (l_id (w_lim ?w)) demo_decode (ks (server_of cn_mem ?w))"
    "config_ok (w_lim ?w)" "is_integral (window_ms (l_window (w_lim ?w)))" "0 \<le> l_jitter_min_pct (w_lim ?w)"
    "l_jitter_min_pct (w_lim ?w) \<le> l_jitter_max_pct (w_lim ?w)" "\<And>n. 0 \<le> e_random ?E n \<and> e_random ?E n \<le> 1"
    "w_loop ?w \<noteq> None" "l_consecutive_drain_failures (w_lim ?w) < 1024"
    using cfg int by simp_all
  have pause: "\<not> w_time ?w < l_drain_paused_until (w_lim ?w)" by simp
  obtain x w2 where x: "drain_inner ?E ?w = (x, w2)" by force
  have "x = Inr ()" using x con by (simp add: drain_inner_def py_simps to_result_def yield_reply_def schedule_drain_eq)
  then have "server_of cn_mem w' = server_of cn_mem w2"
    using drain_after_refresh(1) [OF ref pause x run] by (simp add: server_of_def)
  then have sv: "server_of cn_mem w' = snd demo_yield"
    using drain_inner_frame [OF cb x] con by (simp add: server_of_def)
  have lid: "l_id demo_limiter = ''lim''" "l_max_concurrency demo_limiter = 1" by simp_all
  have "wakes_within (w_clk ?w) (max (longest_retry demo_limiter) (l_drain_paused_until demo_limiter - 1700000000)) w' \<and> r = Inr ()"
    using drain_no_stall [OF mem.redis_server_axioms cl ref run demo_world_simps(1) hyps(1-7) cb hyps(8,9)] con
    unfolding demo_world_simps(2,3,7) sv demo_rival_reads(3) fst_conv lid
    by (simp add: demo_yield_ks live_leases_def zprune_def to_result_def yield_reply_def del: demo_limiter_simps)
  moreover have "l_drain_paused_until demo_limiter = 0" by simp
  ultimately show ?thesis using run lr by (auto simp: max_def simp del: demo_limiter_simps)
qed

text \<open>The limiter an hour later: the task at the head is too old.\<close>

definition demo_late :: mem where
  "demo_late = demo_mem\<lparr>sec := 1700003700\<rparr>"

lemma demo_late_reply: "fst (consume_lua mem_redis demo_decode demo_args demo_late) = Inr \<lparr>cr_status = - 1, cr_task = None, cr_remaining = 2,
    cr_active = 0, cr_reset_in_ms = 1000, cr_buffer = 1, cr_previous = 0, cr_current = 0\<rparr>"
  by (simp add: demo_late_def demo_mem_def mem_start_def mem_TIME_def mem_clock_def script_run demo_args_def demo_decode_def demo_task_def consume_expired_def acquire_marker_def)

text \<open>A drain that drops an expired task asks for no follow-up although a task is left.\<close>

lemma demo_expired_stops:
  "\<exists>q v. consume (demo_env_for demo_decode) (demo_world [] demo_late) = (Inr q, v) \<and> q_remaining_tasks q = 1 \<and>
     drain_inner (demo_env_for demo_decode) (demo_world [] demo_late) = (Inr (), v)"
proof -
  let ?E = "demo_env_for demo_decode" and ?w = "demo_world [] demo_late"
  let ?t = "\<lparr>cr_status = - 1, cr_task = None, cr_remaining = 2, cr_active = 0, cr_reset_in_ms = 1000, cr_buffer = 1,
     cr_previous = 0, cr_current = 0\<rparr>"
  obtain v where c: "call_script ?E (CallConsume demo_args) ?w = (Inr (RepConsume ?t), v)" "w_lim v = demo_limiter"
    using demo_call [of demo_decode "CallConsume demo_args" demo_late] demo_late_reply
    by (simp add: run_consume del: demo_limiter_simps)
  have "consume ?E ?w = (Inr (to_result ?t None), v)"
    using c by (simp add: consume_def py_simps consume_call_eq demo_drain_args load_task_def emit_metric_def Let_def
        del: demo_limiter_simps) (simp add: emit_metric_def py_simps)
  then show ?thesis using expired_stops [of ?E ?w "to_result ?t None" v] by (simp add: to_result_def)
qed

text \<open>C25. \<^verbatim>\<open>drain()\<close> survives failures. If its body raises, the failure count grows by one and, up to 1024 consecutive
  failures, the call returns normally with the drain loop running and due within the exponential backoff
  (a tenth of a second doubled per failure, at most one window). From the 1025th failure on the backoff overflows,
  no drain is requested and the exception leaves \<^verbatim>\<open>drain()\<close>. If the body raises nothing, its effect is that of the body.\<close>

theorem drain_recovers:
  assumes "drain_body E w = (rb, v)" "drain E w = (r, w')"
  defines "n \<equiv> l_consecutive_drain_failures (w_lim v) + 1"
  shows "case rb of
      Inr _ \<Rightarrow> r = Inr () \<and> w' = v
    | Inl _ \<Rightarrow> l_consecutive_drain_failures (w_lim w') = n \<and> w_scripts w' = w_scripts v \<and>
        (if n \<le> 1024
         then r = Inr () \<and> (w_loop v \<noteq> None \<longrightarrow> wakes_within (w_clk v) (min (l_window (w_lim v)) (2 ^ (n - 1) / 10)) w')
         else r = Inl OverflowError \<and> w_loop w' = w_loop v)"
proof (cases rb)
  case (Inr x)
  then show ?thesis using assms(1,2) by (auto simp: drain_def py_catch_def)
next
  case (Inl e)
  let ?v = "v\<lparr>w_lim := (w_lim v)\<lparr>l_consecutive_drain_failures := n\<rparr>\<rparr>"
  have f: "drain_failed v = (r, w')" using Inl assms(1,2) by (simp add: drain_def py_catch_def)
  show ?thesis
  proof (cases "n \<le> 1024")
    case True
    define d where "d = min (l_window (w_lim v)) (2 ^ (n - 1) / 10 :: rat)"
    have "(r, w') = (Inr (), snd (schedule_drain d ?v))"
      using f True by (simp add: drain_failed_def set_lim_def py_simps backoff_delay_def n_def d_def schedule_drain_eq)
    then show ?thesis using Inl True schedule_drain_within [of ?v d "Inr ()" w']
      by (auto simp: d_def schedule_drain_eq split: option.splits)
  next
    case False
    then show ?thesis using f Inl by (auto simp: drain_failed_def set_lim_def py_simps backoff_delay_def n_def)
  qed
qed

lemma demo_call_lost:
  "call_script (demo_env_for decode) call (demo_world [LostBefore] s) = (Inl RedisConnectionError,
    (demo_world [LostBefore] s)\<lparr>w_scripts := \<lparr>s_conn = \<lparr>cn_mem = s, cn_loaded = [], cn_links = []\<rparr>,
      s_sources = [script_of call \<mapsto> mem_source (script_of call)], s_shas = Map.empty\<rparr>\<rparr>)"
  by (simp add: call_script_def on_scripts_def eval_script_def register_script_def py_simps lookup_key_def
      on_conn_def Let_def demo_world_def mem_client_run mem_source_def mem_files_def default_resource_packages_def)

theorem drain_recovers_witness:
  "\<exists>w'. drain (demo_env_for demo_decode) (demo_world [LostBefore] demo_mem) = (Inr (), w') \<and>
     l_consecutive_drain_failures (w_lim w') = 1 \<and> wakes_within 0 (1 / 10) w'"
proof -
  let ?E = "demo_env_for demo_decode" and ?w = "demo_world [LostBefore] demo_mem"
  obtain rb v where b: "drain_body ?E ?w = (rb, v)" by force
  obtain r w' where d: "drain ?E ?w = (r, w')" by force
  have ref: "e_refresh ?E = None" by (simp add: demo_env_for_def demo_env_def)
  have pause: "\<not> w_time ?w < l_drain_paused_until (w_lim ?w)" by simp
  have "rb = Inl RedisConnectionError \<and> w_lim v = demo_limiter \<and> w_loop v \<noteq> None \<and> w_clk v = 0"
    using b pause demo_call_lost [of demo_decode "CallConsume demo_args" demo_mem]
    by (auto simp: drain_body_def drain_refresh_def ref drain_inner_def consume_def py_simps consume_call_eq demo_drain_args
        simp del: demo_limiter_simps)
  then show ?thesis using drain_recovers [OF b d] d by auto
qed

end
