(* ===== verification/Async_Props.thy ===== *)
theory Async_Props
  imports Async_Distributed Drain_Props
begin

text \<open>
  The asynchronous limiter refines the synchronous one. The abstraction \<open>settle\<close> runs the wakes that the event loop
  has not run yet; a coroutine of a running limiter followed by it is the synchronous method on the
  settled world. Construction with start, before the limiter runs, and shutdown, which ends it, are compared separately.
\<close>

section \<open>The simulation and its rules\<close>

definition settle :: "'c world \<Rightarrow> 'c world" where
  "settle w = w\<lparr>w_loop := map_option (\<lambda>l. (flush_wakes (dl_pending l) l)\<lparr>dl_pending := []\<rparr>) (w_loop w)\<rparr>"

text \<open>A started limiter whose drain loop has not been shut down.\<close>

definition running :: "'c world \<Rightarrow> bool" where
  "running w = (w_hb_created w \<and> (case w_loop w of None \<Rightarrow> True | Some l \<Rightarrow> \<not> dl_shutdown l))"

definition simulates :: "('c world, 'a) py \<Rightarrow> ('c world, 'a) py \<Rightarrow> bool" where
  "simulates m n = (\<forall>w. running w \<longrightarrow> n (settle w) = map_prod id settle (m w) \<and> running (snd (m w)))"

named_theorems sim_intros \<open>rules that prove a simulation along the structure of a method\<close>

lemma settle_fields [simp]:
  "w_scripts (settle w) = w_scripts w" "w_lim (settle w) = w_lim w" "w_time (settle w) = w_time w"
  "w_clk (settle w) = w_clk w" "w_hb (settle w) = w_hb w" "w_monitor (settle w) = w_monitor w"
  "w_subscriber (settle w) = w_subscriber w" "w_metrics (settle w) = w_metrics w" "w_events (settle w) = w_events w"
  "w_uuids (settle w) = w_uuids w" "w_rands (settle w) = w_rands w" "w_shutdown_called (settle w) = w_shutdown_called w"
  "w_hb_created (settle w) = w_hb_created w" "w_local (settle w) = w_local w" "(w_loop (settle w) = None) = (w_loop w = None)"
  by (simp_all add: settle_def)

lemma settle_updates:
  "settle (w\<lparr>w_scripts := s\<rparr>) = (settle w)\<lparr>w_scripts := s\<rparr>" "settle (w\<lparr>w_lim := l\<rparr>) = (settle w)\<lparr>w_lim := l\<rparr>"
  "settle (w\<lparr>w_hb := h\<rparr>) = (settle w)\<lparr>w_hb := h\<rparr>" "settle (w\<lparr>w_uuids := n\<rparr>) = (settle w)\<lparr>w_uuids := n\<rparr>"
  "settle (w\<lparr>w_rands := n\<rparr>) = (settle w)\<lparr>w_rands := n\<rparr>" "settle (w\<lparr>w_metrics := ms\<rparr>) = (settle w)\<lparr>w_metrics := ms\<rparr>"
  "settle (w\<lparr>w_events := es\<rparr>) = (settle w)\<lparr>w_events := es\<rparr>" "settle (w\<lparr>w_monitor := m\<rparr>) = (settle w)\<lparr>w_monitor := m\<rparr>"
  "settle (w\<lparr>w_local := k\<rparr>) = (settle w)\<lparr>w_local := k\<rparr>"
  by (simp_all add: settle_def)

lemma running_updates [simp]:
  "running (w\<lparr>w_scripts := s\<rparr>) = running w" "running (w\<lparr>w_lim := l\<rparr>) = running w" "running (w\<lparr>w_hb := h\<rparr>) = running w"
  "running (w\<lparr>w_uuids := n\<rparr>) = running w" "running (w\<lparr>w_rands := n\<rparr>) = running w" "running (w\<lparr>w_metrics := ms\<rparr>) = running w"
  "running (w\<lparr>w_events := es\<rparr>) = running w" "running (w\<lparr>w_monitor := m\<rparr>) = running w" "running (w\<lparr>w_local := k\<rparr>) = running w"
  by (simp_all add: running_def)

lemma simulatesD:
  assumes "simulates m n" "running w" "m w = (r, w')"
  shows "n (settle w) = (r, settle w')" "running w'"
  using assms unfolding simulates_def by (metis id_apply map_prod_simp, metis snd_conv)

lemma simulatesI:
  assumes "\<And>w r w'. running w \<Longrightarrow> m w = (r, w') \<Longrightarrow> n (settle w) = (r, settle w') \<and> running w'"
  shows "simulates m n"
proof -
  have "n (settle w) = map_prod id settle (m w) \<and> running (snd (m w))" if "running w" for w
    using assms [OF that, of "fst (m w)" "snd (m w)"] by (cases "m w") simp
  then show ?thesis by (simp add: simulates_def)
qed

lemma sim_return [sim_intros]: "simulates (py_return x) (py_return x)"
  and sim_raise [sim_intros]: "simulates (py_raise e) (py_raise e)"
  by (simp_all add: simulates_def py_return_def py_raise_def)

lemma sim_get [sim_intros]: "(\<And>w. g (settle w) = f w) \<Longrightarrow> simulates (py_get f) (py_get g)"
  by (simp add: simulates_def py_get_def)

lemma sim_modify: "(\<And>w. running w \<Longrightarrow> g (settle w) = settle (f w) \<and> running (f w)) \<Longrightarrow> simulates (py_modify f) (py_modify g)"
  by (simp add: simulates_def py_modify_def)

lemma sim_bind [sim_intros]:
  assumes "simulates m n" "\<And>x. simulates (f x) (g x)"
  shows "simulates (py_bind m f) (py_bind n g)"
proof (rule simulatesI)
  fix w r w' assume w: "running w" "py_bind m f w = (r, w')"
  obtain x v where v: "m w = (x, v)" by force
  show "py_bind n g (settle w) = (r, settle w') \<and> running w'"
    using w simulatesD [OF assms(1) w(1) v] simulatesD [OF assms(2), of v] v
    by (cases x) (auto simp: py_bind_def)
qed

lemma sim_then [sim_intros]: "simulates m n \<Longrightarrow> simulates f g \<Longrightarrow> simulates (py_then m f) (py_then n g)"
  unfolding py_then_def by (rule sim_bind)

lemma sim_catch [sim_intros]:
  assumes "simulates m n" "\<And>e. simulates (f e) (g e)"
  shows "simulates (py_catch m f) (py_catch n g)"
proof (rule simulatesI)
  fix w r w' assume w: "running w" "py_catch m f w = (r, w')"
  obtain x v where v: "m w = (x, v)" by force
  show "py_catch n g (settle w) = (r, settle w') \<and> running w'"
    using w simulatesD [OF assms(1) w(1) v] simulatesD [OF assms(2), of v] v
    by (cases x) (auto simp: py_catch_def)
qed

lemma sim_finally [sim_intros]:
  assumes "simulates m n" "simulates f g"
  shows "simulates (py_finally m f) (py_finally n g)"
proof (rule simulatesI)
  fix w r w' assume w: "running w" "py_finally m f w = (r, w')"
  obtain x v where v: "m w = (x, v)" by force
  obtain y u where u: "f v = (y, u)" by force
  show "py_finally n g (settle w) = (r, settle w') \<and> running w'"
    using w simulatesD [OF assms(1) w(1) v] simulatesD [OF assms(2) _ u] v u
    by (cases y) (auto simp: py_finally_def)
qed

lemma sim_py_if [sim_intros]: "simulates m n \<Longrightarrow> simulates (py_if b m) (py_if b n)"
  by (simp add: py_if_def sim_return)

lemma sim_if [sim_intros]:
  "(b \<Longrightarrow> simulates m n) \<Longrightarrow> (\<not> b \<Longrightarrow> simulates f g) \<Longrightarrow> simulates (if b then m else f) (if b then n else g)"
  by simp

lemma sim_option [sim_intros]:
  "simulates m n \<Longrightarrow> (\<And>x. simulates (f x) (g x)) \<Longrightarrow>
   simulates (case v of None \<Rightarrow> m | Some x \<Rightarrow> f x) (case v of None \<Rightarrow> n | Some x \<Rightarrow> g x)"
  by (cases v) simp_all

lemma sim_sum [sim_intros]:
  "(\<And>x. simulates (m x) (n x)) \<Longrightarrow> (\<And>x. simulates (f x) (g x)) \<Longrightarrow>
   simulates (case v of Inl x \<Rightarrow> m x | Inr x \<Rightarrow> f x) (case v of Inl x \<Rightarrow> n x | Inr x \<Rightarrow> g x)"
  by (cases v) simp_all

lemma sim_on_scripts [sim_intros]: "simulates (on_scripts m) (on_scripts m)"
  by (rule simulatesI) (auto simp: on_scripts_def settle_updates split: prod.splits)

lemma sim_on_redis [sim_intros]: "simulates (on_redis m) (on_redis m)"
  unfolding on_redis_def by (rule sim_on_scripts)

lemma sim_set_lim [sim_intros]: "simulates (set_lim f) (set_lim f)"
  unfolding set_lim_def by (rule sim_modify) (simp add: settle_updates)

lemma sim_next [sim_intros]:
  "e_uuid A = e_uuid S \<Longrightarrow> simulates (next_uuid A) (next_uuid S)"
  "e_random A = e_random S \<Longrightarrow> simulates (next_random A) (next_random S)"
  by (rule simulatesI, auto simp: next_uuid_def next_random_def settle_updates)+

lemma sim_load_task [sim_intros]: "simulates (load_task t) (load_task t)"
  unfolding load_task_def by (auto split: option.split json.split intro: sim_return sim_raise)

lemma sim_task_field [sim_intros]: "simulates (task_field fs k) (task_field fs k)"
  unfolding task_field_def by (intro sim_intros)

section \<open>Wakes\<close>

lemma flush_wakes_frame [simp]: "dl_shutdown (flush_wakes ts l) = dl_shutdown l" "dl_pending (flush_wakes ts l) = dl_pending l"
  by (induction ts l rule: flush_wakes.induct)
    (auto simp: loop_wake_async_def async_loop_ensure_started_def Let_def split: option.splits)

lemma flush_wakes_append: "flush_wakes (ts @ us) l = flush_wakes us (flush_wakes ts l)"
  by (induction ts l rule: flush_wakes.induct) simp_all

lemma wake_async_pending: "fst (loop_wake_async t (l\<lparr>dl_pending := p\<rparr>)) = (fst (loop_wake_async t l))\<lparr>dl_pending := p\<rparr>"
  by (cases l) (simp add: loop_wake_async_def async_loop_ensure_started_def Let_def split: option.split)

lemma flush_wakes_pending: "flush_wakes ts (l\<lparr>dl_pending := p\<rparr>) = (flush_wakes ts l)\<lparr>dl_pending := p\<rparr>"
  by (induction ts l rule: flush_wakes.induct) (simp_all add: wake_async_pending)

lemma wake_async_live: "\<not> dl_shutdown l \<Longrightarrow> fst (loop_wake_async (clk + d) l) = fst (loop_wake clk d l)"
  by (simp add: loop_wake_async_def loop_wake_def loop_request_def loop_ensure_started_def async_loop_ensure_started_def Let_def)

lemma sim_schedule_drain [sim_intros]: "simulates (async_schedule_drain d) (schedule_drain d)"
  unfolding async_schedule_drain_def schedule_drain_def
proof (rule sim_modify)
  fix w :: "'c world" assume r: "running w"
  show "(case w_loop (settle w) of None \<Rightarrow> settle w | Some l \<Rightarrow> (settle w)\<lparr>w_loop := Some (fst (loop_wake (w_clk (settle w)) d l))\<rparr>) =
      settle (case w_loop w of None \<Rightarrow> w | Some l \<Rightarrow> w\<lparr>w_loop := Some (async_loop_wake (w_clk w) d l)\<rparr>) \<and>
    running (case w_loop w of None \<Rightarrow> w | Some l \<Rightarrow> w\<lparr>w_loop := Some (async_loop_wake (w_clk w) d l)\<rparr>)"
  proof (cases "w_loop w")
    case (Some l)
    then have "\<not> dl_shutdown ((flush_wakes (dl_pending l) l)\<lparr>dl_pending := []\<rparr>)" using r by (simp add: running_def)
    from wake_async_live [OF this, of "w_clk w" d] Some r show ?thesis
      by (simp add: settle_def running_def async_loop_wake_def flush_wakes_append flush_wakes_pending wake_async_pending)
  qed (use r in \<open>simp add: settle_def\<close>)
qed

section \<open>The methods\<close>

lemma async_register_script_eq: "async_register_script files C n = register_script files C n"
  by (simp add: async_register_script_def register_script_def)

lemma async_eval_script_eq: "async_eval_script files C call = eval_script files C call"
  unfolding async_eval_script_def eval_script_def async_register_script_eq async_evalsha_cached_def evalsha_cached_def ..

lemma async_heartbeat_eq:
  "async_heartbeat_init = heartbeat_init" "async_hb_register = hb_register" "async_hb_deregister = hb_deregister"
  "async_hb_renew_one = hb_renew_one" "async_hb_stop = hb_stop" "async_hb_reschedule = hb_reschedule"
  "async_hb_get_entry = hb_get_entry" "async_hb_ensure_started = hb_ensure_started"
  by (simp_all add: fun_eq_iff async_heartbeat_init_def heartbeat_init_def async_hb_register_def hb_register_def
      async_hb_deregister_def hb_deregister_def async_hb_renew_one_def hb_renew_one_def async_hb_stop_def hb_stop_def
      async_hb_reschedule_def hb_reschedule_def async_hb_get_entry_def hb_get_entry_def
      async_hb_ensure_started_def hb_ensure_started_def)

text \<open>The hooks of the two classes do the same up to pending wakes.\<close>

definition hooks_agree :: "'c env \<Rightarrow> 'c env \<Rightarrow> bool" where
  "hooks_agree A S = (e_client A = e_client S \<and> e_files A = e_files S \<and> e_md5 A = e_md5 S \<and> e_uuid A = e_uuid S
     \<and> e_random A = e_random S \<and> (\<forall>d. simulates (e_callback A d) (e_callback S d))
     \<and> (\<forall>f ps u. simulates (e_dispatch A f ps u) (e_dispatch S f ps u))
     \<and> (case (e_refresh A, e_refresh S) of (None, None) \<Rightarrow> True | (Some m, Some n) \<Rightarrow> simulates m n | _ \<Rightarrow> False)
     \<and> (case (e_check_health A, e_check_health S) of (None, None) \<Rightarrow> True | (Some m, Some n) \<Rightarrow> simulates m n | _ \<Rightarrow> False)
     \<and> (\<forall>w. e_has_local_capacity S (settle w) = e_has_local_capacity A w))"

lemma hooks_agreeD:
  assumes "hooks_agree A S"
  shows "e_client A = e_client S" "e_files A = e_files S" "e_md5 A = e_md5 S" "e_uuid A = e_uuid S" "e_random A = e_random S"
    "simulates (e_callback A d) (e_callback S d)" "simulates (e_dispatch A f ps u) (e_dispatch S f ps u)"
    "e_has_local_capacity S (settle w) = e_has_local_capacity A w"
  using assms by (simp_all add: hooks_agree_def)

lemma sim_call_script [sim_intros]: "hooks_agree A S \<Longrightarrow> simulates (async_call_script A call) (call_script S call)"
  by (simp add: async_call_script_def call_script_def async_eval_script_eq hooks_agreeD sim_on_scripts)

lemma sim_emit_metric [sim_intros]: "hooks_agree A S \<Longrightarrow> simulates (emit_metric A d) (emit_metric S d)"
  unfolding emit_metric_def by (intro sim_intros hooks_agreeD) simp_all

lemma sim_trigger_consume [sim_intros]: "hooks_agree A S \<Longrightarrow> simulates (async_trigger_consume A) (trigger_consume S)"
  unfolding async_trigger_consume_def trigger_consume_def async_publish_drain_signal_def publish_drain_signal_def
  by (simp only: hooks_agreeD) (intro sim_intros, simp_all)

lemma sim_cleanup [sim_intros]: "hooks_agree A S \<Longrightarrow> simulates (async_cleanup_inflight_key A k) (cleanup_inflight_key S k)"
  unfolding async_cleanup_inflight_key_def cleanup_inflight_key_def
  by (simp only: hooks_agreeD) (intro sim_intros)

lemma sim_schedule_task [sim_intros]:
  assumes "hooks_agree A S"
  shows "simulates (async_schedule_task A f ps p m) (schedule_task S f ps p m)"
  unfolding async_schedule_task_def schedule_task_def Let_def hooks_agreeD(1,3) [OF assms]
  by (intro sim_intros assms) simp_all

lemma sim_reply [sim_intros]:
  "(\<And>x. simulates (f1 x) (g1 x)) \<Longrightarrow> simulates f2 g2 \<Longrightarrow> (\<And>x. simulates (f3 x) (g3 x)) \<Longrightarrow> (\<And>x. simulates (f4 x) (g4 x)) \<Longrightarrow>
   (\<And>x. simulates (f5 x) (g5 x)) \<Longrightarrow> (\<And>x. simulates (f6 x) (g6 x)) \<Longrightarrow>
   simulates (case v of RepConsume x \<Rightarrow> f1 x | RepNil \<Rightarrow> f2 | RepAcquire x \<Rightarrow> f3 x | RepHealth x \<Rightarrow> f4 x | RepInt x \<Rightarrow> f5 x | RepPair x \<Rightarrow> f6 x)
     (case v of RepConsume x \<Rightarrow> g1 x | RepNil \<Rightarrow> g2 | RepAcquire x \<Rightarrow> g3 x | RepHealth x \<Rightarrow> g4 x | RepInt x \<Rightarrow> g5 x | RepPair x \<Rightarrow> g6 x)"
  by (cases v) simp_all

lemma sim_consume [sim_intros]:
  assumes "hooks_agree A S"
  shows "simulates (async_consume A) (consume S)"
  unfolding async_consume_def consume_def consume_call_def Let_def by (intro sim_intros assms) simp_all

lemma sim_extend_lease [sim_intros]:
  assumes "hooks_agree A S"
  shows "simulates (async_extend_lease A u d) (extend_lease S u d)"
  unfolding async_extend_lease_def extend_lease_def by (intro sim_intros assms) simp_all

lemma sim_get_buffer_count [sim_intros]:
  assumes "hooks_agree A S"
  shows "simulates (async_get_buffer_count A) (get_buffer_count S)"
  unfolding async_get_buffer_count_def get_buffer_count_def hooks_agreeD(1) [OF assms] by (intro sim_intros) simp_all

lemma sim_get_status [sim_intros]:
  assumes "hooks_agree A S"
  shows "simulates (async_get_status A) (get_status S)"
  unfolding async_get_status_def get_status_def by (intro sim_intros assms) simp_all

lemma sim_task_lifecycle [sim_intros]: "simulates (async_task_lifecycle u ov) (task_lifecycle u ov)"
  unfolding async_task_lifecycle_def task_lifecycle_def async_lifecycle_init_def lifecycle_init_def by (intro sim_intros) simp_all

lemma sim_lifecycle_enter [sim_intros]: "simulates (async_lifecycle_enter lc) (lifecycle_enter lc)"
  by (rule simulatesI)
    (auto simp: async_lifecycle_enter_def lifecycle_enter_def async_heartbeat_eq running_def settle_updates split: prod.splits)

lemma sim_lifecycle_exit [sim_intros]:
  assumes "hooks_agree A S"
  shows "simulates (async_lifecycle_exit A lc) (lifecycle_exit S lc)"
proof -
  have d: "simulates (py_modify (\<lambda>w. w\<lparr>w_hb := hb_deregister u (w_hb w)\<rparr>)) (py_modify (\<lambda>w. w\<lparr>w_hb := hb_deregister u (w_hb w)\<rparr>))" for u
    by (rule sim_modify) (simp add: settle_updates)
  show ?thesis
    unfolding async_lifecycle_exit_def lifecycle_exit_def Let_def async_heartbeat_eq by (intro d sim_intros assms) simp_all
qed

lemma sim_with_lifecycle [sim_intros]:
  "hooks_agree A S \<Longrightarrow> simulates b c \<Longrightarrow> simulates (async_with_lifecycle A lc b) (with_lifecycle S lc c)"
  unfolding async_with_lifecycle_def with_lifecycle_def by (intro sim_intros)

lemma sim_acquire [sim_intros]:
  assumes "hooks_agree A S"
  shows "simulates (async_acquire A t p) (acquire S t p)"
  unfolding async_acquire_def acquire_def hooks_agreeD(1) [OF assms]
  by (intro sim_intros assms hooks_agreeD(4) [OF assms]) simp_all

lemma sim_dispatch [sim_intros]:
  assumes "hooks_agree A S"
  shows "simulates (async_dispatch_admitted A t) (dispatch_admitted S t)"
proof -
  have "simulates (case (f, p, i) of (JStr f, JObj ps, Some (JStr u)) \<Rightarrow> e_dispatch A f ps u | _ \<Rightarrow> py_raise TypeError)
      (case (f, p, i) of (JStr f, JObj ps, Some (JStr u)) \<Rightarrow> e_dispatch S f ps u | _ \<Rightarrow> py_raise TypeError)" for f p i
    by (auto split: json.split option.split intro: sim_raise hooks_agreeD(7) [OF assms])
  then show ?thesis unfolding async_dispatch_admitted_def dispatch_admitted_def by (intro sim_intros) simp_all
qed

lemma sim_retry [sim_intros]:
  assumes "hooks_agree A S"
  shows "simulates (async_rate_limited_retry A q) (rate_limited_retry S q)"
  unfolding async_rate_limited_retry_def rate_limited_retry_def Let_def
  by (intro sim_intros hooks_agreeD(5) [OF assms]) simp_all

lemma sim_drain_inner [sim_intros]:
  assumes "hooks_agree A S"
  shows "simulates (async_drain_inner A) (drain_inner S)"
  unfolding async_drain_inner_def drain_inner_def
  by (intro sim_intros assms hooks_agreeD(8) [OF assms]) simp_all

lemma sim_drain_refresh [sim_intros]:
  assumes "hooks_agree A S"
  shows "simulates (async_drain_refresh A) (drain_refresh S)"
proof (cases "e_refresh A")
  case None
  then have "e_refresh S = None" using assms by (auto simp: hooks_agree_def split: option.splits)
  then show ?thesis using None by (simp add: async_drain_refresh_def drain_refresh_def sim_return)
next
  case (Some m)
  then obtain n where n: "e_refresh S = Some n" "simulates m n" using assms by (auto simp: hooks_agree_def split: option.splits)
  show ?thesis unfolding async_drain_refresh_def drain_refresh_def Some n(1) option.case
    by (intro sim_intros n(2)) simp_all
qed

lemma sim_drain [sim_intros]:
  assumes "hooks_agree A S"
  shows "simulates (async_drain A) (drain S)"
  unfolding async_drain_def drain_def async_drain_body_def drain_body_def async_drain_failed_def drain_failed_def
  by (intro sim_intros assms) simp_all

lemma sim_subscriber_handle [sim_intros]: "simulates (async_subscriber_handle m) (subscriber_handle m)"
  unfolding async_subscriber_handle_def subscriber_handle_def
  by (auto split: option.split prod.split intro!: sim_intros)

lemma sim_loop_drain [sim_intros]: "hooks_agree A S \<Longrightarrow> simulates (async_loop_drain A) (loop_drain S)"
  unfolding async_loop_drain_def loop_drain_def by (intro sim_intros)

lemma sim_set_healthy [sim_intros]: "simulates (async_set_healthy b lc) (set_healthy b lc)"
  unfolding async_set_healthy_def set_healthy_def by (rule sim_modify) (simp add: settle_updates split: option.split)

lemma sim_monitor_run_once [sim_intros]:
  assumes "hooks_agree A S"
  shows "simulates (async_monitor_run_once A) (monitor_run_once S)"
proof -
  have c: "simulates (case e_check_health A of None \<Rightarrow> py_return True | Some check \<Rightarrow> check)
      (case e_check_health S of None \<Rightarrow> py_return True | Some check \<Rightarrow> check)"
    using assms by (auto simp: hooks_agree_def sim_return split: option.splits)
  show ?thesis unfolding async_monitor_run_once_def monitor_run_once_def
    by (intro c sim_intros sim_modify) (auto simp: settle_updates split: option.split)
qed

lemma sim_renew_one:
  assumes "hooks_agree A S" "running w"
  shows "renew_one S u action (settle w) = map_prod id settle (async_renew_one A u action w)"
proof -
  obtain x v where x: "async_extend_lease A u (l_lease_duration (w_lim w)) w = (x, v)" by force
  note y = simulatesD [OF sim_extend_lease [OF assms(1)] assms(2) x]
  show ?thesis using x y by (simp add: renew_one_def async_renew_one_def async_heartbeat_eq settle_updates split: prod.split)
qed

subsection \<open>Construction and shutdown\<close>

lemma on_scripts_bind: "py_bind (on_scripts m) (\<lambda>x. on_scripts (f x)) = on_scripts (py_bind m f)"
  by (rule ext) (auto simp: on_scripts_def py_bind_def split: prod.splits sum.splits)

lemma on_scripts_return: "on_scripts (py_return x) = py_return x"
  by (rule ext) (simp add: on_scripts_def py_return_def)

lemma register_all_scripts: "\<exists>g. register_all E names = on_scripts g"
proof (induction names)
  case Nil
  then show ?case by (metis register_all_def foldr.simps(1) id_apply on_scripts_return)
next
  case (Cons n names)
  then obtain g where "register_all E names = on_scripts g" by blast
  then have "register_all E (n # names) = on_scripts (py_bind (register_script (e_files E) (e_client E) n) (\<lambda>_. g))"
    by (simp add: register_all_def on_scripts_bind)
  then show ?case by blast
qed

lemma async_register_all_eq: "async_register_all E names = register_all E names"
  by (simp add: async_register_all_def register_all_def async_register_script_eq)

text \<open>Construction in two steps: creating an asynchronous limiter and awaiting \<^verbatim>\<open>start()\<close> succeeds exactly when
  constructing the synchronous limiter with the same arguments does, and then the two limiters are in the same state.\<close>

lemma async_start_matches:
  assumes "hooks_agree A S"
  shows "(py_then (async_distributed_init A a) (async_start A) w = (Inr (), w')) = (distributed_init S a w = (Inr (), w'))"
proof (cases "mixin_init a (e_uuid S (w_uuids w))")
  case (Inl e)
  then show ?thesis
    by (simp add: async_distributed_init_def distributed_init_def next_uuid_def py_simps hooks_agreeD(4) [OF assms])
next
  case (Inr l)
  have "register_all A = register_all S" by (intro ext) (simp add: register_all_def hooks_agreeD(1,2) [OF assms])
  moreover have "(e_check_health A = None) = (e_check_health S = None)" using assms by (auto simp: hooks_agree_def split: option.splits)
  ultimately have same: "register_all A = register_all S" "(e_check_health A = None) = (e_check_health S = None)" by simp_all
  obtain g where g: "register_all S limiter_scripts = on_scripts g" using register_all_scripts by blast
  obtain r sc where r: "g ((w_scripts w)\<lparr>s_sources := Map.empty, s_shas := Map.empty\<rparr>) = (r, sc)" by force
  obtain x sc' where x: "on_conn (c_subscribe (e_client S) (drain_signal_channel (l_id l))) sc = (x, sc')" by force
  show ?thesis
    using Inr r x
    by (cases w; cases r; cases x)
      (auto simp: async_distributed_init_def distributed_init_def next_uuid_def py_simps async_start_def async_register_all_eq g
        on_scripts_def on_redis_def async_subscriber_start_def subscriber_start_def async_heartbeat_eq async_monitor_start_def
        same hooks_agreeD(1,4) [OF assms])
qed

text \<open>A shutdown leaves the same state behind, apart from the connection and the loop: the asynchronous subscriber unsubscribes where
  the other one publishes, and wakes that are still pending run after the loop was told to stop. Neither raises, and both
  loops are told to stop.\<close>

definition shut_alike :: "'c world \<Rightarrow> 'c world \<Rightarrow> bool" where
  "shut_alike w v = (v = w\<lparr>w_scripts := w_scripts v, w_loop := w_loop v\<rparr>
     \<and> map_option dl_shutdown (w_loop w) = map_option (\<lambda>_. True) (w_loop v)
     \<and> map_option dl_shutdown (w_loop v) = map_option (\<lambda>_. True) (w_loop w) \<and> w_shutdown_called w)"

lemma on_redis_frame: "\<exists>s. py_catch (on_redis m) (\<lambda>_. py_return ()) w = (Inr (), w\<lparr>w_scripts := s\<rparr>)" for m :: "('c, unit) py"
  by (cases w) (auto simp: py_catch_def on_redis_def on_scripts_def py_return_def split: prod.split sum.split)

lemma shutdown_alike:
  assumes "running w"
  shows "fst (async_shutdown A w) = Inr () \<and> fst (shutdown S (settle w)) = Inr () \<and>
    shut_alike (snd (async_shutdown A w)) (snd (shutdown S (settle w)))"
proof -
  have hb: "w_hb_created w" using assms by (simp add: running_def)
  let ?w = "(async_monitor_shutdown (w\<lparr>w_shutdown_called := True\<rparr>))\<lparr>w_loop := map_option async_loop_shutdown (w_loop w)\<rparr>"
  let ?v = "(monitor_shutdown ((settle w)\<lparr>w_shutdown_called := True\<rparr>))\<lparr>w_loop := map_option loop_shutdown (w_loop (settle w))\<rparr>"
  obtain s where s: "py_catch (on_redis (c_unsubscribe (e_client A))) (\<lambda>_. py_return ())
      (?w\<lparr>w_subscriber := map_option (\<lambda>s. s\<lparr>sb_shutdown := True\<rparr>) (w_subscriber ?w)\<rparr>) =
      (Inr (), ?w\<lparr>w_subscriber := map_option (\<lambda>s. s\<lparr>sb_shutdown := True\<rparr>) (w_subscriber ?w)\<rparr>\<lparr>w_scripts := s\<rparr>)"
    using on_redis_frame by blast
  obtain t where t: "py_catch (on_redis (c_publish (e_client S) (drain_signal_channel (l_id (w_lim ?v))) [])) (\<lambda>_. py_return ())
      (?v\<lparr>w_subscriber := map_option (\<lambda>s. s\<lparr>sb_shutdown := True, sb_running := False\<rparr>) (w_subscriber ?v)\<rparr>) =
      (Inr (), ?v\<lparr>w_subscriber := map_option (\<lambda>s. s\<lparr>sb_shutdown := True, sb_running := False\<rparr>) (w_subscriber ?v)\<rparr>\<lparr>w_scripts := t\<rparr>)"
    using on_redis_frame by blast
  show ?thesis
    using s t hb
    by (cases w; cases "w_subscriber w"; cases "w_loop w")
      (simp_all add: async_shutdown_def shutdown_def async_subscriber_shutdown_def subscriber_shutdown_def py_then_def py_bind_def
        py_modify_def py_get_def py_if_def py_return_def async_monitor_shutdown_def monitor_shutdown_def shut_alike_def settle_def
        async_loop_shutdown_def loop_shutdown_def async_heartbeat_eq hb_stop_def)
qed

section \<open>Properties\<close>

text \<open>C26. The asynchronous limiter refines the synchronous one. For environments whose hooks do the same, each coroutine below, on a started
  limiter that is not shut down, returns or raises exactly what the method of the synchronous class does
  on the world in which the pending wakes have run, and after running its own pending wakes it leaves exactly the world of that
  method: scheduling, inline acquisition, consumption, lease extension, status and buffer count, the task lifecycle around any
  body, its health flag, draining with its recovery and as the loop calls it, signals sent and received, one round of the health monitor and one renewal of the
  heartbeat. Construction with \<^verbatim>\<open>start()\<close> succeeds exactly when the synchronous constructor does, with the same
  state. \<^verbatim>\<open>shutdown()\<close> raises nothing in both classes and leaves the same state, apart from the connection and the loops,
  which are both told to stop. A coroutine runs here without other coroutines at its \<^verbatim>\<open>await\<close> points, the pending
  wakes excepted.\<close>

theorem async_refines_sync:
  assumes "hooks_agree A S" "simulates body body'"
  shows "simulates (async_schedule_task A f ps p m) (schedule_task S f ps p m)
    \<and> simulates (async_acquire A t p) (acquire S t p)
    \<and> simulates (async_consume A) (consume S)
    \<and> simulates (async_extend_lease A u d) (extend_lease S u d)
    \<and> simulates (async_get_buffer_count A) (get_buffer_count S)
    \<and> simulates (async_get_status A) (get_status S)
    \<and> simulates (async_task_lifecycle u ov) (task_lifecycle u ov)
    \<and> simulates (async_with_lifecycle A lc body) (with_lifecycle S lc body')
    \<and> simulates (async_set_healthy b lc) (set_healthy b lc)
    \<and> simulates (async_drain A) (drain S)
    \<and> simulates (async_loop_drain A) (loop_drain S)
    \<and> simulates (async_trigger_consume A) (trigger_consume S)
    \<and> simulates (async_subscriber_handle msg) (subscriber_handle msg)
    \<and> simulates (async_monitor_run_once A) (monitor_run_once S)
    \<and> (running w \<longrightarrow> renew_one S u action (settle w) = map_prod id settle (async_renew_one A u action w)
        \<and> is_healthy lc (settle w) = async_is_healthy lc w \<and> del_warns (settle w) = async_del_warns w)
    \<and> (py_then (async_distributed_init A a) (async_start A) v = (Inr (), v')) = (distributed_init S a v = (Inr (), v'))
    \<and> (running w \<longrightarrow> fst (async_shutdown A w) = Inr () \<and> fst (shutdown S (settle w)) = Inr ()
        \<and> shut_alike (snd (async_shutdown A w)) (snd (shutdown S (settle w))))"
  by (intro conjI impI sim_intros assms sim_renew_one async_start_matches)
    (simp_all add: shutdown_alike is_healthy_def async_is_healthy_def del_warns_def async_del_warns_def split: option.split)

lemma demo_hooks_agree: "hooks_agree (demo_env_for d) (demo_env_for d)"
proof -
  have "simulates (py_modify (\<lambda>w. w\<lparr>w_metrics := w_metrics w @ [m]\<rparr>) :: (conn world, unit) py)
      (py_modify (\<lambda>w. w\<lparr>w_metrics := w_metrics w @ [m]\<rparr>))" for m
    by (rule sim_modify) (simp add: settle_updates)
  moreover have "e_refresh (demo_env_for d) = None" "e_check_health (demo_env_for d) = None" by (simp_all add: demo_env_for_def demo_env_def)
  ultimately show ?thesis by (simp add: hooks_agree_def sim_return)
qed

theorem async_refines_sync_witness:
  "drain (demo_env_for demo_decode) (settle (demo_world [] demo_rival)) =
     map_prod id settle (async_drain (demo_env_for demo_decode) (demo_world [] demo_rival))"
proof -
  have r: "running (demo_world [] demo_rival)" by (simp add: running_def demo_world_def drain_loop_init_def)
  have "simulates (async_drain (demo_env_for demo_decode)) (drain (demo_env_for demo_decode))"
    using async_refines_sync [OF demo_hooks_agree sim_return] by blast
  then show ?thesis using r unfolding simulates_def by blast
qed

text \<open>The heartbeat task does what the heartbeat thread does. The first locked part of its iteration decides as the thread
  does, to stop, to wait for the same time, or to go on; the second, which re-reads the heap later, renews and drops exactly
  the tuple the thread would take then, and leaves the heap alone when nothing is due any more.\<close>

theorem async_heartbeat_refines:
  "(case async_hb_peek clk h of
      APExit \<Rightarrow> fst (hb_check clk h) = HExit
    | APWait t \<Rightarrow> hb_check clk h = (HWait t, h)
    | APGo \<Rightarrow> fst (hb_check clk h) \<noteq> HExit \<and> async_hb_pop clk h = hb_check clk h)
   \<and> (\<not> hb_shutdown h \<longrightarrow>
      async_hb_pop clk h = (case hb_check clk h of (HWait _, _) \<Rightarrow> (HSkip, h) | x \<Rightarrow> x))"
  by (auto simp: async_hb_peek_def async_hb_pop_def hb_check_def Let_def split: list.splits option.splits)

theorem async_heartbeat_refines_witness:
  "async_hb_pop 30 (snd (hb_register 10 ''t1'' ''warn'' (heartbeat_init demo_hb_limiter))) =
     (case hb_check 30 (snd (hb_register 10 ''t1'' ''warn'' (heartbeat_init demo_hb_limiter))) of (HWait _, _) \<Rightarrow>
        (HSkip, snd (hb_register 10 ''t1'' ''warn'' (heartbeat_init demo_hb_limiter))) | x \<Rightarrow> x)"
  by (rule async_heartbeat_refines [THEN conjunct2, rule_format])
    (simp add: hb_register_def heartbeat_init_def hb_push_def hb_ensure_started_def Let_def)

end
