(* ===== verification/Floats.thy ===== *)
theory Floats
  imports Json
begin

text \<open>
  The text of a float and its reading: \<^verbatim>\<open>repr\<close> and \<^verbatim>\<open>float\<close> as \<^verbatim>\<open>json.dumps\<close> and \<^verbatim>\<open>json.loads\<close> use them for the numbers of
  a limiter's configuration. A number with at most 16 decimal places is printed exactly, in positional notation
  (the range in which \<^verbatim>\<open>repr\<close> prints it so); the reader takes every token of the grammar, exponents included.
\<close>

fun decimals :: "nat \<Rightarrow> rat \<Rightarrow> nat" where
  "decimals 0 x = 0"
| "decimals (Suc n) x = (if is_integral x then 0 else Suc (decimals n (x * 10)))"

definition py_repr_pos :: "rat \<Rightarrow> string" where
  "py_repr_pos x = (let n = decimals 16 x; k = \<lfloor>x * 10 ^ n\<rfloor>; p = 10 ^ n
     in dec_int (k div p) @ ''.'' @ (if n = 0 then ''0'' else pad_left n (dec_int (k mod p))))"

definition py_repr :: "rat \<Rightarrow> string" where
  "py_repr x = (if x < 0 then CHR ''-'' # py_repr_pos (- x) else py_repr_pos x)"

definition py_exponent :: "string \<Rightarrow> int" where
  "py_exponent e = (case e of
     c # ds \<Rightarrow> if c = CHR ''-'' then - undec 0 ds else if c = CHR ''+'' then undec 0 ds else undec 0 e
   | [] \<Rightarrow> 0)"

definition py_float_pos :: "string \<Rightarrow> rat" where
  "py_float_pos t = (let ip = takeWhile is_digit t; r = dropWhile is_digit t;
       cs = (case r of c # cs \<Rightarrow> (if c = CHR ''.'' then cs else r) | [] \<Rightarrow> []);
       fp = takeWhile is_digit cs;
       ex = (case dropWhile is_digit cs of c # es \<Rightarrow> (if c = CHR ''e'' then py_exponent es else 0) | [] \<Rightarrow> 0)
     in (of_int (undec 0 ip) + of_int (undec 0 fp) / 10 ^ length fp) * (10 powi ex))"

definition py_float :: "string \<Rightarrow> rat" where
  "py_float t = (case t of c # cs \<Rightarrow> (if c = CHR ''-'' then - py_float_pos cs else py_float_pos t) | [] \<Rightarrow> 0)"

text \<open>The truth value of a parsed value, as \<^verbatim>\<open>if x\<close> and \<^verbatim>\<open>x or y\<close> take it.\<close>

definition truthy :: "json \<Rightarrow> bool" where
  "truthy j = (case j of JNull \<Rightarrow> False | JBool b \<Rightarrow> b | JInt n \<Rightarrow> n \<noteq> 0 | JFloat t \<Rightarrow> py_float t \<noteq> 0 | JStr s \<Rightarrow> s \<noteq> []
     | JArr xs \<Rightarrow> xs \<noteq> [] | JObj fs \<Rightarrow> fs \<noteq> [])"

lemma digits_all: "list_all is_digit s \<Longrightarrow> takeWhile is_digit s = s" "list_all is_digit s \<Longrightarrow> dropWhile is_digit s = []"
  by (simp_all add: takeWhile_eq_all_conv dropWhile_eq_Nil_conv list_all_iff)

lemma decimals_integral: "is_integral (x * 10 ^ m) \<Longrightarrow> m \<le> n \<Longrightarrow> is_integral (x * 10 ^ decimals n x)"
proof (induction n arbitrary: m x)
  case (Suc n)
  show ?case
  proof (cases "is_integral x")
    case False
    then obtain k where k: "m = Suc k" using Suc.prems(1) by (cases m) auto
    then have "is_integral (x * 10 * 10 ^ decimals n (x * 10))"
      using Suc.IH [of "x * 10" k] Suc.prems by (simp add: mult.assoc)
    then show ?thesis using False by (simp add: mult.assoc)
  qed simp
qed simp

lemma undec_zeros: "undec 0 (replicate n CHR ''0'' @ s) = undec 0 s"
  by (induction n) (simp_all add: digit_val_def)

lemma pad_left_digits: "list_all is_digit s \<Longrightarrow> list_all is_digit (pad_left n s)"
  by (auto simp: pad_left_def list_all_iff is_digit_def)

lemma take_digits: "list_all is_digit s \<Longrightarrow> takeWhile is_digit (s @ CHR ''.'' # r) = s"
    "list_all is_digit s \<Longrightarrow> dropWhile is_digit (s @ CHR ''.'' # r) = CHR ''.'' # r"
  by (induction s) (simp_all add: is_digit_def)

lemma dec_int_nonneg: "0 \<le> i \<Longrightarrow> dec_int i = dec_pos i"
  by (simp add: dec_int_def)

lemma length_dec_pos: "0 \<le> i \<Longrightarrow> i < 10 ^ Suc n \<Longrightarrow> length (dec_pos i) \<le> Suc n"
proof (induction n arbitrary: i)
  case 0
  then show ?case by (simp add: dec_pos.simps [of i])
next
  case (Suc n)
  show ?case
  proof (cases "i < 10")
    case False
    have "i div 10 < 10 ^ Suc n" using Suc.prems(2) by (simp add: div_less_iff_less_mult mult.commute)
    then have "length (dec_pos (i div 10)) \<le> Suc n" using Suc.prems(1) by (intro Suc.IH) simp_all
    then show ?thesis using False by (simp add: dec_pos.simps [of i])
  qed (simp add: dec_pos.simps [of i])
qed

text \<open>The digits after the point.\<close>

definition repr_fraction :: "rat \<Rightarrow> string" where
  "repr_fraction x = (let n = decimals 16 x in if n = 0 then ''0'' else pad_left n (dec_int (\<lfloor>x * 10 ^ n\<rfloor> mod 10 ^ n)))"

lemma repr_split: "py_repr_pos x = dec_int (\<lfloor>x * 10 ^ decimals 16 x\<rfloor> div 10 ^ decimals 16 x) @ CHR ''.'' # repr_fraction x"
  by (simp add: py_repr_pos_def repr_fraction_def Let_def)

lemma repr_fraction_digits: "list_all is_digit (repr_fraction x)" "repr_fraction x \<noteq> []"
proof -
  show "list_all is_digit (repr_fraction x)"
    by (simp add: repr_fraction_def Let_def is_digit_def [of "CHR ''0''"] pad_left_digits dec_int_nonneg dec_pos_digits)
  show "repr_fraction x \<noteq> []" by (simp add: repr_fraction_def Let_def pad_left_def)
qed

lemma repr_fraction_value:
  "of_int (undec 0 (repr_fraction x)) / 10 ^ length (repr_fraction x) =
    (of_int (\<lfloor>x * 10 ^ decimals 16 x\<rfloor> mod 10 ^ decimals 16 x) / 10 ^ decimals 16 x :: rat)"
proof (cases "decimals 16 x")
  case 0
  then show ?thesis by (simp add: repr_fraction_def digit_val_def)
next
  case (Suc n)
  define k where "k = \<lfloor>x * 10 ^ Suc n\<rfloor> mod 10 ^ Suc n"
  have k: "0 \<le> k" "k < 10 ^ Suc n" by (simp_all add: k_def)
  have f: "repr_fraction x = pad_left (Suc n) (dec_pos k)"
    using k(1) by (simp add: repr_fraction_def Suc k_def [symmetric] dec_int_nonneg del: power_Suc)
  have "length (repr_fraction x) = Suc n" using length_dec_pos [OF k] by (simp add: f pad_left_def)
  moreover have "undec 0 (repr_fraction x) = k" using k(1) by (simp add: f pad_left_def undec_zeros)
  ultimately show ?thesis by (simp add: Suc k_def [symmetric] del: power_Suc)
qed

lemma py_float_repr_pos:
  assumes "0 \<le> x" "is_integral (x * 10 ^ 16)"
  shows "py_float_pos (py_repr_pos x) = x"
proof -
  define p :: int where "p = 10 ^ decimals 16 x"
  define k where "k = \<lfloor>x * 10 ^ decimals 16 x\<rfloor>"
  have i: "of_int k = x * 10 ^ decimals 16 x"
    using decimals_integral [OF assms(2), of 16] by (simp add: k_def is_integral_def)
  have p: "0 < p" "(of_int p :: rat) = 10 ^ decimals 16 x" by (simp_all add: p_def)
  have k0: "0 \<le> k" using assms(1) by (simp add: k_def)
  then have ip: "0 \<le> k div p" using p(1) by (simp add: pos_imp_zdiv_nonneg_iff)
  have "py_repr_pos x = dec_pos (k div p) @ CHR ''.'' # repr_fraction x"
    using ip by (simp add: repr_split k_def p_def dec_int_nonneg)
  then have "py_float_pos (py_repr_pos x) = of_int (k div p) + of_int (k mod p) / of_int p"
    using dec_pos_digits [OF ip] repr_fraction_digits(1) [of x] repr_fraction_value [of x] ip
    by (simp add: py_float_pos_def take_digits digits_all k_def p_def Let_def)
  also have "\<dots> = of_int k / of_int p"
  proof -
    have "(of_int k :: rat) = of_int (p * (k div p) + k mod p)" by (simp only: mult_div_mod_eq)
    also have "\<dots> = of_int p * of_int (k div p) + of_int (k mod p)" by (simp only: of_int_add of_int_mult)
    finally have "of_int (k mod p) = (of_int k - of_int p * of_int (k div p) :: rat)" by linarith
    then show ?thesis using p(1) by (simp add: diff_divide_distrib)
  qed
  also have "\<dots> = x" using i p by simp
  finally show ?thesis .
qed

lemma repr_pos_hd: "0 \<le> x \<Longrightarrow> py_repr_pos x \<noteq> CHR ''-'' # cs"
  using dec_pos_digits [of "\<lfloor>x * 10 ^ decimals 16 x\<rfloor> div 10 ^ decimals 16 x"]
  by (cases "dec_pos (\<lfloor>x * 10 ^ decimals 16 x\<rfloor> div 10 ^ decimals 16 x)")
    (auto simp: repr_split dec_int_nonneg pos_imp_zdiv_nonneg_iff)

lemma py_float_repr: "is_integral (x * 10 ^ 16) \<Longrightarrow> py_float (py_repr x) = x"
proof -
  assume d: "is_integral (x * 10 ^ 16)"
  show ?thesis
  proof (cases "x < 0")
    case True
    have "is_integral (- x * 10 ^ 16)" using d by (metis is_integral_iff mult_minus_left of_int_minus)
    then show ?thesis using True py_float_repr_pos [of "- x"] by (simp add: py_float_def py_repr_def)
  next
    case False
    then show ?thesis using d py_float_repr_pos [of x] repr_pos_hd [of x]
      by (auto simp: py_float_def py_repr_def split: list.split) (simp add: repr_split)
  qed
qed

lemma repr_token_pos: "0 \<le> x \<Longrightarrow> float_token (py_repr_pos x) \<and> list_all num_char (py_repr_pos x)"
proof -
  assume "0 \<le> x"
  define k where "k = \<lfloor>x * 10 ^ decimals 16 x\<rfloor> div 10 ^ decimals 16 x"
  have k: "0 \<le> k" using \<open>0 \<le> x\<close> by (simp add: k_def pos_imp_zdiv_nonneg_iff)
  have r: "py_repr_pos x = dec_pos k @ CHR ''.'' # repr_fraction x"
    using k by (simp add: repr_split k_def dec_int_nonneg)
  have "dec_pos k \<noteq> CHR ''-'' # cs" for cs by (rule dec_pos_no_minus [OF k])
  then have "drop_minus (py_repr_pos x) = py_repr_pos x"
    using dec_pos_nonempty [of k] by (cases "dec_pos k") (auto simp: drop_minus_def r)
  moreover have "int_digits (dec_pos k)" using int_digits_dec_pos [OF k] .
  ultimately have "float_token (py_repr_pos x)"
    using dec_pos_digits [OF k] repr_fraction_digits [of x]
    by (simp add: float_token_def r take_digits digits_all Let_def list_all_iff [symmetric])
  moreover have "list_all num_char (py_repr_pos x)"
    using dec_pos_digits [OF k] repr_fraction_digits [of x] by (auto simp: r list_all_iff num_char_def)
  ultimately show ?thesis ..
qed

lemma repr_token: "float_token (py_repr x) \<and> list_all num_char (py_repr x)"
proof (cases "x < 0")
  case True
  then have "float_token (py_repr_pos (- x)) \<and> list_all num_char (py_repr_pos (- x))" by (intro repr_token_pos) simp
  moreover have "drop_minus (py_repr_pos (- x)) = py_repr_pos (- x)"
    using repr_pos_hd [of "- x"] True by (cases "py_repr_pos (- x)") (auto simp: drop_minus_def)
  ultimately show ?thesis using True by (simp add: py_repr_def float_token_def drop_minus_def num_char_def)
qed (simp add: py_repr_def repr_token_pos)

end
