(* ===== verification/Managed.thy ===== *)
theory Managed
  imports Distributed Floats
begin

text \<open>
  Managed limiters, \<^verbatim>\<open>core/managed.py\<close>: the class-level registry of instances and the configuration shared through Redis. A
  backend class is a record of what it provides (\<open>managed_class\<close>): construction, start, and how an instance is persisted
  and reconfigured. Keyword arguments and dictionaries are lists of fields with JSON values. The cached instance of
  an id is the value the registry maps it to; a reference to an instance that was replaced by \<^verbatim>\<open>override=True\<close> is outside the model.
\<close>

section \<open>Configuration as JSON\<close>

text \<open>\<^verbatim>\<open>float(x)\<close> and \<^verbatim>\<open>int(x)\<close> on a JSON number; a value of another type has none.\<close>

definition jnum :: "json \<Rightarrow> rat option" where
  "jnum j = (case j of JInt n \<Rightarrow> Some (of_int n) | JFloat t \<Rightarrow> Some (py_float t) | JBool b \<Rightarrow> Some (if b then 1 else 0) | _ \<Rightarrow> None)"

definition jint :: "json \<Rightarrow> int option" where
  "jint j = (case jnum j of Some x \<Rightarrow> Some (if x < 0 then \<lceil>x\<rceil> else \<lfloor>x\<rfloor>) | None \<Rightarrow> None)"

definition config_fields :: "overrides \<Rightarrow> (string \<times> json) list" where
  "config_fields ov =
     (case o_limit ov of Some n \<Rightarrow> [(''limit'', JInt n)] | None \<Rightarrow> []) @
     (case o_window ov of Some w \<Rightarrow> [(''window'', JFloat (py_repr w))] | None \<Rightarrow> []) @
     (case o_max_concurrency ov of Some n \<Rightarrow> [(''max_concurrency'', JInt n)] | None \<Rightarrow> []) @
     (case o_max_age ov of Some n \<Rightarrow> [(''max_age'', JInt n)] | None \<Rightarrow> []) @
     (case o_lease_duration ov of Some n \<Rightarrow> [(''lease_duration'', JInt n)] | None \<Rightarrow> [])"

definition field :: "(json \<Rightarrow> 'a option) \<Rightarrow> (string \<times> json) list \<Rightarrow> string \<Rightarrow> exn + 'a option" where
  "field rd fs k = (case jget fs k of None \<Rightarrow> Inr None | Some JNull \<Rightarrow> Inr None
     | Some j \<Rightarrow> (case rd j of Some x \<Rightarrow> Inr (Some x) | None \<Rightarrow> Inl TypeError))"

definition stored :: "(string \<times> json) list \<Rightarrow> string \<Rightarrow> exn + int option" where
  "stored fs k = (case jget fs k of None \<Rightarrow> Inr None | Some (JInt n) \<Rightarrow> Inr (Some n) | Some _ \<Rightarrow> Inl TypeError)"

text \<open>The overrides that a dictionary contains; other keys are not looked at. \<^verbatim>\<open>window\<close> and \<^verbatim>\<open>limit\<close> are converted, and \<^verbatim>\<open>None\<close>
  counts as absent; the other three are stored as they are. A value of another type, which would leave an instance
  that fails when the attribute is used, is refused here with \<^verbatim>\<open>TypeError\<close> and changes nothing.\<close>

definition field_overrides :: "(string \<times> json) list \<Rightarrow> exn + overrides" where
  "field_overrides fs = (case (field jint fs ''limit'', field jnum fs ''window'', stored fs ''max_concurrency'',
       stored fs ''max_age'', stored fs ''lease_duration'') of
     (Inr a, Inr b, Inr c, Inr d, Inr e) \<Rightarrow> Inr \<lparr>o_limit = a, o_window = b, o_max_concurrency = c, o_max_age = d, o_lease_duration = e\<rparr>
   | _ \<Rightarrow> Inl TypeError)"

text \<open>\<^verbatim>\<open>_parse_raw_config\<close>: \<^verbatim>\<open>dict(json.loads(...))\<close>. \<^verbatim>\<open>dict\<close> takes an object, and an empty string or array; it refuses a
  number, a boolean and \<^verbatim>\<open>null\<close> with \<^verbatim>\<open>TypeError\<close> and another string with \<^verbatim>\<open>ValueError\<close>; an array of pairs, which no writer of
  the registry produces, is taken as \<^verbatim>\<open>TypeError\<close>.\<close>

definition parse_raw_config :: "hval \<Rightarrow> exn + (string \<times> json) list" where
  "parse_raw_config raw = (case json_loads (case raw of HText t \<Rightarrow> t | HNum n \<Rightarrow> dec_int n) of
     None \<Rightarrow> Inl JSONDecodeError
   | Some j \<Rightarrow> (case j of JObj fs \<Rightarrow> Inr fs | JStr s \<Rightarrow> (if s = [] then Inr [] else Inl ValueError)
       | JArr xs \<Rightarrow> (if xs = [] then Inr [] else Inl TypeError) | _ \<Rightarrow> Inl TypeError))"

text \<open>\<^verbatim>\<open>_parse_version\<close>: \<^verbatim>\<open>int\<close> of the text that \<^verbatim>\<open>HINCRBY\<close> maintains.\<close>

definition parse_version :: "hval \<Rightarrow> exn + int" where
  "parse_version raw = (case raw of HNum n \<Rightarrow> Inr n
     | HText t \<Rightarrow> (if int_digits (drop_minus t) then Inr (if t \<noteq> drop_minus t then - undec 0 (drop_minus t) else undec 0 t) else Inl ValueError))"

section \<open>Backend classes and the registry\<close>

record ('c, 'i) registry =
  g_conn :: 'c
  g_configured :: bool  \<comment> \<open>\<^verbatim>\<open>_redis_client is not None\<close>\<close>
  g_backend :: bool  \<comment> \<open>the backend context is set\<close>
  g_instances :: "string \<rightharpoonup> 'i"
  g_time :: rat
  g_uuids :: nat

record ('c, 'i) managed_class =
  k_needs_context :: bool
  k_construct :: "string \<Rightarrow> (string \<times> json) list \<Rightarrow> (('c, 'i) registry, 'i) py"
  k_start :: "'i \<Rightarrow> (('c, 'i) registry, 'i) py"
  k_id :: "'i \<Rightarrow> string"
  k_version :: "'i \<Rightarrow> int"
  k_set_version :: "int \<Rightarrow> 'i \<Rightarrow> 'i"
  k_persist :: "'i \<Rightarrow> (string \<times> json) list"
  k_apply :: "rat \<Rightarrow> (string \<times> json) list \<Rightarrow> 'i \<Rightarrow> exn + 'i"

definition registry_key :: string where
  "registry_key = ''rl:registry:configs''"

definition version_key :: string where
  "version_key = ''rl:registry:versions''"

definition on_registry :: "('c, 'a) py \<Rightarrow> (('c, 'i) registry, 'a) py" where
  "on_registry m g = (case m (g_conn g) of (r, c) \<Rightarrow> (r, g\<lparr>g_conn := c\<rparr>))"

definition has_backend_context :: "('c, 'i) managed_class \<Rightarrow> ('c, 'i) registry \<Rightarrow> bool" where
  "has_backend_context K g = (\<not> k_needs_context K \<or> g_backend g)"

text \<open>\<^verbatim>\<open>__init_subclass__\<close> gives every class its own empty registry.\<close>

definition init_subclass :: "'c \<Rightarrow> rat \<Rightarrow> ('c, 'i) registry" where
  "init_subclass c time = \<lparr>g_conn = c, g_configured = False, g_backend = False, g_instances = Map.empty, g_time = time, g_uuids = 0\<rparr>"

text \<open>\<^verbatim>\<open>configure\<close>; \<open>given\<close> says whether the keyword argument that the backend needs is passed.\<close>

definition configure_backend :: "('c, 'i) managed_class \<Rightarrow> bool \<Rightarrow> (('c, 'i) registry, unit) py" where
  "configure_backend K given = (if k_needs_context K \<and> \<not> given then py_raise RuntimeError
     else py_modify (\<lambda>g. g\<lparr>g_backend := k_needs_context K\<rparr>))"

definition configure :: "('c, 'i) managed_class \<Rightarrow> bool \<Rightarrow> (('c, 'i) registry, unit) py" where
  "configure K given = py_then (py_modify (\<lambda>g. g\<lparr>g_configured := True\<rparr>)) (configure_backend K given)"

definition require_internal_construction :: "bool \<Rightarrow> (('c, 'i) registry, unit) py" where
  "require_internal_construction is_sentinel = py_if (\<not> is_sentinel) (py_raise RuntimeError)"

definition require_configured :: "('c, 'i) managed_class \<Rightarrow> (('c, 'i) registry, unit) py" where
  "require_configured K = py_bind (py_get (\<lambda>g. \<not> g_configured g \<or> \<not> has_backend_context K g)) (\<lambda>b. py_if b (py_raise RuntimeError))"

definition registry_reset :: "(('c, 'i) registry, unit) py" where
  "registry_reset = py_modify (\<lambda>g. g\<lparr>g_instances := Map.empty, g_configured := False, g_backend := False\<rparr>)"

definition store :: "string \<Rightarrow> 'i \<Rightarrow> (('c, 'i) registry, unit) py" where
  "store i x = py_modify (\<lambda>g. g\<lparr>g_instances := (g_instances g)(i \<mapsto> x)\<rparr>)"

text \<open>Construction through the class: the sentinel is checked before anything else.\<close>

definition managed_init :: "('c, 'i) managed_class \<Rightarrow> bool \<Rightarrow> string \<Rightarrow> (string \<times> json) list \<Rightarrow> (('c, 'i) registry, 'i) py" where
  "managed_init K is_sentinel limiter_id config = py_then (require_internal_construction is_sentinel) (k_construct K limiter_id config)"

section \<open>Persisting and refreshing one instance\<close>

text \<open>Both return the instance as the method leaves it.\<close>

definition persist_config :: "('c, 'i) managed_class \<Rightarrow> 'c client \<Rightarrow> 'i \<Rightarrow> ('c, 'i) py" where
  "persist_config K C x =
     py_then (c_hset C registry_key (k_id K x) (HText (json_dumps (JObj (k_persist K x)))))
       (py_bind (c_hincrby C version_key (k_id K x)) (\<lambda>v. py_return (k_set_version K v x)))"

definition refresh_config :: "('c, 'i) managed_class \<Rightarrow> 'c client \<Rightarrow> rat \<Rightarrow> 'i \<Rightarrow> ('c, 'i \<times> bool) py" where
  "refresh_config K C time x =
     py_bind (c_hget C version_key (k_id K x)) (\<lambda>raw_version. case raw_version of
       None \<Rightarrow> py_return (x, False)
     | Some rv \<Rightarrow> (case parse_version rv of
         Inl e \<Rightarrow> py_raise e
       | Inr remote_version \<Rightarrow>
           if remote_version \<le> k_version K x then py_return (x, False)
           else py_bind (c_hget C registry_key (k_id K x)) (\<lambda>raw_config. case raw_config of
             None \<Rightarrow> py_return (x, False)
           | Some rc \<Rightarrow> (case parse_raw_config rc of
               Inl e \<Rightarrow> if e = JSONDecodeError \<or> e = TypeError then py_return (x, False) else py_raise e
             | Inr config \<Rightarrow> (case k_apply K time config x of
                 Inl e \<Rightarrow> py_raise e
               | Inr x' \<Rightarrow> py_return (k_set_version K remote_version x', True))))))"

section \<open>The class methods\<close>

definition managed_create :: "('c, 'i) managed_class \<Rightarrow> 'c client \<Rightarrow> string \<Rightarrow> bool \<Rightarrow> bool \<Rightarrow> (string \<times> json) list
    \<Rightarrow> (('c, 'i) registry, 'i) py" where
  "managed_create K C limiter_id persist override config =
     py_then (require_configured K)
     (py_bind (py_get (\<lambda>g. limiter_id \<in> dom (g_instances g))) (\<lambda>known.
      if \<not> override \<and> known then py_raise ValueError
      else py_bind (managed_init K True limiter_id config) (\<lambda>x.
           py_then (store limiter_id x)
           (if persist
            then py_bind (on_registry (persist_config K C x)) (\<lambda>x'. py_then (store limiter_id x') (py_return x'))
            else py_return x))))"

text \<open>\<^verbatim>\<open>get\<close> reads the configuration first, and the version in a second command after the instance has been built.\<close>

definition adopt_version :: "('c, 'i) managed_class \<Rightarrow> 'c client \<Rightarrow> string \<Rightarrow> 'i \<Rightarrow> (('c, 'i) registry, 'i) py" where
  "adopt_version K C limiter_id x =
     py_bind (on_registry (c_hget C version_key limiter_id)) (\<lambda>raw_version.
     case (case raw_version of None \<Rightarrow> Inr x | Some rv \<Rightarrow> map_sum id (\<lambda>v. k_set_version K v x) (parse_version rv)) of
       Inl e \<Rightarrow> py_raise e
     | Inr x' \<Rightarrow> py_then (store limiter_id x') (py_return x'))"

definition managed_get :: "('c, 'i) managed_class \<Rightarrow> 'c client \<Rightarrow> string \<Rightarrow> (('c, 'i) registry, 'i) py" where
  "managed_get K C limiter_id =
     py_bind (py_get (\<lambda>g. g_instances g limiter_id)) (\<lambda>cached. case cached of
       Some x \<Rightarrow> py_return x
     | None \<Rightarrow> py_then (require_configured K)
         (py_bind (on_registry (c_hget C registry_key limiter_id)) (\<lambda>raw_config. case raw_config of
            None \<Rightarrow> py_raise ValueError
          | Some rc \<Rightarrow> (case parse_raw_config rc of
              Inl e \<Rightarrow> py_raise e
            | Inr config \<Rightarrow> py_bind (managed_init K True limiter_id config) (adopt_version K C limiter_id)))))"

definition managed_update :: "('c, 'i) managed_class \<Rightarrow> 'c client \<Rightarrow> string \<Rightarrow> (string \<times> json) list \<Rightarrow> (('c, 'i) registry, 'i) py" where
  "managed_update K C limiter_id ov =
     py_bind (managed_get K C limiter_id) (\<lambda>x.
     py_bind (py_get g_time) (\<lambda>time.
     case k_apply K time ov x of
       Inl e \<Rightarrow> py_raise e
     | Inr x1 \<Rightarrow> py_then (store limiter_id x1)
         (py_bind (on_registry (persist_config K C x1)) (\<lambda>x2. py_then (store limiter_id x2) (py_return x2)))))"

section \<open>The asynchronous classes\<close>

text \<open>\<^verbatim>\<open>AsyncManagedRateLimiter\<close> awaits \<^verbatim>\<open>start()\<close> on a new instance before it is stored.\<close>

definition async_persist_config :: "('c, 'i) managed_class \<Rightarrow> 'c client \<Rightarrow> 'i \<Rightarrow> ('c, 'i) py" where
  "async_persist_config K C x =
     py_then (c_hset C registry_key (k_id K x) (HText (json_dumps (JObj (k_persist K x)))))
       (py_bind (c_hincrby C version_key (k_id K x)) (\<lambda>v. py_return (k_set_version K v x)))"

definition async_refresh_config :: "('c, 'i) managed_class \<Rightarrow> 'c client \<Rightarrow> rat \<Rightarrow> 'i \<Rightarrow> ('c, 'i \<times> bool) py" where
  "async_refresh_config K C time x =
     py_bind (c_hget C version_key (k_id K x)) (\<lambda>raw_version. case raw_version of
       None \<Rightarrow> py_return (x, False)
     | Some rv \<Rightarrow> (case parse_version rv of
         Inl e \<Rightarrow> py_raise e
       | Inr remote_version \<Rightarrow>
           if remote_version \<le> k_version K x then py_return (x, False)
           else py_bind (c_hget C registry_key (k_id K x)) (\<lambda>raw_config. case raw_config of
             None \<Rightarrow> py_return (x, False)
           | Some rc \<Rightarrow> (case parse_raw_config rc of
               Inl e \<Rightarrow> if e = JSONDecodeError \<or> e = TypeError then py_return (x, False) else py_raise e
             | Inr config \<Rightarrow> (case k_apply K time config x of
                 Inl e \<Rightarrow> py_raise e
               | Inr x' \<Rightarrow> py_return (k_set_version K remote_version x', True))))))"

definition async_managed_init :: "('c, 'i) managed_class \<Rightarrow> bool \<Rightarrow> string \<Rightarrow> (string \<times> json) list \<Rightarrow> (('c, 'i) registry, 'i) py" where
  "async_managed_init K is_sentinel limiter_id config = py_then (require_internal_construction is_sentinel) (k_construct K limiter_id config)"

definition async_configure :: "('c, 'i) managed_class \<Rightarrow> bool \<Rightarrow> (('c, 'i) registry, unit) py" where
  "async_configure K given = py_then (py_modify (\<lambda>g. g\<lparr>g_configured := True\<rparr>)) (configure_backend K given)"

definition async_managed_create :: "('c, 'i) managed_class \<Rightarrow> 'c client \<Rightarrow> string \<Rightarrow> bool \<Rightarrow> bool \<Rightarrow> (string \<times> json) list
    \<Rightarrow> (('c, 'i) registry, 'i) py" where
  "async_managed_create K C limiter_id persist override config =
     py_then (require_configured K)
     (py_bind (py_get (\<lambda>g. limiter_id \<in> dom (g_instances g))) (\<lambda>known.
      if \<not> override \<and> known then py_raise ValueError
      else py_bind (async_managed_init K True limiter_id config) (\<lambda>x0.
           py_bind (k_start K x0) (\<lambda>x.
           py_then (store limiter_id x)
           (if persist
            then py_bind (on_registry (async_persist_config K C x)) (\<lambda>x'. py_then (store limiter_id x') (py_return x'))
            else py_return x)))))"

definition async_managed_get :: "('c, 'i) managed_class \<Rightarrow> 'c client \<Rightarrow> string \<Rightarrow> (('c, 'i) registry, 'i) py" where
  "async_managed_get K C limiter_id =
     py_bind (py_get (\<lambda>g. g_instances g limiter_id)) (\<lambda>cached. case cached of
       Some x \<Rightarrow> py_return x
     | None \<Rightarrow> py_then (require_configured K)
         (py_bind (on_registry (c_hget C registry_key limiter_id)) (\<lambda>raw_config. case raw_config of
            None \<Rightarrow> py_raise ValueError
          | Some rc \<Rightarrow> (case parse_raw_config rc of
              Inl e \<Rightarrow> py_raise e
            | Inr config \<Rightarrow>
                py_bind (async_managed_init K True limiter_id config) (\<lambda>x0.
                py_bind (k_start K x0) (\<lambda>x.
                py_bind (on_registry (c_hget C version_key limiter_id)) (\<lambda>raw_version.
                case (case raw_version of None \<Rightarrow> Inr x | Some rv \<Rightarrow> map_sum id (\<lambda>v. k_set_version K v x) (parse_version rv)) of
                  Inl e \<Rightarrow> py_raise e
                | Inr x' \<Rightarrow> py_then (store limiter_id x') (py_return x'))))))))"

definition async_managed_update :: "('c, 'i) managed_class \<Rightarrow> 'c client \<Rightarrow> string \<Rightarrow> (string \<times> json) list \<Rightarrow> (('c, 'i) registry, 'i) py" where
  "async_managed_update K C limiter_id ov =
     py_bind (async_managed_get K C limiter_id) (\<lambda>x.
     py_bind (py_get g_time) (\<lambda>time.
     case k_apply K time ov x of
       Inl e \<Rightarrow> py_raise e
     | Inr x1 \<Rightarrow> py_then (store limiter_id x1)
         (py_bind (on_registry (async_persist_config K C x1)) (\<lambda>x2. py_then (store limiter_id x2) (py_return x2)))))"

end
