(* ===== verification/Distributed_Class.thy ===== *)
theory Distributed_Class
  imports Managed Async_Distributed
begin

text \<open>
  The distributed limiters as managed classes: every task backend inherits from \<^verbatim>\<open>SyncManagedRateLimiter\<close> or
  \<^verbatim>\<open>AsyncManagedRateLimiter\<close> and from the distributed limiter. An instance is a \<open>world\<close> whose connection is that of its
  class; \<open>on_instance\<close> runs a method on it. Keyword arguments are JSON fields; a metrics callback, which is a
  function, is passed as \<open>JBool True\<close>.
\<close>

section \<open>Constructor arguments\<close>

definition constructor_keywords :: "string list" where
  "constructor_keywords = [''limit'', ''window'', ''max_concurrency'', ''max_age'', ''lease_duration'', ''on_heartbeat_failure'',
     ''jitter_enabled'', ''jitter_min_pct'', ''jitter_max_pct'', ''metrics_callback'', ''drain_enabled'']"

definition arg :: "(json \<Rightarrow> 'a option) \<Rightarrow> 'a option \<Rightarrow> (string \<times> json) list \<Rightarrow> string \<Rightarrow> 'a option" where
  "arg rd dflt fs k = (case jget fs k of None \<Rightarrow> dflt | Some j \<Rightarrow> rd j)"

definition as_int :: "json \<Rightarrow> int option" where
  "as_int j = (case j of JInt n \<Rightarrow> Some n | _ \<Rightarrow> None)"

definition as_float :: "json \<Rightarrow> rat option" where
  "as_float j = (case j of JInt n \<Rightarrow> Some (of_int n) | JFloat t \<Rightarrow> Some (py_float t) | _ \<Rightarrow> None)"

definition as_bool :: "json \<Rightarrow> bool option" where
  "as_bool j = (case j of JBool b \<Rightarrow> Some b | _ \<Rightarrow> None)"

definition as_str :: "json \<Rightarrow> string option" where
  "as_str j = (case j of JStr s \<Rightarrow> Some s | _ \<Rightarrow> None)"

text \<open>The binding of \<^verbatim>\<open>cls(limiter_id=..., **config)\<close>: \<open>None\<close> is the \<^verbatim>\<open>TypeError\<close> of an unexpected or missing keyword, or
  of a comparison with a value of another type.\<close>

definition constructor_args :: "string \<Rightarrow> (string \<times> json) list \<Rightarrow> limiter_args option" where
  "constructor_args limiter_id fs =
     (if \<not> list_all (\<lambda>f. fst f \<in> set constructor_keywords) fs then None
      else case (arg as_int None fs ''limit'', arg as_float None fs ''window'', arg as_int None fs ''max_concurrency'',
          arg as_int (Some 3600) fs ''max_age'', arg as_int (Some 30) fs ''lease_duration'',
          arg as_str (Some ''warn'') fs ''on_heartbeat_failure'', arg as_bool (Some True) fs ''jitter_enabled'',
          arg as_float (Some (2 / 100)) fs ''jitter_min_pct'', arg as_float (Some (8 / 100)) fs ''jitter_max_pct'',
          arg as_bool (Some False) fs ''metrics_callback'', arg as_bool (Some True) fs ''drain_enabled'') of
        (Some a, Some b, Some c, Some d, Some e, Some f, Some g, Some h, Some i, Some j, Some k) \<Rightarrow>
          Some \<lparr>a_limiter_id = limiter_id, a_limit = a, a_window = b, a_max_concurrency = c, a_max_age = d, a_lease_duration = e,
            a_on_heartbeat_failure = f, a_jitter_enabled = g, a_jitter_min_pct = h, a_jitter_max_pct = i,
            a_metrics_callback = j, a_drain_enabled = k\<rparr>
      | _ \<Rightarrow> None)"

section \<open>Instances\<close>

text \<open>An object before its constructor has set an attribute.\<close>

definition blank_limiter :: limiter where
  "blank_limiter = \<lparr>l_id = [], l_limit = 0, l_window = 0, l_config_version = 0, l_drain_paused_until = 0, l_max_concurrency = 0,
     l_max_age = 0, l_lease_duration = 0, l_on_heartbeat_failure = [], l_jitter_enabled = False, l_jitter_min_pct = 0,
     l_jitter_max_pct = 0, l_metrics_callback = False, l_drain_enabled = False, l_worker_id = [],
     l_consecutive_drain_failures = 0, l_last_refresh_at = 0\<rparr>"

definition blank_world :: "'c \<Rightarrow> 'c world" where
  "blank_world c = \<lparr>w_scripts = \<lparr>s_conn = c, s_sources = Map.empty, s_shas = Map.empty\<rparr>, w_lim = blank_limiter, w_time = 0,
     w_clk = 0, w_loop = None, w_hb = heartbeat_init blank_limiter, w_monitor = None, w_subscriber = None, w_metrics = [],
     w_events = [], w_uuids = 0, w_rands = 0, w_shutdown_called = False, w_hb_created = False, w_local = 0, w_jobs = []\<rparr>"

definition with_conn :: "'c \<Rightarrow> 'c world \<Rightarrow> 'c world" where
  "with_conn c w = w\<lparr>w_scripts := (w_scripts w)\<lparr>s_conn := c\<rparr>\<rparr>"

definition on_instance :: "('c world, unit) py \<Rightarrow> 'c world \<Rightarrow> (('c, 'c world) registry, 'c world) py" where
  "on_instance m x g = (case m (with_conn (g_conn g) x\<lparr>w_time := g_time g, w_uuids := g_uuids g\<rparr>) of
     (r, w) \<Rightarrow> (case r of Inl e \<Rightarrow> Inl e | Inr _ \<Rightarrow> Inr w, g\<lparr>g_conn := s_conn (w_scripts w), g_uuids := w_uuids w\<rparr>))"

definition construct_instance :: "(limiter_args \<Rightarrow> ('c world, unit) py) \<Rightarrow> string \<Rightarrow> (string \<times> json) list
    \<Rightarrow> (('c, 'c world) registry, 'c world) py" where
  "construct_instance init limiter_id config = (case constructor_args limiter_id config of
     None \<Rightarrow> py_raise TypeError
   | Some a \<Rightarrow> py_bind (py_get g_conn) (\<lambda>c. on_instance (init a) (blank_world c)))"

section \<open>The class\<close>

text \<open>\<open>init\<close> is the constructor of the concrete class and \<open>start\<close> the coroutine that an asynchronous class awaits.\<close>

definition distributed_class :: "(limiter_args \<Rightarrow> ('c world, unit) py) \<Rightarrow> ('c world, unit) py \<Rightarrow> ('c, 'c world) managed_class" where
  "distributed_class init start =
     \<lparr>k_needs_context = True,
      k_construct = construct_instance init,
      k_start = on_instance start,
      k_id = (\<lambda>w. l_id (w_lim w)),
      k_version = (\<lambda>w. l_config_version (w_lim w)),
      k_set_version = (\<lambda>v w. w\<lparr>w_lim := (w_lim w)\<lparr>l_config_version := v\<rparr>\<rparr>),
      k_persist = (\<lambda>w. config_fields (build_persist_config (w_lim w))),
      k_apply = (\<lambda>time fs w. case field_overrides fs of
         Inl e \<Rightarrow> Inl e | Inr ov \<Rightarrow> Inr (w\<lparr>w_lim := apply_config_overrides time ov (w_lim w)\<rparr>))\<rparr>"

text \<open>\<^verbatim>\<open>self.refresh_config()\<close> as \<^verbatim>\<open>drain()\<close> calls it on a managed instance.\<close>

definition refresh_hook :: "('c, 'c world) managed_class \<Rightarrow> 'c client \<Rightarrow> ('c world, unit) py" where
  "refresh_hook K C w = (case refresh_config K C (w_time w) w (s_conn (w_scripts w)) of
     (Inl e, c) \<Rightarrow> (Inl e, with_conn c w)
   | (Inr (w', _), c) \<Rightarrow> (Inr (), with_conn c w'))"

end
