(* ===== verification/Importing.thy ===== *)
theory Importing
  imports Prelude
begin

text \<open>
  Import paths, \<^verbatim>\<open>core/importing.py\<close>. The import system of the interpreter and the user's modules are a record of functions on
  objects \<open>'o\<close>, whose equality is object identity.
\<close>

record 'o importer =
  im_module :: "string \<Rightarrow> exn + unit"  \<comment> \<open>\<^verbatim>\<open>importlib.import_module\<close>\<close>
  im_attr :: "string \<Rightarrow> string \<Rightarrow> exn + 'o"  \<comment> \<open>\<^verbatim>\<open>getattr\<close> on an imported module\<close>
  im_callable :: "'o \<Rightarrow> bool"
  im_module_of :: "'o \<Rightarrow> string option"  \<comment> \<open>\<^verbatim>\<open>__module__\<close>\<close>
  im_qualname :: "'o \<Rightarrow> string option"  \<comment> \<open>\<^verbatim>\<open>__qualname__\<close>\<close>

text \<open>\<^verbatim>\<open>s.rsplit(".", 1)\<close>, or \<open>None\<close> if there is no dot, and \<^verbatim>\<open>p in s\<close>.\<close>

definition rsplit_dot :: "string \<Rightarrow> (string \<times> string) option" where
  "rsplit_dot s = (let f = rev (takeWhile (\<lambda>c. c \<noteq> CHR ''.'') (rev s))
     in if CHR ''.'' \<in> set s then Some (take (length s - length f - 1) s, f) else None)"

fun contains :: "string \<Rightarrow> string \<Rightarrow> bool" where
  "contains p [] = (p = [])"
| "contains p (c # cs) = (take (length p) (c # cs) = p \<or> contains p cs)"

definition import_string :: "'o importer \<Rightarrow> string \<Rightarrow> exn + 'o" where
  "import_string I import_path = (case rsplit_dot import_path of
     None \<Rightarrow> Inl ValueError
   | Some (module_path, func_name) \<Rightarrow> (case im_module I module_path of
       Inl e \<Rightarrow> Inl e
     | Inr _ \<Rightarrow> (case im_attr I module_path func_name of
         Inl e \<Rightarrow> Inl e
       | Inr func \<Rightarrow> if \<not> im_callable I func then Inl TypeError else Inr func)))"

definition resolve_import_path :: "'o importer \<Rightarrow> 'o \<Rightarrow> exn + string" where
  "resolve_import_path I fn = (case (im_module_of I fn, im_qualname I fn) of
     (Some module_name, Some qualname) \<Rightarrow>
       if contains ''<lambda>'' qualname then Inl ValueError
       else if contains ''<locals>'' qualname then Inl ValueError
       else if contains ''.'' qualname then Inl ValueError
       else (let import_path = module_name @ ''.'' @ qualname
             in case import_string I import_path of
                  Inl e \<Rightarrow> Inl e
                | Inr resolved \<Rightarrow> if resolved \<noteq> fn then Inl ValueError else Inr import_path)
   | _ \<Rightarrow> Inl ValueError)"

section \<open>Facts\<close>

lemma contains_dot: "contains ''.'' s \<longleftrightarrow> CHR ''.'' \<in> set s"
  by (induction s) auto

lemma rsplit_dot_join: "CHR ''.'' \<notin> set f \<Longrightarrow> rsplit_dot (m @ CHR ''.'' # f) = Some (m, f)"
proof -
  assume f: "CHR ''.'' \<notin> set f"
  have "takeWhile (\<lambda>c. c \<noteq> CHR ''.'') (rev f @ CHR ''.'' # rev m) = rev f"
    using f by (subst takeWhile_append2) auto
  then show ?thesis by (simp add: rsplit_dot_def Let_def)
qed

lemma import_joined: "CHR ''.'' \<notin> set f \<Longrightarrow> import_string I (m @ CHR ''.'' # f) = (case im_module I m of Inl e \<Rightarrow> Inl e
    | Inr _ \<Rightarrow> (case im_attr I m f of Inl e \<Rightarrow> Inl e | Inr x \<Rightarrow> if im_callable I x then Inr x else Inl TypeError))"
  by (simp add: import_string_def rsplit_dot_join split: sum.split)

text \<open>A path that \<^verbatim>\<open>resolve_import_path\<close> returns imports to the same object, which is a callable attribute of its module.\<close>

lemma resolve_roundtrip:
  assumes "resolve_import_path I fn = Inr p"
  shows "import_string I p = Inr fn \<and> im_callable I fn \<and> (\<exists>m f. im_module_of I fn = Some m \<and> im_qualname I fn = Some f \<and>
    p = m @ ''.'' @ f \<and> CHR ''.'' \<notin> set f \<and> im_attr I m f = Inr fn)"
proof -
  obtain m f where mf: "im_module_of I fn = Some m" "im_qualname I fn = Some f" "CHR ''.'' \<notin> set f" "p = m @ ''.'' @ f"
      "import_string I p = Inr fn"
    using assms by (auto simp: resolve_import_path_def Let_def contains_dot split: option.splits sum.splits if_splits)
  then show ?thesis using import_joined [OF mf(3), of I m] by (auto split: sum.splits if_splits)
qed

end
