(* ===== verification/Backends.thy ===== *)
theory Backends
  imports Distributed_Class Importing
begin

text \<open>
  The task backends, \<^verbatim>\<open>backends/\<close>: thread pool, process pool and asyncio run the admitted tasks in the process of the limiter;
  Celery, RQ, Dramatiq and Huey send a message to a worker process, where the decorator of \<^verbatim>\<open>core/decorators.py\<close> runs the
  task under its lifecycle. The executor or broker is a parameter: \<open>b_submit\<close> takes a job or raises; the user's functions are
  \<open>b_call\<close> on the objects that the import system finds.
\<close>

record ('c, 'o) backend =
  b_import :: "'o importer"
  b_call :: "'o \<Rightarrow> json list \<Rightarrow> (string \<times> json) list \<Rightarrow> ('c world, unit) py"
  b_is_coroutine :: "'o \<Rightarrow> bool"
  b_submit :: "job \<Rightarrow> ('c world, unit) py"
  b_max_workers :: int

definition lift_result :: "exn + 'a \<Rightarrow> ('w, 'a) py" where
  "lift_result r = (case r of Inl e \<Rightarrow> py_raise e | Inr x \<Rightarrow> py_return x)"

definition count_local :: "int \<Rightarrow> ('c world, unit) py" where
  "count_local d = py_modify (\<lambda>w. w\<lparr>w_local := w_local w + d\<rparr>)"

text \<open>\<^verbatim>\<open>CancelledError\<close> of \<^verbatim>\<open>concurrent.futures\<close> and \<^verbatim>\<open>asyncio\<close>.\<close>

definition cancelled_error :: exn where
  "cancelled_error = UserError ''CancelledError''"

section \<open>Thread pool\<close>

definition threadpool_init :: "'c env \<Rightarrow> limiter_args \<Rightarrow> ('c world, unit) py" where
  "threadpool_init E a = py_then (distributed_init E a) (py_modify (\<lambda>w. w\<lparr>w_local := 0\<rparr>))"

definition threadpool_has_local_capacity :: "('c, 'o) backend \<Rightarrow> 'c world \<Rightarrow> bool" where
  "threadpool_has_local_capacity B w = (w_local w < b_max_workers B)"

definition threadpool_dispatch_task :: "('c, 'o) backend \<Rightarrow> string \<Rightarrow> (string \<times> json) list \<Rightarrow> string \<Rightarrow> ('c world, unit) py" where
  "threadpool_dispatch_task B func_path payload task_id =
     py_bind (lift_result (import_string (b_import B) func_path)) (\<lambda>target_func.
     py_then (count_local 1) (b_submit B (RunTask func_path payload task_id)))"

text \<open>\<^verbatim>\<open>_run_task\<close>, in a thread of the pool.\<close>

definition threadpool_run_task :: "'c env \<Rightarrow> ('c, 'o) backend \<Rightarrow> 'o \<Rightarrow> (string \<times> json) list \<Rightarrow> string \<Rightarrow> ('c world, unit) py" where
  "threadpool_run_task E B target_func payload task_id =
     py_finally
       (py_bind (task_lifecycle task_id None) (\<lambda>lc. with_lifecycle E lc (b_call B target_func [] payload)))
       (count_local (-1))"

section \<open>Process pool\<close>

definition processpool_init :: "'c env \<Rightarrow> limiter_args \<Rightarrow> ('c world, unit) py" where
  "processpool_init E a = py_then (distributed_init E a) (py_modify (\<lambda>w. w\<lparr>w_local := 0\<rparr>))"

definition processpool_has_local_capacity :: "('c, 'o) backend \<Rightarrow> 'c world \<Rightarrow> bool" where
  "processpool_has_local_capacity B w = (w_local w < b_max_workers B)"

text \<open>The lifecycle is entered here, before the job is submitted, and left when the future is done.\<close>

definition processpool_dispatch_task :: "('c, 'o) backend \<Rightarrow> string \<Rightarrow> (string \<times> json) list \<Rightarrow> string \<Rightarrow> ('c world, unit) py" where
  "processpool_dispatch_task B func_path payload task_id =
     py_bind (lift_result (import_string (b_import B) func_path)) (\<lambda>target_func.
     py_then (count_local 1)
     (py_bind (task_lifecycle task_id None) (\<lambda>lc.
      py_bind (lifecycle_enter lc) (\<lambda>_.
      b_submit B (RunTask func_path payload task_id)))))"

text \<open>The callback of the future. For a future that was cancelled \<^verbatim>\<open>f.exception()\<close> raises, before the \<^verbatim>\<open>try\<close>: the lifecycle is not left and the
  counter not lowered.\<close>

definition processpool_on_done :: "'c env \<Rightarrow> bool \<Rightarrow> lifecycle \<Rightarrow> ('c world, unit) py" where
  "processpool_on_done E cancelled lc =
     (if cancelled then py_raise cancelled_error else py_finally (lifecycle_exit E lc) (count_local (-1)))"

section \<open>Asyncio\<close>

definition asyncio_init :: "'c env \<Rightarrow> limiter_args \<Rightarrow> ('c world, unit) py" where
  "asyncio_init E a = py_then (async_distributed_init E a) (py_modify (\<lambda>w. w\<lparr>w_local := 0, w_jobs := []\<rparr>))"

definition asyncio_has_local_capacity :: "('c, 'o) backend \<Rightarrow> 'c world \<Rightarrow> bool" where
  "asyncio_has_local_capacity B w = (w_local w < b_max_workers B)"

definition asyncio_dispatch_task :: "('c, 'o) backend \<Rightarrow> string \<Rightarrow> (string \<times> json) list \<Rightarrow> string \<Rightarrow> ('c world, unit) py" where
  "asyncio_dispatch_task B func_path payload task_id =
     py_bind (lift_result (import_string (b_import B) func_path)) (\<lambda>target_func.
     py_then (count_local 1) (py_modify (\<lambda>w. w\<lparr>w_jobs := w_jobs w @ [RunTask func_path payload task_id]\<rparr>)))"

text \<open>The coroutine of a task: an exception is logged and dropped, a cancellation is not, and a function that is not a coroutine function is
  refused inside the lifecycle. A task that is cancelled before its first step (\<open>started\<close> is false) never enters the \<^verbatim>\<open>try\<close>: the
  cancellation is thrown into the coroutine at its start, and neither the counter nor the set of active tasks changes.\<close>

definition asyncio_run_task :: "'c env \<Rightarrow> ('c, 'o) backend \<Rightarrow> bool \<Rightarrow> 'o \<Rightarrow> job \<Rightarrow> (string \<times> json) list \<Rightarrow> string \<Rightarrow> ('c world, unit) py" where
  "asyncio_run_task E B started target_func task payload task_id =
     (if \<not> started then py_raise cancelled_error
      else py_finally
       (py_catch
          (py_bind (async_task_lifecycle task_id None) (\<lambda>lc. async_with_lifecycle E lc
             (if \<not> b_is_coroutine B target_func then py_raise TypeError else b_call B target_func [] payload)))
          (\<lambda>e. if e = cancelled_error then py_raise e else py_return ()))
       (py_then (count_local (-1)) (py_modify (\<lambda>w. w\<lparr>w_jobs := remove1 task (w_jobs w)\<rparr>))))"

text \<open>\<open>cancel\<close> is the event loop running the cancelled tasks to their end, under \<^verbatim>\<open>gather(..., return_exceptions=True)\<close>.\<close>

definition asyncio_shutdown :: "'c env \<Rightarrow> ('c world \<Rightarrow> 'c world) \<Rightarrow> ('c world, unit) py" where
  "asyncio_shutdown E cancel =
     py_then (async_shutdown E)
       (py_bind (py_get (\<lambda>w. w_jobs w \<noteq> [])) (\<lambda>active.
        py_if active (py_then (py_modify cancel) (py_modify (\<lambda>w. w\<lparr>w_jobs := [], w_local := 0\<rparr>)))))"

section \<open>Payloads of the queue backends\<close>

definition build_enhanced_payload :: "(string \<times> json) list \<Rightarrow> bool \<Rightarrow> (string \<times> json) list" where
  "build_enhanced_payload payload use_executor = [(''data'', JObj payload), (''meta'', JObj [(''use_executor'', JBool use_executor)])]"

text \<open>\<^verbatim>\<open>payload.get("meta", {}).get("use_executor", True)\<close> and \<^verbatim>\<open>payload.get("data", {})\<close>, which every queue backend reads first.\<close>

definition read_payload :: "(string \<times> json) list \<Rightarrow> exn + (bool \<times> json)" where
  "read_payload payload =
     (let data = (case jget payload ''data'' of Some d \<Rightarrow> d | None \<Rightarrow> JObj [])
      in case jget payload ''meta'' of
           None \<Rightarrow> Inr (True, data)
         | Some (JObj meta) \<Rightarrow> Inr (case jget meta ''use_executor'' of Some u \<Rightarrow> truthy u | None \<Rightarrow> True, data)
         | Some _ \<Rightarrow> Inl AttributeError)"

definition task_id_kwarg :: string where
  "task_id_kwarg = ''_rate_limit_task_id''"

definition worker_kwargs :: "string \<Rightarrow> string \<Rightarrow> json \<Rightarrow> string \<Rightarrow> (string \<times> json) list" where
  "worker_kwargs limiter_id func_path data task_id =
     [(''limiter_id'', JStr limiter_id), (''func_path'', JStr func_path), (''payload'', data), (task_id_kwarg, JStr task_id)]"

section \<open>Celery\<close>

definition celery_schedule_task :: "'c env \<Rightarrow> string \<Rightarrow> (string \<times> json) list \<Rightarrow> rat option \<Rightarrow> int option \<Rightarrow> bool \<Rightarrow> ('c world, bool \<times> string) py" where
  "celery_schedule_task E func_path payload priority max_age use_executor =
     (let enhanced_payload = build_enhanced_payload payload use_executor
      in schedule_task E func_path enhanced_payload priority max_age)"

definition celery_worker_name :: string where
  "celery_worker_name = ''redis_rate_limiter.generic_worker''"

definition celery_dispatch_task :: "('c, 'o) backend \<Rightarrow> string \<Rightarrow> (string \<times> json) list \<Rightarrow> string \<Rightarrow> ('c world, unit) py" where
  "celery_dispatch_task B func_path payload task_id = py_bind (lift_result (read_payload payload)) (\<lambda>(use_executor, data).
     py_bind (py_get w_lim) (\<lambda>l.
     if use_executor then b_submit B (SendTask celery_worker_name [] (worker_kwargs (l_id l) func_path data task_id))
     else b_submit B (SendTask func_path [data] [(task_id_kwarg, JStr task_id)])))"

text \<open>\<open>ping\<close> is the number of replies of \<^verbatim>\<open>control.ping\<close>, or what it raises.\<close>

definition celery_check_backend_health :: "('c world, nat) py \<Rightarrow> ('c world, bool) py" where
  "celery_check_backend_health ping = py_catch (py_bind ping (\<lambda>n. py_return (0 < n))) (\<lambda>_. py_return False)"

section \<open>RQ\<close>

definition rq_schedule_task :: "'c env \<Rightarrow> string \<Rightarrow> (string \<times> json) list \<Rightarrow> rat option \<Rightarrow> int option \<Rightarrow> bool \<Rightarrow> ('c world, bool \<times> string) py" where
  "rq_schedule_task E func_path payload priority max_age use_executor =
     (let enhanced_payload = build_enhanced_payload payload use_executor
      in schedule_task E func_path enhanced_payload priority max_age)"

definition rq_worker_name :: string where
  "rq_worker_name = ''redis_rate_limiter.backends.rq.tasks.worker.generic_rate_limited_worker''"

definition rq_dispatch_task :: "('c, 'o) backend \<Rightarrow> string \<Rightarrow> (string \<times> json) list \<Rightarrow> string \<Rightarrow> ('c world, unit) py" where
  "rq_dispatch_task B func_path payload task_id = py_bind (lift_result (read_payload payload)) (\<lambda>(use_executor, data).
     py_bind (py_get w_lim) (\<lambda>l.
     if use_executor then b_submit B (SendTask rq_worker_name [] (worker_kwargs (l_id l) func_path data task_id))
     else b_submit B (SendTask func_path [data] [(task_id_kwarg, JStr task_id)])))"

text \<open>\<open>workers\<close> yields the queue names of every registered worker; what it raises is left to the health monitor.\<close>

definition rq_check_backend_health :: "string \<Rightarrow> ('c world, string list list) py \<Rightarrow> ('c world, bool) py" where
  "rq_check_backend_health queue workers = py_bind workers (\<lambda>ws. py_return (list_ex (\<lambda>names. queue \<in> set names) ws))"

section \<open>Dramatiq\<close>

definition dramatiq_schedule_task :: "'c env \<Rightarrow> string \<Rightarrow> (string \<times> json) list \<Rightarrow> rat option \<Rightarrow> int option \<Rightarrow> bool \<Rightarrow> ('c world, bool \<times> string) py" where
  "dramatiq_schedule_task E func_path payload priority max_age use_executor =
     (let enhanced_payload = build_enhanced_payload payload use_executor
      in schedule_task E func_path enhanced_payload priority max_age)"

definition dramatiq_worker_name :: string where
  "dramatiq_worker_name = ''generic_rate_limited_worker''"

definition dramatiq_dispatch_task :: "('c, 'o) backend \<Rightarrow> string \<Rightarrow> (string \<times> json) list \<Rightarrow> string \<Rightarrow> ('c world, unit) py" where
  "dramatiq_dispatch_task B func_path payload task_id = py_bind (lift_result (read_payload payload)) (\<lambda>(use_executor, data).
     py_bind (py_get w_lim) (\<lambda>l.
     if use_executor then b_submit B (SendTask dramatiq_worker_name [] (worker_kwargs (l_id l) func_path data task_id))
     else py_bind (lift_result (import_string (b_import B) func_path)) (\<lambda>task_actor.
          b_submit B (SendTask func_path [data] [(task_id_kwarg, JStr task_id)]))))"

section \<open>Huey\<close>

definition huey_schedule_task :: "'c env \<Rightarrow> string \<Rightarrow> (string \<times> json) list \<Rightarrow> rat option \<Rightarrow> int option \<Rightarrow> bool \<Rightarrow> ('c world, bool \<times> string) py" where
  "huey_schedule_task E func_path payload priority max_age use_executor =
     (let enhanced_payload = build_enhanced_payload payload use_executor
      in schedule_task E func_path enhanced_payload priority max_age)"

definition huey_worker_name :: string where
  "huey_worker_name = ''rl_generic_worker''"

text \<open>The module global \<^verbatim>\<open>generic_rate_limited_worker\<close>: the Huey instance that it is registered with, and the instances it was
  unregistered from.\<close>

definition register_worker :: "'h \<Rightarrow> 'h option \<times> 'h list \<Rightarrow> 'h option \<times> 'h list" where
  "register_worker huey_instance state = (case state of
     (None, gone) \<Rightarrow> (Some huey_instance, gone)
   | (Some old, gone) \<Rightarrow> if old = huey_instance then state else (Some huey_instance, gone @ [old]))"

definition huey_dispatch_task :: "('c, 'o) backend \<Rightarrow> 'h option \<Rightarrow> string \<Rightarrow> (string \<times> json) list \<Rightarrow> string \<Rightarrow> ('c world, unit) py" where
  "huey_dispatch_task B worker func_path payload task_id = py_bind (lift_result (read_payload payload)) (\<lambda>(use_executor, data).
     py_bind (py_get w_lim) (\<lambda>l.
     if use_executor
     then (if worker = None then py_raise TypeError
           else b_submit B (SendTask huey_worker_name [] (worker_kwargs (l_id l) func_path data task_id)))
     else py_bind (lift_result (import_string (b_import B) func_path)) (\<lambda>task_func.
          b_submit B (SendTask func_path [data] [(task_id_kwarg, JStr task_id)]))))"

section \<open>The worker side\<close>

text \<open>A method of the cached instance \<open>x\<close> of the id \<open>i\<close>: the instance is mutated in place, also when the method raises.\<close>

definition run_cached :: "string \<Rightarrow> 'c world \<Rightarrow> ('c world, unit) py \<Rightarrow> (('c, 'c world) registry, unit) py" where
  "run_cached i x m g = (case m (with_conn (g_conn g) x) of
     (r, w) \<Rightarrow> (r, g\<lparr>g_conn := s_conn (w_scripts w), g_instances := (g_instances g)(i \<mapsto> w)\<rparr>))"

text \<open>\<^verbatim>\<open>rate_limited\<close>: the wrapper around \<open>func\<close>. An id that is no string is unknown to every getter.\<close>

definition rate_limited :: "'c env \<Rightarrow> (string \<Rightarrow> (('c, 'c world) registry, 'c world) py) \<Rightarrow> string option
    \<Rightarrow> (json list \<Rightarrow> (string \<times> json) list \<Rightarrow> ('c world, unit) py) \<Rightarrow> json list \<Rightarrow> (string \<times> json) list \<Rightarrow> (('c, 'c world) registry, unit) py" where
  "rate_limited E get_limiter limiter_id func args kwargs =
     (case (case limiter_id of Some (c # cs) \<Rightarrow> JStr (c # cs) | _ \<Rightarrow> (case jget kwargs ''limiter_id'' of Some j \<Rightarrow> j | None \<Rightarrow> JNull)) of
        JNull \<Rightarrow> py_raise ValueError
      | JStr i \<Rightarrow> py_bind (get_limiter i) (\<lambda>limiter.
          case jget kwargs task_id_kwarg of
            None \<Rightarrow> py_raise KeyError
          | Some (JStr task_id) \<Rightarrow> run_cached i limiter
              (py_bind (task_lifecycle task_id None) (\<lambda>lc. with_lifecycle E lc (func args (filter (\<lambda>f. fst f \<noteq> task_id_kwarg) kwargs))))
          | Some _ \<Rightarrow> py_raise TypeError)
      | _ \<Rightarrow> py_raise ValueError)"

definition get_default_limiter :: "('c, 'c world) managed_class \<Rightarrow> 'c client \<Rightarrow> string \<Rightarrow> (('c, 'c world) registry, 'c world) py" where
  "get_default_limiter K C limiter_id = managed_get K C limiter_id"

text \<open>The body of the generic workers, \<^verbatim>\<open>def generic_rate_limited_worker(limiter_id, func_path, payload)\<close>, called with keywords.\<close>

definition generic_worker_body :: "('c, 'o) backend \<Rightarrow> json list \<Rightarrow> (string \<times> json) list \<Rightarrow> ('c world, unit) py" where
  "generic_worker_body B args kwargs =
     (if args \<noteq> [] \<or> set (map fst kwargs) \<noteq> {''limiter_id'', ''func_path'', ''payload''} then py_raise TypeError
      else case (jget kwargs ''func_path'', jget kwargs ''payload'') of
        (Some (JStr func_path), Some (JObj payload)) \<Rightarrow>
          py_bind (lift_result (import_string (b_import B) func_path)) (\<lambda>target_func. b_call B target_func [] payload)
      | _ \<Rightarrow> py_raise TypeError)"

definition generic_rate_limited_worker :: "'c env \<Rightarrow> ('c, 'o) backend \<Rightarrow> ('c, 'c world) managed_class \<Rightarrow> json list \<Rightarrow> (string \<times> json) list
    \<Rightarrow> (('c, 'c world) registry, unit) py" where
  "generic_rate_limited_worker E B K = rate_limited E (managed_get K (e_client E)) None (generic_worker_body B)"

section \<open>The classes\<close>

text \<open>Every backend refuses \<^verbatim>\<open>configure\<close> without its executor, application, queue, broker or task count.\<close>

definition threadpool_class :: "'c env \<Rightarrow> ('c, 'c world) managed_class" where
  "threadpool_class E = distributed_class (threadpool_init E) (py_return ())"

definition processpool_class :: "'c env \<Rightarrow> ('c, 'c world) managed_class" where
  "processpool_class E = distributed_class (processpool_init E) (py_return ())"

definition asyncio_class :: "'c env \<Rightarrow> ('c, 'c world) managed_class" where
  "asyncio_class E = distributed_class (asyncio_init E) (async_start E)"

definition celery_class :: "'c env \<Rightarrow> ('c, 'c world) managed_class" where
  "celery_class E = distributed_class (distributed_init E) (py_return ())"

definition rq_class :: "'c env \<Rightarrow> ('c, 'c world) managed_class" where
  "rq_class E = distributed_class (distributed_init E) (py_return ())"

definition dramatiq_class :: "'c env \<Rightarrow> ('c, 'c world) managed_class" where
  "dramatiq_class E = distributed_class (distributed_init E) (py_return ())"

definition huey_class :: "'c env \<Rightarrow> ('c, 'c world) managed_class" where
  "huey_class E = distributed_class (distributed_init E) (py_return ())"

definition huey_configure :: "'c env \<Rightarrow> 'h option \<Rightarrow> 'h option \<times> 'h list \<Rightarrow> (('c, 'c world) registry, 'h option \<times> 'h list) py" where
  "huey_configure E huey worker = py_then (configure (huey_class E) (huey \<noteq> None))
     (py_return (case huey of Some h \<Rightarrow> register_worker h worker | None \<Rightarrow> worker))"

end
