(* ===== verification/Pool_Props.thy ===== *)
theory Pool_Props
  imports Backends Distributed_Props
begin

text \<open>
  The backends that run tasks in their own process count what they have handed to the executor, and the drain asks for room before it
  consumes. The interface is stated once, as laws about counting; the three pools satisfy it, for an executor that either takes a
  job or raises, and for user functions that leave the bookkeeping of the pool alone.
\<close>

section \<open>Pools as a state machine\<close>

text \<open>The second component counts the tasks that the counter of the limiter will never be lowered for: those whose submission raised after they
  were counted, and those that the executor dropped because they were cancelled before they ran.\<close>

inductive pool_step :: "('w \<Rightarrow> bool) \<Rightarrow> (job \<Rightarrow> ('w, unit) py) \<Rightarrow> (job \<Rightarrow> ('w, unit) py) \<Rightarrow> (job \<Rightarrow> ('w, unit) py) \<Rightarrow> ('w \<Rightarrow> int)
    \<Rightarrow> ('w \<Rightarrow> job list) \<Rightarrow> 'w \<times> nat \<Rightarrow> 'w \<times> nat \<Rightarrow> bool" for room dispatch finish cancel count jobs where
  step_dispatched: "room w \<Longrightarrow> dispatch j w = (Inr (), w') \<Longrightarrow> pool_step room dispatch finish cancel count jobs (w, n) (w', n)"
| step_refused: "room w \<Longrightarrow> dispatch j w = (Inl e, w') \<Longrightarrow>
    pool_step room dispatch finish cancel count jobs (w, n) (w', if count w' = count w then n else n + 1)"
| step_finished: "j \<in> set (jobs w) \<Longrightarrow> finish j w = (r, w') \<Longrightarrow> pool_step room dispatch finish cancel count jobs (w, n) (w', n)"
| step_cancelled: "j \<in> set (jobs w) \<Longrightarrow> cancel j w = (r, w') \<Longrightarrow>
    pool_step room dispatch finish cancel count jobs (w, n) (w', if jobs w' = jobs w then n else n + 1)"

locale worker_pool =
  fixes room :: "'w \<Rightarrow> bool" and dispatch finish cancel :: "job \<Rightarrow> ('w, unit) py" and count :: "'w \<Rightarrow> int" and jobs :: "'w \<Rightarrow> job list"
    and capacity :: int
  assumes room_iff: "room w = (count w < capacity)"
    and dispatched: "dispatch j w = (Inr (), w') \<Longrightarrow> count w' = count w + 1 \<and> length (jobs w') = length (jobs w) + 1"
    and refused: "dispatch j w = (Inl e, w') \<Longrightarrow> jobs w' = jobs w \<and> (count w' = count w \<or> count w' = count w + 1)"
    and finished: "j \<in> set (jobs w) \<Longrightarrow> finish j w = (r, w') \<Longrightarrow> count w' = count w - 1 \<and> length (jobs w') = length (jobs w) - 1"
    and cancelled: "j \<in> set (jobs w) \<Longrightarrow> cancel j w = (r, w') \<Longrightarrow> count w' = count w \<and> (jobs w' = jobs w \<or> length (jobs w') = length (jobs w) - 1)"
begin

lemma step_exact:
  assumes "pool_step room dispatch finish cancel count jobs (w, n) (w', n')" "count w = int (length (jobs w)) + int n" "count w \<le> max 0 capacity"
  shows "count w' = int (length (jobs w')) + int n' \<and> count w' \<le> max 0 capacity"
  using assms(1)
proof cases
  case (step_finished j r)
  then have "int (length (jobs w) - 1) = int (length (jobs w)) - 1" by (cases "jobs w") auto
  then show ?thesis using finished [OF step_finished(2,3)] assms(2,3) step_finished(1) by simp
next
  case (step_cancelled j r)
  then have "int (length (jobs w) - 1) = int (length (jobs w)) - 1" by (cases "jobs w") auto
  then show ?thesis using cancelled [OF step_cancelled(2,3)] assms(2,3) step_cancelled(1) by auto
qed (use assms(2,3) room_iff in \<open>auto dest!: dispatched refused\<close>)

lemma reachable_exact:
  assumes "(pool_step room dispatch finish cancel count jobs)\<^sup>*\<^sup>* (w0, 0) (w, n)" "count w0 = 0" "jobs w0 = []"
  shows "count w = int (length (jobs w)) + int n \<and> count w \<le> max 0 capacity"
  using assms(1)
proof (induction "(w, n)" arbitrary: w n rule: rtranclp_induct)
  case base
  then show ?case using assms(2,3) by simp
next
  case (step y)
  then show ?case using step_exact by (metis surj_pair)
qed

lemma capacity_kept:
  assumes "(pool_step room dispatch finish cancel count jobs)\<^sup>*\<^sup>* (w0, 0) (w, n)" "count w0 = 0" "jobs w0 = []"
  shows "count w = int (length (jobs w)) + int n \<and> int (length (jobs w)) + int n \<le> max 0 capacity \<and> (capacity \<le> int n \<longrightarrow> \<not> room w)"
  using reachable_exact [OF assms] by (auto simp: room_iff)

end

section \<open>What leaves the bookkeeping alone\<close>

definition keeps_pool :: "('c world, 'a) py \<Rightarrow> bool" where
  "keeps_pool m = (\<forall>w. w_local (snd (m w)) = w_local w \<and> w_jobs (snd (m w)) = w_jobs w)"

named_theorems keeps_intros

lemma keepsD: "keeps_pool m \<Longrightarrow> m w = (r, w') \<Longrightarrow> w_local w' = w_local w \<and> w_jobs w' = w_jobs w"
  unfolding keeps_pool_def by (metis snd_conv)

lemma keeps_return [keeps_intros]: "keeps_pool (py_return x)" "keeps_pool (py_raise e)" "keeps_pool (py_get f)"
  by (simp_all add: keeps_pool_def py_simps)

lemma keeps_bind [keeps_intros]:
  assumes "keeps_pool m" "\<And>x. keeps_pool (f x)"
  shows "keeps_pool (py_bind m f)"
  unfolding keeps_pool_def
proof
  fix w
  obtain r w1 where m: "m w = (r, w1)" by force
  then show "w_local (snd (py_bind m f w)) = w_local w \<and> w_jobs (snd (py_bind m f w)) = w_jobs w"
    using keepsD [OF assms(1) m] assms(2) unfolding keeps_pool_def by (cases r) (simp_all add: py_bind_def)
qed

lemma keeps_then [keeps_intros]: "keeps_pool m \<Longrightarrow> keeps_pool n \<Longrightarrow> keeps_pool (py_then m n)"
  unfolding py_then_def by (rule keeps_bind)

lemma keeps_finally [keeps_intros]:
  assumes "keeps_pool m" "keeps_pool f"
  shows "keeps_pool (py_finally m f)"
  unfolding keeps_pool_def
proof
  fix w
  obtain r w1 where m: "m w = (r, w1)" by force
  obtain q w2 where f: "f w1 = (q, w2)" by force
  show "w_local (snd (py_finally m f w)) = w_local w \<and> w_jobs (snd (py_finally m f w)) = w_jobs w"
    using keepsD [OF assms(1) m] keepsD [OF assms(2) f] m f by (cases q) (simp_all add: py_finally_def)
qed

lemma keeps_catch [keeps_intros]:
  assumes "keeps_pool m" "\<And>e. keeps_pool (h e)"
  shows "keeps_pool (py_catch m h)"
  unfolding keeps_pool_def
proof
  fix w
  obtain r w1 where m: "m w = (r, w1)" by force
  then show "w_local (snd (py_catch m h w)) = w_local w \<and> w_jobs (snd (py_catch m h w)) = w_jobs w"
    using keepsD [OF assms(1) m] assms(2) unfolding keeps_pool_def by (cases r) (simp_all add: py_catch_def)
qed

lemma keeps_if [keeps_intros]: "(b \<Longrightarrow> keeps_pool m) \<Longrightarrow> (\<not> b \<Longrightarrow> keeps_pool n) \<Longrightarrow> keeps_pool (if b then m else n)"
  by simp

lemma keeps_scripts [keeps_intros]: "keeps_pool (on_scripts m)"
  by (simp add: keeps_pool_def on_scripts_def split: prod.split)

lemma keeps_modify: "(\<And>w. w_local (f w) = w_local w \<and> w_jobs (f w) = w_jobs w) \<Longrightarrow> keeps_pool (py_modify f)"
  by (simp add: keeps_pool_def py_modify_def)

lemma keeps_drain [keeps_intros]: "keeps_pool (schedule_drain d)" "keeps_pool (async_schedule_drain d)"
  unfolding schedule_drain_def async_schedule_drain_def by (rule keeps_modify; simp split: option.split)+

lemma keeps_lifecycle [keeps_intros]: "keeps_pool (task_lifecycle u s)" "keeps_pool (async_task_lifecycle u s)"
  unfolding task_lifecycle_def async_task_lifecycle_def by (intro keeps_intros)+

lemma keeps_enter [keeps_intros]: "keeps_pool (lifecycle_enter lc)" "keeps_pool (async_lifecycle_enter lc)"
  by (simp_all add: keeps_pool_def lifecycle_enter_def async_lifecycle_enter_def split: prod.split)

lemma keeps_reply: "(\<And>p. keeps_pool (f p)) \<Longrightarrow> keeps_pool (case rep of RepPair p \<Rightarrow> f p | _ \<Rightarrow> py_raise e)"
  by (cases rep) (simp_all add: keeps_return)

lemma keeps_exit [keeps_intros]: "keeps_pool (lifecycle_exit E lc)" "keeps_pool (async_lifecycle_exit E lc)"
  unfolding lifecycle_exit_def async_lifecycle_exit_def call_script_def async_call_script_def Let_def
  by (intro keeps_intros keeps_reply keeps_modify; simp)+

lemma keeps_with [keeps_intros]: "keeps_pool body \<Longrightarrow> keeps_pool (with_lifecycle E lc body)"
    "keeps_pool body \<Longrightarrow> keeps_pool (async_with_lifecycle E lc body)"
  unfolding with_lifecycle_def async_with_lifecycle_def by (intro keeps_intros; assumption)+

section \<open>The three pools\<close>

datatype pool = Threads | Processes | Coroutines

definition pool_room :: "pool \<Rightarrow> ('c, 'o) backend \<Rightarrow> 'c world \<Rightarrow> bool" where
  "pool_room k B = (case k of Threads \<Rightarrow> threadpool_has_local_capacity B | Processes \<Rightarrow> processpool_has_local_capacity B
     | Coroutines \<Rightarrow> asyncio_has_local_capacity B)"

definition pool_dispatch :: "pool \<Rightarrow> ('c, 'o) backend \<Rightarrow> job \<Rightarrow> ('c world, unit) py" where
  "pool_dispatch k B j = (case j of
     RunTask f ps u \<Rightarrow> (case k of Threads \<Rightarrow> threadpool_dispatch_task B f ps u | Processes \<Rightarrow> processpool_dispatch_task B f ps u
       | Coroutines \<Rightarrow> asyncio_dispatch_task B f ps u)
   | SendTask _ _ _ \<Rightarrow> py_raise TypeError)"

text \<open>A job of the executor ends: its thread or coroutine runs the task, or the callback of its future runs. The executor then forgets
  a job of a thread or process.\<close>

definition pool_finish :: "pool \<Rightarrow> 'c env \<Rightarrow> ('c, 'o) backend \<Rightarrow> 'o \<Rightarrow> job \<Rightarrow> ('c world, unit) py" where
  "pool_finish k E B target j =
     (let forget = py_modify (\<lambda>w. w\<lparr>w_jobs := remove1 j (w_jobs w)\<rparr>);
          (ps, u) = (case j of RunTask f ps u \<Rightarrow> (ps, u) | SendTask f as ps \<Rightarrow> (ps, f))
      in case k of
           Threads \<Rightarrow> py_finally (threadpool_run_task E B target ps u) forget
         | Processes \<Rightarrow> py_finally (py_bind (task_lifecycle u None) (processpool_on_done E False)) forget
         | Coroutines \<Rightarrow> asyncio_run_task E B True target j ps u)"

text \<open>A job that has not started is cancelled: the executor forgets the job of a thread without running it, and the one of a process after
  the callback of its future; the task of a coroutine stays in the set of active tasks.\<close>

definition pool_cancel :: "pool \<Rightarrow> 'c env \<Rightarrow> ('c, 'o) backend \<Rightarrow> 'o \<Rightarrow> job \<Rightarrow> ('c world, unit) py" where
  "pool_cancel k E B target j =
     (let forget = py_modify (\<lambda>w. w\<lparr>w_jobs := remove1 j (w_jobs w)\<rparr>);
          (ps, u) = (case j of RunTask f ps u \<Rightarrow> (ps, u) | SendTask f as ps \<Rightarrow> (ps, f))
      in case k of
           Threads \<Rightarrow> forget
         | Processes \<Rightarrow> py_finally (py_bind (task_lifecycle u None) (processpool_on_done E True)) forget
         | Coroutines \<Rightarrow> asyncio_run_task E B False target j ps u)"

text \<open>An executor takes a job or raises, and the user's functions do not touch the bookkeeping of the limiter.\<close>

definition executor_ok :: "('c, 'o) backend \<Rightarrow> bool" where
  "executor_ok B = ((\<forall>j w. case b_submit B j w of (Inr _, w') \<Rightarrow> w' = w\<lparr>w_jobs := w_jobs w @ [j]\<rparr> | (Inl _, w') \<Rightarrow> w' = w) \<and>
     (\<forall>x as ps. keeps_pool (b_call B x as ps)))"

lemma count_effect: "count_local d w = (Inr (), w\<lparr>w_local := w_local w + d\<rparr>)"
  by (simp add: count_local_def py_simps)

lemma finally_count:
  assumes "keeps_pool m" "py_finally m (count_local d) w = (r, w')"
  shows "w_local w' = w_local w + d \<and> w_jobs w' = w_jobs w"
proof -
  obtain q w1 where q: "m w = (q, w1)" by force
  then show ?thesis using assms(2) keepsD [OF assms(1) q] by (auto simp: py_finally_def count_effect)
qed

lemma run_keeps:
  assumes "executor_ok B"
  shows "keeps_pool (py_bind (task_lifecycle u None) (\<lambda>lc. with_lifecycle E lc (b_call B x [] ps)))"
    "keeps_pool (py_catch (py_bind (async_task_lifecycle u None) (\<lambda>lc. async_with_lifecycle E lc
       (if \<not> b_is_coroutine B x then py_raise TypeError else b_call B x [] ps)))
       (\<lambda>e. if e = cancelled_error then py_raise e else py_return ()))"
  using assms unfolding executor_ok_def by (intro keeps_intros; blast)+

lemma pool_finish_effect:
  assumes ok: "executor_ok B" and run: "pool_finish k E B x j w = (r, w')"
  shows "w_local w' = w_local w - 1 \<and> w_jobs w' = remove1 j (w_jobs w)"
proof -
  obtain ps u where j: "(case j of RunTask f ps u \<Rightarrow> (ps, u) | SendTask f as ps \<Rightarrow> (ps, f)) = (ps, u)" by force
  have fin: "w_local v' = w_local v - 1 \<and> w_jobs v' = remove1 j (w_jobs v)"
    if "py_finally m (py_modify (\<lambda>w. w\<lparr>w_jobs := remove1 j (w_jobs w)\<rparr>)) v = (q, v')"
      "\<And>s v1. m v = (s, v1) \<Longrightarrow> w_local v1 = w_local v - 1 \<and> w_jobs v1 = w_jobs v" for m v q v'
    using that by (cases "m v") (auto simp: py_finally_def py_modify_def)
  show ?thesis
  proof (cases k)
    case Threads
    then show ?thesis using fin [of "threadpool_run_task E B x ps u" w r w'] run j finally_count [OF run_keeps(1) [OF ok]]
      by (auto simp: pool_finish_def threadpool_run_task_def)
  next
    case Processes
    let ?m = "py_bind (task_lifecycle u None) (processpool_on_done E False)"
    have "w_local v1 = w_local w - 1 \<and> w_jobs v1 = w_jobs w" if "?m w = (s, v1)" for s v1
      using that by (auto simp: task_lifecycle_def py_bind_def py_get_def py_return_def processpool_on_done_def
          dest: finally_count [OF keeps_exit(1)])
    then show ?thesis using fin [of ?m w r w'] run j Processes by (auto simp: pool_finish_def)
  next
    case Coroutines
    then show ?thesis using run j run_keeps(2) [OF ok, of u E x ps]
      by (auto simp: pool_finish_def asyncio_run_task_def py_finally_def count_local_def py_then_def py_bind_def py_modify_def
          dest: keepsD split: prod.splits)
  qed
qed

lemma pool_cancel_effect:
  assumes "pool_cancel k E B x j w = (r, w')"
  shows "w_local w' = w_local w \<and> w_jobs w' = (if k = Coroutines then w_jobs w else remove1 j (w_jobs w))"
proof -
  obtain ps u where j: "(case j of RunTask f ps u \<Rightarrow> (ps, u) | SendTask f as ps \<Rightarrow> (ps, f)) = (ps, u)" by force
  show ?thesis using assms j
    by (cases k) (auto simp: pool_cancel_def py_modify_def py_finally_def task_lifecycle_def py_bind_def py_get_def py_return_def
        py_raise_def processpool_on_done_def asyncio_run_task_def)
qed

lemma pool_dispatch_effect:
  assumes ok: "executor_ok B" and run: "pool_dispatch k B j w = (r, w')"
  shows "case r of Inr _ \<Rightarrow> w_local w' = w_local w + 1 \<and> w_jobs w' = w_jobs w @ [j]
    | Inl _ \<Rightarrow> w_jobs w' = w_jobs w \<and> (w_local w' = w_local w \<or> w_local w' = w_local w + 1)"
proof (cases j)
  case (SendTask f as ps)
  then show ?thesis using run by (auto simp: pool_dispatch_def py_simps)
next
  case (RunTask f ps u)
  have sub: "case q of Inr _ \<Rightarrow> v' = v\<lparr>w_jobs := w_jobs v @ [j]\<rparr> | Inl _ \<Rightarrow> v' = v" if "b_submit B j v = (q, v')" for v q v'
  proof -
    have "case b_submit B j v of (Inr _, v') \<Rightarrow> v' = v\<lparr>w_jobs := w_jobs v @ [j]\<rparr> | (Inl _, v') \<Rightarrow> v' = v"
      using ok by (simp add: executor_ok_def)
    then show ?thesis using that by (cases q) simp_all
  qed
  show ?thesis
  proof (cases "import_string (b_import B) f")
    case (Inl e)
    then show ?thesis using run RunTask
      by (cases k) (auto simp: pool_dispatch_def threadpool_dispatch_task_def processpool_dispatch_task_def asyncio_dispatch_task_def
          lift_result_def py_bind_def py_raise_def)
  next
    case (Inr x)
    show ?thesis
    proof (cases k)
      case Threads
      then have "b_submit B j (w\<lparr>w_local := w_local w + 1\<rparr>) = (r, w')"
        using run RunTask Inr by (simp add: pool_dispatch_def threadpool_dispatch_task_def lift_result_def py_bind_def py_then_def py_return_def count_effect)
      from sub [OF this] show ?thesis by (cases r) auto
    next
      case Processes
      let ?w = "w\<lparr>w_local := w_local w + 1\<rparr>"
      let ?lc = "lifecycle_init (w_lim w) u (l_on_heartbeat_failure (w_lim w))"
      have lc: "task_lifecycle u None ?w = (Inr ?lc, ?w)" by (simp add: task_lifecycle_def py_simps)
      obtain l v where v: "lifecycle_enter ?lc ?w = (Inr l, v)" by (simp add: lifecycle_enter_eq Let_def)
      have "b_submit B j v = (r, w')"
        using run RunTask Inr Processes v lc
        by (simp add: pool_dispatch_def processpool_dispatch_task_def lift_result_def py_bind_def py_then_def py_return_def count_effect)
      from sub [OF this] show ?thesis using keepsD [OF keeps_enter(1) v] by (cases r) auto
    next
      case Coroutines
      then show ?thesis using run RunTask Inr
        by (auto simp: pool_dispatch_def asyncio_dispatch_task_def lift_result_def py_bind_def py_then_def py_return_def count_effect py_modify_def)
    qed
  qed
qed

lemma pool_laws:
  assumes "executor_ok B"
  shows "worker_pool (pool_room k B) (pool_dispatch k B) (pool_finish k E B x) (pool_cancel k E B x) w_local w_jobs (b_max_workers B)"
proof
  show "pool_room k B w = (w_local w < b_max_workers B)" for w
    by (cases k) (simp_all add: pool_room_def threadpool_has_local_capacity_def processpool_has_local_capacity_def asyncio_has_local_capacity_def)
next
  fix j w w' assume "pool_dispatch k B j w = (Inr (), w')"
  from pool_dispatch_effect [OF assms this] show "w_local w' = w_local w + 1 \<and> length (w_jobs w') = length (w_jobs w) + 1" by simp
next
  fix j w w' e assume "pool_dispatch k B j w = (Inl e, w')"
  from pool_dispatch_effect [OF assms this] show "w_jobs w' = w_jobs w \<and> (w_local w' = w_local w \<or> w_local w' = w_local w + 1)" by simp
next
  fix j w r w' assume "j \<in> set (w_jobs w)" "pool_finish k E B x j w = (r, w')"
  then show "w_local w' = w_local w - 1 \<and> length (w_jobs w') = length (w_jobs w) - 1"
    using pool_finish_effect [OF assms] by (simp add: length_remove1)
next
  fix j w r w' assume "j \<in> set (w_jobs w)" and c: "pool_cancel k E B x j w = (r, w')"
  then show "w_local w' = w_local w \<and> (w_jobs w' = w_jobs w \<or> length (w_jobs w') = length (w_jobs w) - 1)"
    using pool_cancel_effect [OF c] by (simp add: length_remove1)
qed

locale executor_backend =
  fixes B :: "('c, 'o) backend"
  assumes executor: "executor_ok B"

sublocale executor_backend \<subseteq> pool: worker_pool "pool_room k B" "pool_dispatch k B" "pool_finish k E B x" "pool_cancel k E B x" w_local w_jobs "b_max_workers B"
  for k E x
  by (rule pool_laws [OF executor])

text \<open>A concrete backend: every dotted path names a function, the executor has one worker, and the functions return.\<close>

definition demo_importer :: "string importer" where
  "demo_importer = \<lparr>im_module = \<lambda>_. Inr (), im_attr = (\<lambda>m f. Inr f), im_callable = \<lambda>_. True, im_module_of = \<lambda>_. Some ''app'',
     im_qualname = Some\<rparr>"

definition demo_backend :: "(conn, string) backend" where
  "demo_backend = \<lparr>b_import = demo_importer, b_call = (\<lambda>x as ps. py_return ()), b_is_coroutine = \<lambda>_. True,
     b_submit = (\<lambda>j. py_modify (\<lambda>w. w\<lparr>w_jobs := w_jobs w @ [j]\<rparr>)), b_max_workers = 1\<rparr>"

interpretation demo_executor: executor_backend demo_backend
  by unfold_locales (simp add: executor_ok_def demo_backend_def py_simps keeps_pool_def)

section \<open>Property\<close>

text \<open>C35. Local capacity. Take a thread pool, process pool or asyncio backend whose executor takes a job or raises, from its start through any sequence of
  dispatches (each after the check for room), ends of jobs and cancellations of jobs before they run. Then the counter of the limiter is the number of jobs
  in the executor (for asyncio, of tasks in the set of active ones) plus the number of lost ones, whose submission raised after counting or which
  the executor dropped when they were cancelled, and jobs and lost ones together never exceed the number of workers. A lost one
  is never given back: once as many were lost as there are workers, the backend has no room any more, so draining stops for good.\<close>

theorem pool_capacity:
  assumes "executor_ok B" "w_local w0 = 0" "w_jobs w0 = []"
    and "(pool_step (pool_room k B) (pool_dispatch k B) (pool_finish k E B x) (pool_cancel k E B x) w_local w_jobs)\<^sup>*\<^sup>* (w0, 0) (w, n)"
  shows "w_local w = int (length (w_jobs w)) + int n \<and> int (length (w_jobs w)) + int n \<le> max 0 (b_max_workers B) \<and>
    (b_max_workers B \<le> int n \<longrightarrow> \<not> pool_room k B w)"
  using worker_pool.capacity_kept [OF pool_laws [OF assms(1)] assms(4,2,3)] .

theorem pool_capacity_witness:
  "\<exists>w. pool_dispatch Threads demo_backend (RunTask ''app.work'' [] ''t1'') (demo_world [] (mem_start 0)) = (Inr (), w) \<and>
     w_local w = 1 \<and> length (w_jobs w) = 1 \<and> \<not> pool_room Threads demo_backend w"
proof -
  let ?j = "RunTask ''app.work'' [] ''t1''" and ?w0 = "demo_world [] (mem_start 0)"
  have d: "pool_dispatch Threads demo_backend ?j ?w0 = (Inr (), ?w0\<lparr>w_local := 1, w_jobs := [?j]\<rparr>)"
    by (simp add: pool_dispatch_def threadpool_dispatch_task_def demo_backend_def demo_importer_def import_string_def rsplit_dot_def
        lift_result_def py_simps count_local_def demo_world_def del: demo_limiter_simps)
  let ?R = "pool_step (pool_room Threads demo_backend) (pool_dispatch Threads demo_backend) (pool_finish Threads demo_env demo_backend [])
      (pool_cancel Threads demo_env demo_backend [])      w_local w_jobs"
  have "?R (?w0, 0) (?w0\<lparr>w_local := 1, w_jobs := [?j]\<rparr>, 0)"
    by (rule step_dispatched [where j = ?j], simp add: pool_room_def threadpool_has_local_capacity_def demo_backend_def demo_world_def, rule d)
  then have "?R\<^sup>*\<^sup>* (?w0, 0) (?w0\<lparr>w_local := 1, w_jobs := [?j]\<rparr>, 0)" by (rule r_into_rtranclp [of ?R])
  note c = pool_capacity [OF demo_executor.executor _ _ this]
  have "w_local (?w0\<lparr>w_local := 1, w_jobs := [?j]\<rparr>) = 1" using c by (simp add: demo_world_def)
  then show ?thesis using d
    by (intro exI [of _ "?w0\<lparr>w_local := 1, w_jobs := [?j]\<rparr>"])
      (simp add: pool_room_def threadpool_has_local_capacity_def demo_backend_def)
qed

end
