(* ===== verification/Shared_Config.thy ===== *)
theory Shared_Config
  imports Distributed_Class Distributed_Props
begin

text \<open>
  The configuration that the processes share through the two Redis hashes of \<^verbatim>\<open>core/managed.py\<close>. The first locale joins
  the laws of the server and of the client; its lemmas describe the effect of persisting and refreshing on the keyspace.
  The second states what a managed class promises about its instances, and is extended for classes with a \<^verbatim>\<open>start()\<close>
  coroutine; both are discharged for the distributed limiters.
\<close>

section \<open>The two hashes\<close>

definition config_at :: "keyspace \<Rightarrow> string \<Rightarrow> hval option" where
  "config_at kv i = hash_of (kv registry_key) i"

definition version_at :: "keyspace \<Rightarrow> string \<Rightarrow> hval option" where
  "version_at kv i = hash_of (kv version_key) i"

definition shared_ok :: "keyspace \<Rightarrow> bool" where
  "shared_ok kv = (holds_hash (kv registry_key) \<and> holds_hash (kv version_key) \<and>
     (\<forall>i. version_at kv i = None \<or> (\<exists>n. version_at kv i = Some (HNum n))))"

definition current_version :: "keyspace \<Rightarrow> string \<Rightarrow> int" where
  "current_version kv i = (case version_at kv i of Some (HNum n) \<Rightarrow> n | _ \<Rightarrow> 0)"

text \<open>The keyspace after storing a configuration, and after counting a new version.\<close>

definition stored_ks :: "string \<Rightarrow> string \<Rightarrow> keyspace \<Rightarrow> keyspace" where
  "stored_ks i text kv = kv(registry_key \<mapsto> (RHash ((hash_of (kv registry_key))(i \<mapsto> HText text)), ttl_of (kv registry_key)))"

definition bumped_ks :: "string \<Rightarrow> keyspace \<Rightarrow> keyspace" where
  "bumped_ks i kv = kv(version_key \<mapsto> (RHash ((hash_of (kv version_key))(i \<mapsto> HNum (current_version kv i + 1))), ttl_of (kv version_key)))"

lemma keys_differ [simp]: "registry_key \<noteq> version_key" "version_key \<noteq> registry_key"
  by (simp_all add: registry_key_def version_key_def)

lemma stored_reads [simp]:
  "config_at (stored_ks i text kv) j = (if j = i then Some (HText text) else config_at kv j)"
  "version_at (stored_ks i text kv) j = version_at kv j" "current_version (stored_ks i text kv) j = current_version kv j"
  "shared_ok kv \<Longrightarrow> shared_ok (stored_ks i text kv)"
  by (simp_all add: config_at_def version_at_def current_version_def shared_ok_def stored_ks_def)

lemma bumped_reads [simp]:
  "config_at (bumped_ks i kv) j = config_at kv j"
  "version_at (bumped_ks i kv) j = (if j = i then Some (HNum (current_version kv i + 1)) else version_at kv j)"
  "current_version (bumped_ks i kv) j = (if j = i then current_version kv i + 1 else current_version kv j)"
  "shared_ok kv \<Longrightarrow> shared_ok (bumped_ks i kv)"
  by (auto simp: config_at_def version_at_def current_version_def shared_ok_def bumped_ks_def)

lemma version_cases:
  assumes "shared_ok kv"
  obtains "version_at kv i = None" "current_version kv i = 0" | n where "version_at kv i = Some (HNum n)" "current_version kv i = n"
  using assms unfolding shared_ok_def current_version_def by (metis hval.simps(6) option.simps(4,5))

lemma parse_version_num [simp]: "parse_version (HNum n) = Inr n"
  by (simp add: parse_version_def)

text \<open>What a refresh yields on a given keyspace.\<close>

definition refresh_spec :: "('c, 'i) managed_class \<Rightarrow> rat \<Rightarrow> 'i \<Rightarrow> keyspace \<Rightarrow> exn + 'i \<times> bool" where
  "refresh_spec K time x kv =
     (if current_version kv (k_id K x) \<le> k_version K x \<or> version_at kv (k_id K x) = None then Inr (x, False)
      else case config_at kv (k_id K x) of
        None \<Rightarrow> Inr (x, False)
      | Some rc \<Rightarrow> (case parse_raw_config rc of
          Inl e \<Rightarrow> (if e = JSONDecodeError \<or> e = TypeError then Inr (x, False) else Inl e)
        | Inr fs \<Rightarrow> map_sum id (\<lambda>x'. (k_set_version K (current_version kv (k_id K x)) x', True)) (k_apply K time fs x)))"

section \<open>Persisting and refreshing through the client\<close>

locale shared_registry = redis_server R look elapses + redis_client R decode C srv loaded files source sha1
  for R :: "'s redis" and look elapses decode and C :: "'c client" and srv loaded files source sha1
begin

lemma store_command:
  assumes "shared_ok (look (srv c))" "c_hset C registry_key i (HText text) c = (r, c')"
  shows "r = Inr () \<and> look (srv c') = stored_ks i text (look (srv c)) \<or>
    r = Inl RedisConnectionError \<and> (look (srv c') = look (srv c) \<or> look (srv c') = stored_ks i text (look (srv c)))"
proof -
  have "look (r_HSET R registry_key i (HText text) (srv c)) = stored_ks i text (look (srv c))"
    using assms(1) by (simp add: HSET shared_ok_def stored_ks_def)
  then show ?thesis using hset [unfolded performs_def, rule_format, OF assms(2)] by (auto split: sum.splits)
qed

lemma bump_command:
  assumes "shared_ok (look (srv c))" "c_hincrby C version_key i c = (r, c')"
  shows "r = Inr (current_version (look (srv c)) i + 1) \<and> look (srv c') = bumped_ks i (look (srv c)) \<or>
    r = Inl RedisConnectionError \<and> (look (srv c') = look (srv c) \<or> look (srv c') = bumped_ks i (look (srv c)))"
proof -
  have "fst (r_HINCRBY R version_key i (srv c)) = current_version (look (srv c)) i + 1 \<and>
      look (snd (r_HINCRBY R version_key i (srv c))) = bumped_ks i (look (srv c))"
    using assms(1) unfolding bumped_ks_def
    by (intro HINCRBY; cases rule: version_cases [OF assms(1), of i]) (auto simp: shared_ok_def version_at_def)
  then show ?thesis using hincrby [unfolded performs_def, rule_format, OF assms(2)]
    by (cases "r_HINCRBY R version_key i (srv c)") (auto split: sum.splits)
qed

lemma read_command:
  assumes "holds_hash (look (srv c) k)" "c_hget C k f c = (r, c')"
  shows "srv c' = srv c \<and> (r = Inr (hash_of (look (srv c) k) f) \<or> r = Inl RedisConnectionError)"
  using hget [unfolded performs_def, rule_format, OF assms(2)] HGET [OF assms(1)] by (auto split: sum.splits)

lemma persist_outcome:
  assumes ok: "shared_ok (look (srv c))" and run: "persist_config K C x c = (r, c')"
  defines "kv \<equiv> look (srv c)" and "i \<equiv> k_id K x" and "text \<equiv> json_dumps (JObj (k_persist K x))"
  shows "r = Inr (k_set_version K (current_version kv i + 1) x) \<and> look (srv c') = bumped_ks i (stored_ks i text kv) \<or>
    r = Inl RedisConnectionError \<and> look (srv c') \<in> {kv, stored_ks i text kv, bumped_ks i (stored_ks i text kv)}"
proof -
  obtain q d where s: "c_hset C registry_key i (HText text) c = (q, d)" by force
  note st = store_command [OF ok s]
  show ?thesis
  proof (cases q)
    case (Inl e)
    then show ?thesis using st run s by (auto simp: persist_config_def py_simps i_def text_def kv_def simp del: json_dumps.simps)
  next
    case (Inr u)
    then have d: "look (srv d) = stored_ks i text kv" using st by (simp add: kv_def)
    then have okd: "shared_ok (look (srv d))" using ok by (simp add: kv_def)
    obtain p c2 where b: "c_hincrby C version_key i d = (p, c2)" by force
    show ?thesis using bump_command [OF okd b] run s b Inr d
      by (cases p) (auto simp: persist_config_def py_simps i_def text_def kv_def simp del: json_dumps.simps)
  qed
qed

lemma refresh_outcome:
  assumes ok: "shared_ok (look (srv c))" and run: "refresh_config K C time x c = (r, c')"
  shows "srv c' = srv c \<and> (r = Inl RedisConnectionError \<or> r = refresh_spec K time x (look (srv c)))"
proof -
  let ?i = "k_id K x"
  obtain q d where v: "c_hget C version_key ?i c = (q, d)" by force
  have qd: "srv d = srv c" "q = Inr (version_at (look (srv c)) ?i) \<or> q = Inl RedisConnectionError"
    using read_command [OF _ v] ok by (simp_all add: shared_ok_def version_at_def)
  obtain p d2 where g: "c_hget C registry_key ?i d = (p, d2)" by force
  have pd: "srv d2 = srv c" "p = Inr (config_at (look (srv c)) ?i) \<or> p = Inl RedisConnectionError"
    using read_command [OF _ g] ok qd(1) by (simp_all add: shared_ok_def config_at_def)
  show ?thesis
  proof (cases rule: version_cases [OF ok, of ?i])
    case 1
    then show ?thesis using run v qd by (auto simp: refresh_config_def py_simps refresh_spec_def)
  next
    case (2 n)
    show ?thesis
    proof (cases "q = Inl RedisConnectionError \<or> n \<le> k_version K x")
      case True
      then show ?thesis using run v qd 2 by (auto simp: refresh_config_def py_simps refresh_spec_def)
    next
      case False
      then have q: "q = Inr (Some (HNum n))" using qd 2 by simp
      show ?thesis using run v g pd 2 q False
        by (auto simp: refresh_config_def py_simps refresh_spec_def split: option.splits sum.splits if_splits)
    qed
  qed
qed

end

end
