(* ===== verification/Managed_Props.thy ===== *)
theory Managed_Props
  imports Shared_Config Async_Props
begin

text \<open>
  The guarantees of the managed limiters: what a class promises about its instances (the locales), what follows for
  creation, lookup, update and refresh, and the properties for the distributed limiters, synchronous and asynchronous.
\<close>

section \<open>What a class promises\<close>

text \<open>The configuration of an \<open>exact\<close> instance survives its JSON text; from that of a \<open>valid\<close> one an instance can be built.\<close>

locale managed_limiter =
  fixes K :: "('c, 'i) managed_class" and srv :: "'c \<Rightarrow> 's" and exact valid :: "'i \<Rightarrow> bool"
  assumes id_set [simp]: "k_id K (k_set_version K v x) = k_id K x"
    and version_set [simp]: "k_version K (k_set_version K v x) = v"
    and persist_set [simp]: "k_persist K (k_set_version K v x) = k_persist K x"
    and persist_json: "exact x \<Longrightarrow> json_ok (JObj (k_persist K x))"
    and apply_persist: "exact x \<Longrightarrow> \<exists>y'. k_apply K time (k_persist K x) y = Inr y' \<and> k_persist K y' = k_persist K x"
    and apply_id: "k_apply K time fs x = Inr x' \<Longrightarrow> k_id K x' = k_id K x"
    and construct: "k_construct K i fs g = (r, g') \<Longrightarrow> srv (g_conn g') = srv (g_conn g) \<and> g_instances g' = g_instances g \<and>
      (\<forall>x. r = Inr x \<longrightarrow> k_id K x = i)"
    and construct_persist: "exact x \<Longrightarrow> valid x \<Longrightarrow> k_construct K (k_id K x) (k_persist K x) g = (r, g') \<Longrightarrow>
      r = Inl RedisConnectionError \<or> (\<exists>y. r = Inr y \<and> k_persist K y = k_persist K x)"

text \<open>An asynchronous class: \<^verbatim>\<open>start()\<close> keeps identity and configuration and can only fail on the connection. Starting
  right after construction gives a class in the sense above.\<close>

definition started :: "('c, 'i) managed_class \<Rightarrow> ('c, 'i) managed_class" where
  "started K = K\<lparr>k_construct := \<lambda>i fs. py_bind (k_construct K i fs) (k_start K)\<rparr>"

locale async_managed_limiter = managed_limiter +
  assumes start: "k_start K x g = (r, g') \<Longrightarrow> srv (g_conn g') = srv (g_conn g) \<and> g_instances g' = g_instances g \<and>
    (r = Inl RedisConnectionError \<or> (\<exists>y. r = Inr y \<and> k_id K y = k_id K x \<and> k_persist K y = k_persist K x))"

sublocale async_managed_limiter \<subseteq> started: managed_limiter "started K" srv exact valid
proof unfold_locales
  fix i fs g r g'
  assume "k_construct (started K) i fs g = (r, g')"
  then show "srv (g_conn g') = srv (g_conn g) \<and> g_instances g' = g_instances g \<and> (\<forall>x. r = Inr x \<longrightarrow> k_id (started K) x = i)"
    using construct [of i fs g] start by (fastforce simp: started_def py_bind_def split: prod.splits sum.splits)
next
  fix x g r g'
  assume "exact x" "valid x" "k_construct (started K) (k_id (started K) x) (k_persist (started K) x) g = (r, g')"
  then show "r = Inl RedisConnectionError \<or> (\<exists>y. r = Inr y \<and> k_persist (started K) y = k_persist (started K) x)"
    using construct_persist [of x g] start by (fastforce simp: started_def py_bind_def split: prod.splits sum.splits)
qed (simp_all add: started_def persist_json apply_persist apply_id del: json_ok.simps)

section \<open>Creation, lookup, update\<close>

lemma parse_own_config: "json_ok (JObj fs) \<Longrightarrow> parse_raw_config (HText (json_dumps (JObj fs))) = Inr fs"
  using json_roundtrip [of "JObj fs"] by (simp add: parse_raw_config_def del: json_dumps.simps)

text \<open>The hashes hold the configuration of \<open>x\<close> as version \<open>n\<close> of the limiter \<open>i\<close>.\<close>

definition published :: "('c, 'i) managed_class \<Rightarrow> keyspace \<Rightarrow> string \<Rightarrow> 'i \<Rightarrow> int \<Rightarrow> bool" where
  "published K kv i x n = (config_at kv i = Some (HText (json_dumps (JObj (k_persist K x)))) \<and> version_at kv i = Some (HNum n))"

lemma published_bumped: "published K (bumped_ks i (stored_ks i (json_dumps (JObj (k_persist K x))) kv)) i x (current_version kv i + 1)"
  by (simp add: published_def)

lemma published_version: "published K kv i x n \<Longrightarrow> current_version kv i = n"
  by (simp add: published_def current_version_def)

locale managed_registry = shared_registry R look elapses decode C srv loaded files source sha1 + managed_limiter K srv exact valid
  for R :: "'s redis" and look elapses decode and C :: "'c client" and srv loaded files source sha1
    and K :: "('c, 'i) managed_class" and exact valid
begin

lemma published_set [simp]: "published K kv i (k_set_version K v x) n = published K kv i x n"
  by (simp add: published_def)

lemma create_outcome:
  assumes ok: "shared_ok (look (srv (g_conn g)))" and run: "managed_create K C i True override cfg g = (Inr x, g')"
  shows "k_id K x = i \<and> k_version K x = current_version (look (srv (g_conn g))) i + 1 \<and>
    published K (look (srv (g_conn g'))) i x (k_version K x) \<and> shared_ok (look (srv (g_conn g'))) \<and>
    g_instances g' = (g_instances g)(i \<mapsto> x) \<and> (\<exists>x0 g1 v. k_construct K i cfg g = (Inr x0, g1) \<and> x = k_set_version K v x0)"
proof -
  obtain x0 g1 where c: "k_construct K i cfg g = (Inr x0, g1)"
    using run by (auto simp: managed_create_def managed_init_def require_internal_construction_def require_configured_def py_simps
        split: prod.splits sum.splits if_splits)
  note cs = construct [OF c]
  obtain q d where p: "persist_config K C x0 (g_conn g1) = (q, d)" by force
  have ok1: "shared_ok (look (srv (g_conn g1)))" using ok cs by simp
  have q: "q = Inr x" and g': "g' = g1\<lparr>g_conn := d, g_instances := (g_instances g1)(i \<mapsto> x)\<rparr>"
    using run c p
    by (auto simp: managed_create_def managed_init_def require_internal_construction_def require_configured_def py_simps
        store_def on_registry_def split: sum.splits if_splits)
  have "x = k_set_version K (current_version (look (srv (g_conn g))) i + 1) x0"
    and l: "look (srv d) = bumped_ks i (stored_ks i (json_dumps (JObj (k_persist K x0))) (look (srv (g_conn g))))"
    using persist_outcome [OF ok1 p] q cs by (simp_all add: registry.simps del: json_dumps.simps)
  then show ?thesis using g' cs ok published_bumped c by (auto simp del: json_dumps.simps)
qed

lemma get_cases:
  assumes ok: "shared_ok (look (srv (g_conn g)))" and pub: "published K (look (srv (g_conn g))) i x n"
    and v: "exact x" and ready: "g_configured g" "has_backend_context K g" "g_instances g i = None"
    and run: "managed_get K C i g = (r, g')"
  shows "r = Inl RedisConnectionError \<or>
    (\<exists>g1 p g2. k_construct K i (k_persist K x) g1 = (p, g2) \<and>
       (case p of Inl e \<Rightarrow> r = Inl e
        | Inr y \<Rightarrow> r = Inr (k_set_version K n y) \<and> g_instances g' = (g_instances g)(i \<mapsto> k_set_version K n y)))"
proof -
  obtain q d where h: "c_hget C registry_key i (g_conn g) = (q, d)" by force
  have qd: "srv d = srv (g_conn g)" "q = Inr (config_at (look (srv (g_conn g))) i) \<or> q = Inl RedisConnectionError"
    using read_command [OF _ h] ok by (simp_all add: shared_ok_def config_at_def)
  obtain p g1 where c: "k_construct K i (k_persist K x) (g\<lparr>g_conn := d\<rparr>) = (p, g1)" by force
  note cs = construct [OF c]
  obtain s d2 where h2: "c_hget C version_key i (g_conn g1) = (s, d2)" by force
  have sd: "s = Inr (version_at (look (srv (g_conn g))) i) \<or> s = Inl RedisConnectionError"
    using read_command [OF _ h2] ok qd(1) cs by (simp add: shared_ok_def version_at_def)
  have fs: "parse_raw_config (HText (json_dumps (JObj (k_persist K x)))) = Inr (k_persist K x)"
    by (rule parse_own_config [OF persist_json [OF v]])
  have rc: "require_configured K g = (Inr (), g)" using ready by (simp add: require_configured_def py_simps)
  note un = managed_get_def adopt_version_def py_simps on_registry_def managed_init_def require_internal_construction_def store_def
  show ?thesis
  proof (cases "q = Inl RedisConnectionError")
    case True
    then show ?thesis using run h ready rc by (auto simp: un)
  next
    case False
    then have q: "q = Inr (Some (HText (json_dumps (JObj (k_persist K x)))))" using qd pub by (simp add: published_def del: json_dumps.simps)
    have "r = Inl RedisConnectionError \<or> (case p of Inl e \<Rightarrow> r = Inl e
        | Inr y \<Rightarrow> r = Inr (k_set_version K n y) \<and> g_instances g' = (g_instances g)(i \<mapsto> k_set_version K n y))"
      using run h ready rc q c fs h2 sd pub cs by (cases p) (auto simp: un published_def simp del: json_dumps.simps)
    then show ?thesis using c by blast
  qed
qed

text \<open>The second half of \<^verbatim>\<open>get\<close>: the instance takes the version that it finds, whatever configuration it was built from.\<close>

lemma adopt_outcome:
  assumes ok: "shared_ok (look (srv (g_conn g)))" and run: "adopt_version K C i x g = (r, g')"
  defines "y \<equiv> if version_at (look (srv (g_conn g))) i = None then x else k_set_version K (current_version (look (srv (g_conn g))) i) x"
  shows "srv (g_conn g') = srv (g_conn g) \<and> (r = Inl RedisConnectionError \<or> r = Inr y \<and> g_instances g' = (g_instances g)(i \<mapsto> y))"
proof -
  obtain q d where h: "c_hget C version_key i (g_conn g) = (q, d)" by force
  have qd: "srv d = srv (g_conn g)" "q = Inr (version_at (look (srv (g_conn g))) i) \<or> q = Inl RedisConnectionError"
    using read_command [OF _ h] ok by (simp_all add: shared_ok_def version_at_def)
  show ?thesis
    using run h qd unfolding y_def
    by (cases rule: version_cases [OF ok, of i]) (auto simp: adopt_version_def py_simps on_registry_def store_def)
qed

lemma update_outcome:
  assumes ok: "shared_ok (look (srv (g_conn g)))" and x: "g_instances g i = Some x" "k_id K x = i"
    and run: "managed_update K C i ov g = (Inr x', g')"
  shows "k_id K x' = i \<and> k_version K x' = current_version (look (srv (g_conn g))) i + 1 \<and>
    published K (look (srv (g_conn g'))) i x' (k_version K x') \<and> shared_ok (look (srv (g_conn g'))) \<and>
    (\<exists>x1. k_apply K (g_time g) ov x = Inr x1 \<and> x' = k_set_version K (k_version K x') x1) \<and> g_instances g' = (g_instances g)(i \<mapsto> x')"
proof -
  obtain x1 where a: "k_apply K (g_time g) ov x = Inr x1"
    using run x by (auto simp: managed_update_def managed_get_def py_simps split: sum.splits)
  have i: "k_id K x1 = i" using apply_id [OF a] x by simp
  obtain q d where p: "persist_config K C x1 (g_conn g) = (q, d)" by force
  have q: "q = Inr x'" and g': "g' = g\<lparr>g_conn := d, g_instances := (g_instances g)(i \<mapsto> x')\<rparr>"
    using run x a p by (auto simp: managed_update_def managed_get_def py_simps store_def on_registry_def split: sum.splits)
  have "x' = k_set_version K (current_version (look (srv (g_conn g))) i + 1) x1"
    and l: "look (srv d) = bumped_ks i (stored_ks i (json_dumps (JObj (k_persist K x1))) (look (srv (g_conn g))))"
    using persist_outcome [OF ok p] q i by (simp_all del: json_dumps.simps)
  then show ?thesis using g' ok published_bumped i a by (simp del: json_dumps.simps)
qed

lemma refresh_converges:
  assumes "published K kv i x n" "exact x" "k_id K y = i" "k_version K y < n"
  shows "\<exists>y'. refresh_spec K time y kv = Inr (y', True) \<and> k_id K y' = i \<and> k_persist K y' = k_persist K x \<and> k_version K y' = n \<and>
    refresh_spec K time' y' kv = Inr (y', False)"
proof -
  obtain y1 where y1: "k_apply K time (k_persist K x) y = Inr y1" "k_persist K y1 = k_persist K x"
    using apply_persist [OF assms(2)] by blast
  have v: "current_version kv i = n" "version_at kv i \<noteq> None" using assms(1) by (auto simp: published_def current_version_def)
  have "refresh_spec K time y kv = Inr (k_set_version K n y1, True)"
    using assms v y1 parse_own_config [OF persist_json [OF assms(2)]]
    by (simp add: refresh_spec_def published_def del: json_dumps.simps)
  moreover have "refresh_spec K time' (k_set_version K n y1) kv = Inr (k_set_version K n y1, False)"
    using v assms(3) apply_id [OF y1(1)] by (simp add: refresh_spec_def)
  ultimately show ?thesis using y1 assms(3) apply_id [OF y1(1)] by (intro exI [of _ "k_set_version K n y1"]) simp
qed

end

end
