(* ===== verification/Managed_Limiters.thy ===== *)
theory Managed_Limiters
  imports Managed_Props
begin

text \<open>
  The distributed limiters satisfy the laws of managed classes; the properties of \<^verbatim>\<open>create\<close>, \<^verbatim>\<open>get\<close>, \<^verbatim>\<open>update\<close> and
  \<^verbatim>\<open>refresh_config\<close> follow for processes that share one Redis server.
\<close>

section \<open>Constructors\<close>

text \<open>The window is written with at most sixteen decimals; the constructors accept the configuration.\<close>

definition exact_window :: "'c world \<Rightarrow> bool" where
  "exact_window w = is_integral (l_window (w_lim w) * 10 ^ 16)"

definition valid_config :: "'c world \<Rightarrow> bool" where
  "valid_config w = config_ok (w_lim w)"

text \<open>What every constructor of a backend does to the limiter and to the server.\<close>

definition inits :: "'c env \<Rightarrow> ('c \<Rightarrow> 's) \<Rightarrow> (limiter_args \<Rightarrow> ('c world, unit) py) \<Rightarrow> bool" where
  "inits E srv init = (\<forall>a w r w'. init a w = (r, w') \<longrightarrow> server_of srv w' = server_of srv w \<and>
     (case mixin_init a (e_uuid E (w_uuids w)) of
        Inl e \<Rightarrow> r = Inl e
      | Inr l \<Rightarrow> r = Inr () \<and> w_lim w' = l \<or> r = Inl RedisConnectionError))"

context redis_client
begin

lemma register_frame:
  assumes "register_script files C n w = (r, w')"
  shows "srv (s_conn w') = srv (s_conn w) \<and> ((\<exists>h. r = Inr h) \<or> r = Inl RedisConnectionError)"
proof -
  obtain t where t: "t = (case s_sources w n of Some t \<Rightarrow> t | None \<Rightarrow> source n)" by blast
  obtain q c where c: "c_script_load C t (s_conn w) = (q, c)" by force
  show ?thesis using assms c t script_load [OF c]
    by (cases "s_sources w n"; cases q)
      (auto simp: register_script_def py_simps lookup_key_def on_conn_def domIff packaged default_resource_packages_def)
qed

end

lemma register_all_cases:
  assumes cl: "redis_client R decode (e_client E) srv loaded (e_files E) source sha1"
    and run: "register_all E names w = (r, w')"
  shows "w_lim w' = w_lim w \<and> server_of srv w' = server_of srv w \<and>
    (r = Inr () \<or> r = Inl RedisConnectionError)"
  using run
proof (induction names arbitrary: w)
  case Nil
  then show ?case by (simp add: register_all_def py_simps)
next
  case (Cons n names)
  obtain q s where q: "register_script (e_files E) (e_client E) n (w_scripts w) = (q, s)" by force
  note reg = redis_client.register_frame [OF cl q]
  have step: "register_all E (n # names) w = (case q of Inl e \<Rightarrow> (Inl e, w\<lparr>w_scripts := s\<rparr>) | Inr _ \<Rightarrow> register_all E names (w\<lparr>w_scripts := s\<rparr>))"
    using q by (simp add: register_all_def py_bind_def on_scripts_def split: sum.split)
  show ?case
  proof (cases q)
    case (Inl e)
    then show ?thesis using step Cons.prems reg by (auto simp: server_of_def)
  next
    case (Inr h)
    then show ?thesis using step Cons.prems reg Cons.IH [of "w\<lparr>w_scripts := s\<rparr>"] by (auto simp: server_of_def)
  qed
qed

lemma subscribe_cases:
  assumes cl: "redis_client R decode (e_client E) srv loaded (e_files E) source sha1"
    and run: "on_redis (c_subscribe (e_client E) ch) w = (r, w')"
  shows "w_lim w' = w_lim w \<and> server_of srv w' = server_of srv w \<and> (r = Inr () \<or> r = Inl RedisConnectionError)"
  using redis_cases [OF redis_client.subscribe [OF cl] run, of source sha1] by (auto dest: local_sameD(1) split: sum.splits)

lemma inits_distributed:
  assumes cl: "redis_client R decode (e_client E) srv loaded (e_files E) source sha1"
  shows "inits E srv (distributed_init E)"
  unfolding inits_def
proof (intro allI impI)
  fix a w r w'
  assume run: "distributed_init E a w = (r, w')"
  show "server_of srv w' = server_of srv w \<and> (case mixin_init a (e_uuid E (w_uuids w)) of Inl e \<Rightarrow> r = Inl e
      | Inr l \<Rightarrow> r = Inr () \<and> w_lim w' = l \<or> r = Inl RedisConnectionError)"
  proof (cases "mixin_init a (e_uuid E (w_uuids w))")
    case (Inl e)
    then show ?thesis using run by (auto simp: distributed_init_def py_simps next_uuid_def server_of_def)
  next
    case (Inr l)
    define w1 where "w1 = w\<lparr>w_uuids := w_uuids w + 1, w_lim := l, w_shutdown_called := False, w_hb_created := False,
        w_scripts := (w_scripts w)\<lparr>s_sources := Map.empty, s_shas := Map.empty\<rparr>\<rparr>"
    obtain q w2 where reg: "register_all E limiter_scripts w1 = (q, w2)" by force
    have s1: "server_of srv w1 = server_of srv w" "w_lim w1 = l" by (simp_all add: w1_def server_of_def)
    note rc = register_all_cases [OF cl reg]
    let ?w = "w2\<lparr>w_hb := heartbeat_init l, w_hb_created := True, w_loop := Some (drain_loop_init (watchdog_interval l))\<rparr>"
    obtain p w3 where sub: "on_redis (c_subscribe (e_client E) (drain_signal_channel (l_id l))) ?w = (p, w3)" by force
    note sc = subscribe_cases [OF cl sub]
    have srv2: "server_of srv w2 = server_of srv w" "w_lim w2 = l" "server_of srv ?w = server_of srv w2" using rc s1
      by (auto simp: server_of_def)
    show ?thesis
    proof (cases "q = Inr () \<and> a_drain_enabled a")
      case True
      then have "(r, w') = (case p of Inl e \<Rightarrow> (Inl e, w3) | Inr _ \<Rightarrow> (Inr (), w3\<lparr>w_subscriber := Some \<lparr>sb_shutdown = False, sb_running = True\<rparr>,
            w_monitor := (if e_check_health E \<noteq> None then Some \<lparr>m_healthy = True, m_shutdown = False, m_running = True\<rparr> else None)\<rparr>))"
        using run Inr reg sub srv2(2)
        by (cases p) (auto simp: distributed_init_def py_simps next_uuid_def w1_def subscriber_start_def)
      then show ?thesis using Inr sc srv2 by (auto simp: server_of_def split: sum.splits)
    next
      case False
      have "(r, w') = (case q of Inl e \<Rightarrow> (Inl e, w2) | Inr _ \<Rightarrow> (Inr (), w2\<lparr>w_hb := heartbeat_init l, w_hb_created := True, w_loop := None,
            w_subscriber := None, w_monitor := None\<rparr>))"
        using False run Inr reg by (auto simp: distributed_init_def py_simps next_uuid_def w1_def split: sum.split)
      then show ?thesis using Inr rc srv2 by (auto simp: server_of_def split: sum.splits)
    qed
  qed
qed

lemma inits_async: "inits E srv (async_distributed_init E)"
  by (auto simp: inits_def async_distributed_init_def py_simps next_uuid_def server_of_def split: sum.splits)

section \<open>The laws hold\<close>

lemma persist_fields: "config_fields (build_persist_config l) =
  [(''limit'', JInt (l_limit l)), (''window'', JFloat (py_repr (l_window l))), (''max_concurrency'', JInt (l_max_concurrency l)),
   (''max_age'', JInt (l_max_age l)), (''lease_duration'', JInt (l_lease_duration l))]"
  by (simp add: config_fields_def build_persist_config_def base_build_persist_config_def no_overrides_def)

lemma jget_fields:
  "jget (config_fields (build_persist_config l)) ''limit'' = Some (JInt (l_limit l))"
  "jget (config_fields (build_persist_config l)) ''window'' = Some (JFloat (py_repr (l_window l)))"
  "jget (config_fields (build_persist_config l)) ''max_concurrency'' = Some (JInt (l_max_concurrency l))"
  "jget (config_fields (build_persist_config l)) ''max_age'' = Some (JInt (l_max_age l))"
  "jget (config_fields (build_persist_config l)) ''lease_duration'' = Some (JInt (l_lease_duration l))"
  "k \<notin> {''limit'', ''window'', ''max_concurrency'', ''max_age'', ''lease_duration''} \<Longrightarrow>
     jget (config_fields (build_persist_config l)) k = None"
  by (auto simp: persist_fields jget_def)

lemma fields_overrides:
  "is_integral (l_window l * 10 ^ 16) \<Longrightarrow> field_overrides (config_fields (build_persist_config l)) = Inr (build_persist_config l)"
  by (simp add: field_overrides_def field_def stored_def jget_fields jint_def jnum_def py_float_repr)
    (simp add: build_persist_config_def base_build_persist_config_def no_overrides_def)

text \<open>The arguments that \<^verbatim>\<open>get\<close> passes: what is persisted, and the defaults of everything else.\<close>

definition persisted_args :: "string \<Rightarrow> limiter \<Rightarrow> limiter_args" where
  "persisted_args i l = (default_args i (l_limit l) (l_window l) (l_max_concurrency l))
     \<lparr>a_max_age := l_max_age l, a_lease_duration := l_lease_duration l\<rparr>"

lemma fields_args:
  "is_integral (l_window l * 10 ^ 16) \<Longrightarrow> constructor_args i (config_fields (build_persist_config l)) = Some (persisted_args i l)"
proof -
  have "list_all (\<lambda>f. fst f \<in> set constructor_keywords) (config_fields (build_persist_config l))"
    by (simp add: persist_fields constructor_keywords_def)
  moreover assume "is_integral (l_window l * 10 ^ 16)"
  ultimately show ?thesis
    by (simp add: constructor_args_def arg_def jget_fields as_int_def as_float_def py_float_repr persisted_args_def default_args_def)
qed

lemma persist_persisted: "mixin_init (persisted_args (l_id l) l) u = Inr l' \<Longrightarrow> build_persist_config l' = build_persist_config l"
  by (auto simp: mixin_init_def base_init_def persisted_args_def default_args_def build_persist_config_def
      base_build_persist_config_def split: if_splits)

lemma persisted_args_ok: "config_ok l \<Longrightarrow> \<exists>l'. mixin_init (persisted_args (l_id l) l) u = Inr l'"
  by (simp add: config_ok_def mixin_init_def base_init_def persisted_args_def default_args_def)

lemma mixin_init_id: "mixin_init a u = Inr l \<Longrightarrow> l_id l = a_limiter_id a"
  by (auto simp: mixin_init_def base_init_def split: if_splits)

lemma apply_keeps_id: "l_id (apply_config_overrides t ov l) = l_id l"
  by (simp add: apply_config_overrides_def base_apply_config_overrides_def Let_def split: option.split)

lemma apply_own: "build_persist_config (apply_config_overrides t (build_persist_config k) l) = build_persist_config k"
  by (simp add: apply_config_overrides_def base_apply_config_overrides_def build_persist_config_def
      base_build_persist_config_def no_overrides_def Let_def)

text \<open>Running a method on an instance.\<close>

lemma on_instance_server:
  assumes "\<And>r w'. m (with_conn (g_conn g) x\<lparr>w_time := g_time g, w_uuids := g_uuids g\<rparr>) = (r, w') \<Longrightarrow> server_of srv w' = srv (g_conn g)"
    and "on_instance m x g = (q, g')"
  shows "srv (g_conn g') = srv (g_conn g) \<and> g_instances g' = g_instances g"
  using assms by (fastforce simp: on_instance_def server_of_def split: prod.splits)

lemma construct_laws:
  assumes init: "inits E srv init" and run: "construct_instance init i fs g = (r, g')"
  shows "srv (g_conn g') = srv (g_conn g) \<and> g_instances g' = g_instances g \<and>
    (case constructor_args i fs of
       None \<Rightarrow> r = Inl TypeError
     | Some a \<Rightarrow> (case mixin_init a (e_uuid E (g_uuids g)) of
         Inl e \<Rightarrow> r = Inl e
       | Inr l \<Rightarrow> r = Inl RedisConnectionError \<or> (\<exists>w. r = Inr w \<and> w_lim w = l)))"
proof (cases "constructor_args i fs")
  case None
  then show ?thesis using run by (simp add: construct_instance_def py_simps)
next
  case (Some a)
  let ?w = "with_conn (g_conn g) (blank_world (g_conn g))\<lparr>w_time := g_time g, w_uuids := g_uuids g\<rparr>"
  obtain q w where q: "init a ?w = (q, w)" by force
  have "server_of srv ?w = srv (g_conn g)" "w_uuids ?w = g_uuids g" by (simp_all add: server_of_def with_conn_def)
  then have "server_of srv w = srv (g_conn g)" and l: "case mixin_init a (e_uuid E (g_uuids g)) of Inl e \<Rightarrow> q = Inl e
      | Inr l \<Rightarrow> q = Inr () \<and> w_lim w = l \<or> q = Inl RedisConnectionError"
    using init [unfolded inits_def, rule_format, OF q] by (simp_all split: sum.splits)
  moreover have "(r, g') = (case q of Inl e \<Rightarrow> Inl e | Inr _ \<Rightarrow> Inr w, g\<lparr>g_conn := s_conn (w_scripts w), g_uuids := w_uuids w\<rparr>)"
    using run Some q by (simp add: construct_instance_def py_simps on_instance_def)
  ultimately show ?thesis using Some by (auto simp: server_of_def split: sum.splits)
qed

lemma distributed_managed:
  assumes "inits E srv init"
  shows "managed_limiter (distributed_class init start) srv exact_window valid_config"
proof unfold_locales
  fix x :: "'a world" and time y
  assume v: "exact_window x"
  then show "json_ok (JObj (k_persist (distributed_class init start) x))"
    by (simp add: distributed_class_def persist_fields repr_token)
  show "\<exists>y'. k_apply (distributed_class init start) time (k_persist (distributed_class init start) x) y = Inr y' \<and>
      k_persist (distributed_class init start) y' = k_persist (distributed_class init start) x"
    using v by (simp add: distributed_class_def fields_overrides exact_window_def apply_own)
next
  fix time fs and x x' :: "'a world"
  assume "k_apply (distributed_class init start) time fs x = Inr x'"
  then show "k_id (distributed_class init start) x' = k_id (distributed_class init start) x"
    by (auto simp: distributed_class_def apply_keeps_id split: sum.splits)
next
  fix i fs and g :: "('a, 'a world) registry" and r g'
  assume "k_construct (distributed_class init start) i fs g = (r, g')"
  then have "construct_instance init i fs g = (r, g')" by (simp add: distributed_class_def)
  from construct_laws [OF assms this]
  show "srv (g_conn g') = srv (g_conn g) \<and> g_instances g' = g_instances g \<and>
      (\<forall>x. r = Inr x \<longrightarrow> k_id (distributed_class init start) x = i)"
    by (auto simp: distributed_class_def constructor_args_def dest!: mixin_init_id split: option.splits sum.splits if_splits)
next
  fix x :: "'a world" and g :: "('a, 'a world) registry" and r g'
  let ?K = "distributed_class init start"
  assume v: "exact_window x" "valid_config x" and "k_construct ?K (k_id ?K x) (k_persist ?K x) g = (r, g')"
  then have c: "construct_instance init (l_id (w_lim x)) (config_fields (build_persist_config (w_lim x))) g = (r, g')"
    by (simp add: distributed_class_def)
  obtain l' where l: "mixin_init (persisted_args (l_id (w_lim x)) (w_lim x)) (e_uuid E (g_uuids g)) = Inr l'"
    using persisted_args_ok v unfolding valid_config_def by blast
  show "r = Inl RedisConnectionError \<or> (\<exists>y. r = Inr y \<and> k_persist ?K y = k_persist ?K x)"
    using construct_laws [OF assms c] v l persist_persisted [OF l]
    by (auto simp: distributed_class_def exact_window_def fields_args)
qed (simp_all add: distributed_class_def build_persist_config_def base_build_persist_config_def)

lemma async_start_cases:
  assumes cl: "redis_client R decode (e_client E) srv loaded (e_files E) source sha1" and run: "async_start E w = (r, w')"
  shows "w_lim w' = w_lim w \<and> server_of srv w' = server_of srv w \<and> (r = Inr () \<or> r = Inl RedisConnectionError)"
proof -
  obtain q w1 where reg: "register_all E limiter_scripts w = (q, w1)" by force
  note rc = register_all_cases [OF cl reg]
  let ?w = "w1\<lparr>w_hb := async_heartbeat_init (w_lim w1), w_hb_created := True\<rparr>"
  obtain p w2 where sub: "on_redis (c_subscribe (e_client E) (drain_signal_channel (l_id (w_lim w1)))) ?w = (p, w2)" by force
  have sc: "w_lim w2 = w_lim w" "server_of srv w2 = server_of srv w" "p = Inr () \<or> p = Inl RedisConnectionError"
    using subscribe_cases [OF cl sub] rc by (auto simp: server_of_def)
  show ?thesis
    using run reg rc sub sc
    by (cases q; cases p; cases "w_subscriber w1")
      (auto simp: async_start_def async_register_all_eq py_simps async_subscriber_start_def async_monitor_start_def server_of_def)
qed

lemma async_distributed_managed:
  assumes cl: "redis_client R decode (e_client E) srv loaded (e_files E) source sha1"
  shows "async_managed_limiter (distributed_class (async_distributed_init E) (async_start E)) srv exact_window valid_config"
proof (intro async_managed_limiter.intro distributed_managed [OF inits_async] async_managed_limiter_axioms.intro)
  fix x g r g'
  let ?K = "distributed_class (async_distributed_init E) (async_start E)"
  assume "k_start ?K x g = (r, g')"
  then have run: "on_instance (async_start E) x g = (r, g')" by (simp add: distributed_class_def)
  obtain q w where q: "async_start E (with_conn (g_conn g) x\<lparr>w_time := g_time g, w_uuids := g_uuids g\<rparr>) = (q, w)" by force
  have "w_lim w = w_lim x" "server_of srv w = srv (g_conn g)" "q = Inr () \<or> q = Inl RedisConnectionError"
    using async_start_cases [OF cl q] by (simp_all add: with_conn_def server_of_def)
  then show "srv (g_conn g') = srv (g_conn g) \<and> g_instances g' = g_instances g \<and> (r = Inl RedisConnectionError \<or>
      (\<exists>y. r = Inr y \<and> k_id ?K y = k_id ?K x \<and> k_persist ?K y = k_persist ?K x))"
    using run q by (auto simp: on_instance_def distributed_class_def server_of_def)
qed

text \<open>One process: an environment whose client satisfies the laws. Both kinds of classes are managed classes in it.\<close>

locale limiter_process = redis_client R decode "e_client E" srv loaded "e_files E" source sha1
  for R :: "'s redis" and decode and E :: "'c env" and srv loaded source sha1

sublocale limiter_process \<subseteq> blocking: managed_limiter "distributed_class (distributed_init E) (py_return ())" srv exact_window valid_config
  by (rule distributed_managed [OF inits_distributed [OF redis_client_axioms]])

sublocale limiter_process \<subseteq> awaiting: async_managed_limiter "distributed_class (async_distributed_init E) (async_start E)" srv exact_window valid_config
  by (rule async_distributed_managed [OF redis_client_axioms])

interpretation mem_process: limiter_process mem_redis json_task demo_env cn_mem "\<lambda>c. set (cn_loaded c)" mem_source mem_sha1
  by (rule limiter_process.intro [OF demo_env_client])

end
