(* ===== verification/Registry_Props.thy ===== *)
theory Registry_Props
  imports Managed_Limiters
begin

text \<open>
  Properties of the managed limiters: the configuration that one process creates or updates reaches the others through
  Redis, and where it does not.
\<close>

text \<open>The managed distributed limiters of a process, blocking and awaiting.\<close>

definition blocking_class :: "'c env \<Rightarrow> ('c, 'c world) managed_class" where
  "blocking_class E = distributed_class (distributed_init E) (py_return ())"

definition awaiting_class :: "'c env \<Rightarrow> ('c, 'c world) managed_class" where
  "awaiting_class E = distributed_class (async_distributed_init E) (async_start E)"

lemma blocking_registry:
  assumes "redis_server R look el" "redis_client R decode (e_client E) srv loaded (e_files E) source sha1"
  shows "managed_registry R look el decode (e_client E) srv loaded (e_files E) source sha1 (blocking_class E) exact_window valid_config"
  unfolding blocking_class_def
  by (intro managed_registry.intro shared_registry.intro assms distributed_managed [OF inits_distributed [OF assms(2)]])

interpretation mem_registry: managed_registry mem_redis ks mem_elapses json_task "e_client demo_env" cn_mem "\<lambda>c. set (cn_loaded c)"
    "e_files demo_env" mem_source mem_sha1 "blocking_class demo_env" exact_window valid_config
  by (rule blocking_registry [OF mem.redis_server_axioms demo_env_client])

lemma blocking_fields [simp]:
  "k_id (blocking_class E) w = l_id (w_lim w)" "k_version (blocking_class E) w = l_config_version (w_lim w)"
  "k_set_version (blocking_class E) v w = w\<lparr>w_lim := (w_lim w)\<lparr>l_config_version := v\<rparr>\<rparr>"
  "k_persist (blocking_class E) w = config_fields (build_persist_config (w_lim w))"
  "k_construct (blocking_class E) = construct_instance (distributed_init E)"
  "has_backend_context (blocking_class E) h = g_backend h"
  by (simp_all add: blocking_class_def distributed_class_def has_backend_context_def)

lemma mixin_init_ok: "mixin_init a u = Inr l \<Longrightarrow> config_ok l"
  by (auto simp: mixin_init_def base_init_def config_ok_def split: if_splits)

lemma persist_version [simp]: "build_persist_config (l\<lparr>l_config_version := v\<rparr>) = build_persist_config l"
  by (simp add: build_persist_config_def base_build_persist_config_def)

lemma fields_inject:
  assumes "config_fields (build_persist_config l) = config_fields (build_persist_config k)"
    "is_integral (l_window l * 10 ^ 16)" "is_integral (l_window k * 10 ^ 16)"
  shows "build_persist_config l = build_persist_config k"
  using assms fields_overrides by (metis sum.inject(2))

lemma persisted_limiter:
  assumes "mixin_init (persisted_args i l) u = Inr k"
  shows "l_id k = i \<and> build_persist_config k = build_persist_config l \<and> l_on_heartbeat_failure k = ''warn'' \<and>
    l_jitter_enabled k \<and> l_drain_enabled k \<and> \<not> l_metrics_callback k"
  using assms by (auto simp: mixin_init_def base_init_def persisted_args_def default_args_def build_persist_config_def
      base_build_persist_config_def split: if_splits)

section \<open>A concrete process\<close>

definition demo_registry :: "(conn, conn world) registry" where
  "demo_registry = \<lparr>g_conn = \<lparr>cn_mem = mem_start 1700000000, cn_loaded = [], cn_links = []\<rparr>, g_configured = True, g_backend = True,
     g_instances = Map.empty, g_time = 1700000000, g_uuids = 0\<rparr>"

definition demo_config :: "(string \<times> json) list" where
  "demo_config = [(''limit'', JInt 2), (''window'', JFloat ''1.0''), (''max_concurrency'', JInt 1)]"

lemma demo_config_args: "constructor_args ''lim'' demo_config = Some (default_args ''lim'' 2 1 1)"
  by (simp add: constructor_args_def demo_config_def constructor_keywords_def arg_def jget_def as_int_def as_float_def default_args_def
      py_float_def py_float_pos_def py_exponent_def is_digit_def digit_val_def)

text \<open>The client on a connection that stays up.\<close>

lemma client_up:
  assumes "cn_links c = []"
  shows "c_script_load (mem_client d) t c = (Inr (mem_sha1 t), c\<lparr>cn_loaded := mem_sha1 t # cn_loaded c\<rparr>)"
    "c_subscribe (mem_client d) ch c = (Inr (), c)"
    "c_hget (mem_client d) k f c = (Inr (hash_of (ks (cn_mem c) k) f), c)"
    "c_hset (mem_client d) k f h c = (Inr (), c\<lparr>cn_mem := r_HSET mem_redis k f h (cn_mem c)\<rparr>)"
    "c_hincrby (mem_client d) k f c = (Inr (fst (r_HINCRBY mem_redis k f (cn_mem c))), c\<lparr>cn_mem := snd (r_HINCRBY mem_redis k f (cn_mem c))\<rparr>)"
  using assms by (cases c; cases "r_HINCRBY mem_redis k f (cn_mem c)"; simp add: mem_client_run)+

lemma demo_env_fields [simp]:
  "e_client demo_env = mem_client json_task" "e_files demo_env = mem_files" "e_check_health demo_env = None"
  by (simp_all add: demo_env_def)

lemma register_up:
  assumes "cn_links (s_conn s) = []" "s_sources s n = None"
  shows "register_script mem_files (mem_client d) n s = (Inr (mem_sha1 (mem_source n)),
    s\<lparr>s_conn := (s_conn s)\<lparr>cn_loaded := mem_sha1 (mem_source n) # cn_loaded (s_conn s)\<rparr>, s_sources := (s_sources s)(n \<mapsto> mem_source n),
      s_shas := (s_shas s)(n \<mapsto> mem_sha1 (mem_source n))\<rparr>)"
  using assms by (cases s) (simp add: register_script_def py_simps lookup_key_def on_conn_def client_up domIff mem_files_def
      default_resource_packages_def mem_source_def)

lemma construct_up:
  assumes "cn_links (g_conn g) = []" "constructor_args i fs = Some a" "mixin_init a (e_uuid demo_env (g_uuids g)) = Inr l"
  shows "\<exists>x c. construct_instance (distributed_init demo_env) i fs g = (Inr x, g\<lparr>g_conn := c, g_uuids := Suc (g_uuids g)\<rparr>) \<and>
    w_lim x = l \<and> cn_links c = [] \<and> cn_mem c = cn_mem (g_conn g)"
  using assms by (cases g; cases "a_drain_enabled a")
    (simp_all add: construct_instance_def py_simps on_instance_def blank_world_def with_conn_def distributed_init_def next_uuid_def
      register_all_def limiter_scripts_def on_scripts_def register_up subscriber_start_def on_redis_def on_conn_def client_up)

lemma demo_created: "\<exists>x c. managed_create (blocking_class demo_env) (e_client demo_env) ''lim'' True False demo_config demo_registry =
    (Inr x, demo_registry\<lparr>g_conn := c, g_uuids := 1, g_instances := [''lim'' \<mapsto> x]\<rparr>) \<and>
  w_lim x = demo_limiter\<lparr>l_worker_id := e_uuid demo_env 0, l_config_version := 1\<rparr> \<and> cn_links c = []"
proof -
  obtain x c where x: "construct_instance (distributed_init demo_env) ''lim'' demo_config demo_registry =
    (Inr x, demo_registry\<lparr>g_conn := c, g_uuids := 1\<rparr>)" "w_lim x = demo_limiter\<lparr>l_worker_id := e_uuid demo_env 0\<rparr>" "cn_links c = []"
    "cn_mem c = mem_start 1700000000"
    using construct_up [OF _ demo_config_args, of demo_registry] by (auto simp: demo_registry_def mixin_init_def base_init_def default_args_def)
  have i: "l_id (w_lim x) = ''lim''" using x(2) by simp
  have g: "g_instances demo_registry = Map.empty" "g_configured demo_registry" "g_backend demo_registry" by (simp_all add: demo_registry_def)
  show ?thesis
    by (simp add: managed_create_def require_configured_def py_simps managed_init_def require_internal_construction_def
        x(1,3) i g store_def on_registry_def persist_config_def client_up del: json_dumps.simps mem_cmds)
      (simp add: x demo_registry_def mem_HINCRBY_def mem_start_def version_key_def registry_key_def Let_def)
qed

lemma demo_shared_ok: "shared_ok (ks (cn_mem (g_conn demo_registry)))"
  by (simp add: shared_ok_def demo_registry_def mem_start_def version_at_def)

lemma get_up:
  assumes "cn_links (g_conn g) = []" "published (blocking_class demo_env) (ks (cn_mem (g_conn g))) i x n" "exact_window x"
    and "config_ok ((w_lim x)\<lparr>l_id := i\<rparr>)" "g_configured g" "g_backend g" "g_instances g i = None"
  shows "\<exists>y g'. managed_get (blocking_class demo_env) (mem_client json_task) i g = (Inr y, g')"
proof -
  let ?fs = "config_fields (build_persist_config (w_lim x))"
  have k: "hash_of (ks (cn_mem (g_conn g)) registry_key) i = Some (HText (json_dumps (JObj ?fs)))"
    "hash_of (ks (cn_mem (g_conn g)) version_key) i = Some (HNum n)"
    using assms(2) by (simp_all add: published_def config_at_def version_at_def del: json_dumps.simps)
  have fs: "parse_raw_config (HText (json_dumps (JObj ?fs))) = Inr ?fs"
    by (rule parse_own_config) (simp add: persist_fields repr_token)
  have a: "constructor_args i ?fs = Some (persisted_args i (w_lim x))" using assms(3) by (simp add: fields_args exact_window_def)
  obtain l where l: "mixin_init (persisted_args i (w_lim x)) (e_uuid demo_env (g_uuids g)) = Inr l"
    using assms(4) by (simp add: config_ok_def mixin_init_def base_init_def persisted_args_def default_args_def)
  obtain y c where "construct_instance (distributed_init demo_env) i ?fs g = (Inr y, g\<lparr>g_conn := c, g_uuids := Suc (g_uuids g)\<rparr>)"
      "cn_links c = []" "cn_mem c = cn_mem (g_conn g)"
    using construct_up [OF assms(1) a l] by blast
  then show ?thesis using assms fs k
    by (simp add: managed_get_def adopt_version_def require_configured_def py_simps on_registry_def managed_init_def require_internal_construction_def
        client_up store_def del: json_dumps.simps)
qed

section \<open>Creation and lookup\<close>

text \<open>What \<^verbatim>\<open>get\<close> makes of a published configuration in a process that has no instance yet.\<close>

lemma get_published:
  assumes "redis_server R look el" "redis_client R decode (e_client E) srv loaded (e_files E) source sha1"
    and "shared_ok (look (srv (g_conn h)))" "published (blocking_class E) (look (srv (g_conn h))) i x n" "exact_window x"
    and "g_configured h" "g_backend h" "g_instances h i = None" "i \<noteq> []"
    and "managed_get (blocking_class E) (e_client E) i h = (r, h')"
  shows "r = Inl RedisConnectionError \<or>
    (if valid_config (x\<lparr>w_lim := (w_lim x)\<lparr>l_id := i\<rparr>\<rparr>)
     then \<exists>y. r = Inr y \<and> g_instances h' = (g_instances h)(i \<mapsto> y) \<and> l_id (w_lim y) = i \<and>
       build_persist_config (w_lim y) = build_persist_config (w_lim x) \<and> l_config_version (w_lim y) = n \<and>
       l_on_heartbeat_failure (w_lim y) = ''warn'' \<and> l_jitter_enabled (w_lim y) \<and> l_drain_enabled (w_lim y) \<and>
       \<not> l_metrics_callback (w_lim y)
     else r = Inl ValueError)"
proof (rule disjCI)
  assume no: "\<not> (if valid_config (x\<lparr>w_lim := (w_lim x)\<lparr>l_id := i\<rparr>\<rparr>) then \<exists>y. r = Inr y \<and> g_instances h' = (g_instances h)(i \<mapsto> y) \<and>
       l_id (w_lim y) = i \<and> build_persist_config (w_lim y) = build_persist_config (w_lim x) \<and> l_config_version (w_lim y) = n \<and>
       l_on_heartbeat_failure (w_lim y) = ''warn'' \<and> l_jitter_enabled (w_lim y) \<and> l_drain_enabled (w_lim y) \<and>
       \<not> l_metrics_callback (w_lim y) else r = Inl ValueError)"
  show "r = Inl RedisConnectionError"
  proof (rule ccontr)
    assume ne: "r \<noteq> Inl RedisConnectionError"
    obtain g1 p g2 where c: "construct_instance (distributed_init E) i (config_fields (build_persist_config (w_lim x))) g1 = (p, g2)"
      and p: "case p of Inl e \<Rightarrow> r = Inl e | Inr y \<Rightarrow> r = Inr (k_set_version (blocking_class E) n y) \<and>
        g_instances h' = (g_instances h)(i \<mapsto> k_set_version (blocking_class E) n y)"
      using managed_registry.get_cases [OF blocking_registry [OF assms(1,2)] assms(3-6) _ assms(8,10)] assms(7) ne by auto
    have a: "constructor_args i (config_fields (build_persist_config (w_lim x))) = Some (persisted_args i (w_lim x))"
      using assms(5) by (simp add: fields_args exact_window_def)
    let ?m = "mixin_init (persisted_args i (w_lim x)) (e_uuid E (g_uuids g1))"
    note laws = construct_laws [OF inits_distributed [OF assms(2)] c, unfolded a option.case]
    have m: "?m = Inl ValueError \<and> \<not> valid_config (x\<lparr>w_lim := (w_lim x)\<lparr>l_id := i\<rparr>\<rparr>) \<or>
        (\<exists>k. ?m = Inr k) \<and> valid_config (x\<lparr>w_lim := (w_lim x)\<lparr>l_id := i\<rparr>\<rparr>)"
      using assms(9) by (auto simp: mixin_init_def base_init_def persisted_args_def default_args_def valid_config_def config_ok_def)
    show False
    proof (cases ?m)
      case (Inl e)
      then show False using m laws p no by auto
    next
      case (Inr k)
      then have "p = Inl RedisConnectionError \<or> (\<exists>w. p = Inr w \<and> w_lim w = k)" using laws by simp
      then show False using m p no ne Inr persisted_limiter [OF Inr] by auto
    qed
  qed
qed

text \<open>C27. Creating a limiter shares its configuration: after \<^verbatim>\<open>create\<close> with \<^verbatim>\<open>persist=True\<close> in one process, \<^verbatim>\<open>get\<close> in
  another process that has no instance of that id yet builds an instance with the same id, the same persisted
  configuration and the same version, and caches it, unless the connection fails. The arguments that are not persisted (failure action,
  jitter, metrics, draining) have their defaults there, whatever \<^verbatim>\<open>create\<close> was given.\<close>

theorem create_get_roundtrip:
  assumes "redis_server R look el" "redis_client R decode (e_client E) srv loaded (e_files E) source sha1"
    and "shared_ok (look (srv (g_conn g)))"
    and "managed_create (blocking_class E) (e_client E) i True override config g = (Inr x, g')" "exact_window x"
    and "srv (g_conn h) = srv (g_conn g')" "g_configured h" "g_backend h" "g_instances h i = None"
    and "managed_get (blocking_class E) (e_client E) i h = (r, h')"
  shows "r = Inl RedisConnectionError \<or>
    (\<exists>y. r = Inr y \<and> g_instances h' = (g_instances h)(i \<mapsto> y) \<and> l_id (w_lim y) = i \<and>
       build_persist_config (w_lim y) = build_persist_config (w_lim x) \<and> l_config_version (w_lim y) = l_config_version (w_lim x) \<and>
       l_on_heartbeat_failure (w_lim y) = ''warn'' \<and> l_jitter_enabled (w_lim y) \<and> l_drain_enabled (w_lim y) \<and>
       \<not> l_metrics_callback (w_lim y))"
proof -
  note out = managed_registry.create_outcome [OF blocking_registry [OF assms(1,2)] assms(3,4)]
  obtain x0 g1 v where c: "construct_instance (distributed_init E) i config g = (Inr x0, g1)"
    and x: "x = x0\<lparr>w_lim := (w_lim x0)\<lparr>l_config_version := v\<rparr>\<rparr>" using out by auto
  have "config_ok (w_lim x0) \<and> l_id (w_lim x0) = i"
    using construct_laws [OF inits_distributed [OF assms(2)] c]
    by (auto dest: mixin_init_ok mixin_init_id simp: constructor_args_def split: option.splits sum.splits if_splits)
  then have i: "i \<noteq> []" and v: "valid_config (x\<lparr>w_lim := (w_lim x)\<lparr>l_id := i\<rparr>\<rparr>)" by (auto simp: x valid_config_def config_ok_def)
  have pub: "shared_ok (look (srv (g_conn h)))"
    "published (blocking_class E) (look (srv (g_conn h))) i x (l_config_version (w_lim x))"
    using out unfolding assms(6) blocking_fields by blast+
  show ?thesis using get_published [OF assms(1,2) pub assms(5,7,8,9) i assms(10)] v by simp
qed

theorem create_get_roundtrip_witness:
  "\<exists>x g' y h'. managed_create (blocking_class demo_env) (e_client demo_env) ''lim'' True False demo_config demo_registry = (Inr x, g') \<and>
     managed_get (blocking_class demo_env) (e_client demo_env) ''lim'' (demo_registry\<lparr>g_conn := g_conn g'\<rparr>) = (Inr y, h') \<and>
     l_limit (w_lim y) = 2 \<and> l_config_version (w_lim y) = 1 \<and> l_on_heartbeat_failure (w_lim y) = ''warn''"
proof -
  obtain x c where x: "managed_create (blocking_class demo_env) (e_client demo_env) ''lim'' True False demo_config demo_registry =
      (Inr x, demo_registry\<lparr>g_conn := c, g_uuids := 1, g_instances := [''lim'' \<mapsto> x]\<rparr>)"
    and l: "w_lim x = demo_limiter\<lparr>l_worker_id := e_uuid demo_env 0, l_config_version := 1\<rparr>" "cn_links c = []"
    using demo_created by blast
  let ?h = "demo_registry\<lparr>g_conn := c\<rparr>"
  have h: "g_configured ?h" "g_backend ?h" "g_instances ?h ''lim'' = None" "exact_window x" "config_ok ((w_lim x)\<lparr>l_id := ''lim''\<rparr>)"
    using l by (simp_all add: demo_registry_def exact_window_def config_ok_def is_integral_def)
  have p: "published (blocking_class demo_env) (ks (cn_mem c)) ''lim'' x 1"
    using mem_registry.create_outcome [OF demo_shared_ok x] l by simp
  obtain y h' where y: "managed_get (blocking_class demo_env) (e_client demo_env) ''lim'' ?h = (Inr y, h')"
    using get_up [of ?h "''lim''" x 1] p h l by auto
  have "build_persist_config (w_lim y) = build_persist_config (w_lim x) \<and> l_config_version (w_lim y) = 1 \<and> l_on_heartbeat_failure (w_lim y) = ''warn''"
    using create_get_roundtrip [OF mem.redis_server_axioms demo_env_client demo_shared_ok x h(4), of ?h "Inr y" h'] y h l by simp
  then show ?thesis using x y l by (auto simp: build_persist_config_def base_build_persist_config_def no_overrides_def)
qed

section \<open>Updates\<close>

lemma refresh_published:
  assumes "published (blocking_class E) kv i x n" "exact_window x" "l_id (w_lim y) = i" "l_config_version (w_lim y) < n"
  shows "refresh_spec (blocking_class E) time y kv =
    Inr (y\<lparr>w_lim := (apply_config_overrides time (build_persist_config (w_lim x)) (w_lim y))\<lparr>l_config_version := n\<rparr>\<rparr>, True)"
proof -
  have "parse_raw_config (HText (json_dumps (JObj (config_fields (build_persist_config (w_lim x)))))) = Inr (config_fields (build_persist_config (w_lim x)))"
    by (rule parse_own_config) (simp add: persist_fields repr_token)
  then show ?thesis using assms published_version [OF assms(1)]
    by (simp add: refresh_spec_def published_def blocking_class_def distributed_class_def fields_overrides exact_window_def del: json_dumps.simps)
qed

text \<open>C28. Updates reach the other processes. After \<^verbatim>\<open>update\<close> in one process, the next \<^verbatim>\<open>refresh_config\<close> of an instance in another process
  that has not seen a later version returns \<^verbatim>\<open>True\<close> and leaves it with the updated configuration and version; if the window
  changed, it pauses draining for the longer of the two windows. As long as nothing else is persisted, further refreshes return \<^verbatim>\<open>False\<close> and change
  nothing. The only other outcome is a connection error. The update itself takes effect on the updating instance at once.\<close>

theorem update_propagates:
  assumes "redis_server R look el" "redis_client R decode (e_client E) srv loaded (e_files E) source sha1"
    and "shared_ok (look (srv (g_conn g)))" "g_instances g i = Some x" "l_id (w_lim x) = i"
    and "managed_update (blocking_class E) (e_client E) i ov g = (Inr x', g')" "exact_window x'"
    and "l_id (w_lim y) = i" "l_config_version (w_lim y) \<le> current_version (look (srv (g_conn g))) i"
    and "srv c = srv (g_conn g')" "refresh_config (blocking_class E) (e_client E) time y c = (r, c')"
  shows "g_instances g' i = Some x' \<and> (r = Inl RedisConnectionError \<or>
    (\<exists>y'. r = Inr (y', True) \<and> build_persist_config (w_lim y') = build_persist_config (w_lim x') \<and>
       l_config_version (w_lim y') = l_config_version (w_lim x') \<and>
       (l_window (w_lim y) \<noteq> l_window (w_lim x') \<longrightarrow>
          l_drain_paused_until (w_lim y') = time + max (l_window (w_lim y)) (l_window (w_lim x'))) \<and>
       (\<forall>time' d r' d'. srv d = srv c \<longrightarrow> refresh_config (blocking_class E) (e_client E) time' y' d = (r', d') \<longrightarrow>
          r' = Inl RedisConnectionError \<or> r' = Inr (y', False))))"
proof -
  let ?K = "blocking_class E" and ?v = "l_config_version (w_lim x')"
  note reg = blocking_registry [OF assms(1,2)] and sh = shared_registry.intro [OF assms(1,2)]
  note up = managed_registry.update_outcome [OF reg assms(3,4) _ assms(6), unfolded blocking_fields, OF assms(5)]
  have ok: "shared_ok (look (srv c))" and pub: "published ?K (look (srv c)) i x' ?v" and v: "l_config_version (w_lim y) < ?v"
    using up assms(9) unfolding assms(10) by auto
  let ?y = "y\<lparr>w_lim := (apply_config_overrides time (build_persist_config (w_lim x')) (w_lim y))\<lparr>l_config_version := ?v\<rparr>\<rparr>"
  have spec: "refresh_spec ?K time y (look (srv c)) = Inr (?y, True)"
    by (rule refresh_published [OF pub assms(7,8) v])
  have again: "refresh_spec ?K time' ?y (look (srv c)) = Inr (?y, False)" for time'
    using published_version [OF pub] assms(8) by (simp add: refresh_spec_def apply_keeps_id)
  have "l_window (w_lim y) \<noteq> l_window (w_lim x') \<longrightarrow> l_drain_paused_until (w_lim ?y) = time + max (l_window (w_lim y)) (l_window (w_lim x'))"
    by (simp add: apply_config_overrides_def base_apply_config_overrides_def build_persist_config_def base_build_persist_config_def
        no_overrides_def Let_def)
  moreover have "\<forall>time' d r' d'. srv d = srv c \<longrightarrow> refresh_config ?K (e_client E) time' ?y d = (r', d') \<longrightarrow>
      r' = Inl RedisConnectionError \<or> r' = Inr (?y, False)"
    using shared_registry.refresh_outcome [OF sh] ok again by metis
  moreover have "r = Inl RedisConnectionError \<or> r = Inr (?y, True)"
    using shared_registry.refresh_outcome [OF sh ok assms(11)] spec by simp
  ultimately show ?thesis using up by (auto simp: apply_own)
qed

text \<open>The same operations on a connection that stays up.\<close>

lemma persist_up:
  assumes "cn_links c = []"
  shows "\<exists>x' c'. persist_config K (mem_client d) x c = (Inr x', c') \<and> cn_links c' = []"
  using assms by (simp add: persist_config_def py_simps client_up del: json_dumps.simps)

lemma refresh_up:
  assumes "cn_links c = []" "shared_ok (ks (cn_mem c))"
  shows "refresh_config K (mem_client d) time x c = (refresh_spec K time x (ks (cn_mem c)), c)"
  using assms
  by (cases rule: version_cases [OF assms(2), of "k_id K x"])
    (auto simp: refresh_config_def py_simps client_up refresh_spec_def version_at_def [symmetric] config_at_def [symmetric]
      split: option.splits sum.splits if_splits)

lemma update_up:
  assumes "cn_links (g_conn g) = []" "g_instances g i = Some x" "k_apply K (g_time g) ov x = Inr x1"
  shows "\<exists>x' g'. managed_update K (mem_client d) i ov g = (Inr x', g') \<and> cn_links (g_conn g') = [] \<and> g_time g' = g_time g"
proof -
  obtain x' c' where "persist_config K (mem_client d) x1 (g_conn g) = (Inr x', c')" "cn_links c' = []"
    using persist_up [OF assms(1), of K d x1] by blast
  then show ?thesis using assms by (simp add: managed_update_def managed_get_def py_simps store_def on_registry_def)
qed

lemma demo_override:
  "field_overrides [(''limit'', JInt 5)] = Inr (no_overrides\<lparr>o_limit := Some 5\<rparr>)"
  "field_overrides [(''max_concurrency'', JInt 0)] = Inr (no_overrides\<lparr>o_max_concurrency := Some 0\<rparr>)"
  by (simp_all add: field_overrides_def field_def stored_def jget_def jint_def jnum_def no_overrides_def)

lemma demo_updated:
  assumes "field_overrides fs = Inr ov" "o_window ov = None"
  shows "\<exists>x g x' g'. g_instances g ''lim'' = Some x \<and> w_lim x = demo_limiter\<lparr>l_worker_id := e_uuid demo_env 0, l_config_version := 1\<rparr> \<and>
    shared_ok (ks (cn_mem (g_conn g))) \<and> current_version (ks (cn_mem (g_conn g))) ''lim'' = 1 \<and>
    managed_update (blocking_class demo_env) (e_client demo_env) ''lim'' fs g = (Inr x', g') \<and> cn_links (g_conn g') = [] \<and>
    build_persist_config (w_lim x') = build_persist_config (apply_config_overrides (g_time g) ov (w_lim x)) \<and> l_config_version (w_lim x') = 2 \<and> exact_window x'"
proof -
  obtain x c where x: "managed_create (blocking_class demo_env) (e_client demo_env) ''lim'' True False demo_config demo_registry =
      (Inr x, demo_registry\<lparr>g_conn := c, g_uuids := 1, g_instances := [''lim'' \<mapsto> x]\<rparr>)"
    and l: "w_lim x = demo_limiter\<lparr>l_worker_id := e_uuid demo_env 0, l_config_version := 1\<rparr>" "cn_links c = []"
    using demo_created by blast
  note cr = mem_registry.create_outcome [OF demo_shared_ok x]
  let ?g = "demo_registry\<lparr>g_conn := c, g_uuids := 1, g_instances := [''lim'' \<mapsto> x]\<rparr>"
  have ok: "shared_ok (ks (cn_mem (g_conn ?g)))" "current_version (ks (cn_mem (g_conn ?g))) ''lim'' = 1"
    using cr published_version l by auto
  have a: "k_apply (blocking_class demo_env) (g_time ?g) fs x = Inr (x\<lparr>w_lim := apply_config_overrides (g_time ?g) ov (w_lim x)\<rparr>)"
    using assms by (simp add: blocking_class_def distributed_class_def)
  obtain x' g' where u: "managed_update (blocking_class demo_env) (e_client demo_env) ''lim'' fs ?g = (Inr x', g')" "cn_links (g_conn g') = []"
    using update_up [of ?g "''lim''" x "blocking_class demo_env" fs _ json_task, OF _ _ a] l(2) by auto
  have i: "l_id (w_lim x) = ''lim''" using l by simp
  note up = mem_registry.update_outcome [OF ok(1) _ _ u(1), unfolded blocking_fields, OF _ i]
  have "w_lim x' = (apply_config_overrides (g_time ?g) ov (w_lim x))\<lparr>l_config_version := 2\<rparr>"
    using up a ok(2) by auto
  moreover have "exact_window x'"
    using calculation l assms(2) by (simp add: exact_window_def apply_config_overrides_def base_apply_config_overrides_def Let_def
        is_integral_def split: option.split)
  ultimately show ?thesis using x l ok u by (intro exI [of _ x] exI [of _ ?g] exI [of _ x'] exI [of _ g']) simp
qed

lemma persist_limit:
  "build_persist_config (apply_config_overrides t (no_overrides\<lparr>o_limit := Some 5\<rparr>) l) = (build_persist_config l)\<lparr>o_limit := Some 5\<rparr>"
  by (simp add: apply_config_overrides_def base_apply_config_overrides_def build_persist_config_def base_build_persist_config_def
      no_overrides_def Let_def)

theorem update_propagates_witness:
  "\<exists>g x' g' y' c. managed_update (blocking_class demo_env) (e_client demo_env) ''lim'' [(''limit'', JInt 5)] g = (Inr x', g') \<and>
     refresh_config (blocking_class demo_env) (e_client demo_env) 0 (the (g_instances g ''lim'')) (g_conn g') = (Inr (y', True), c) \<and>
     l_limit (w_lim (the (g_instances g ''lim''))) = 2 \<and> l_limit (w_lim y') = 5 \<and> l_config_version (w_lim y') = 2"
proof -
  obtain x g x' g' where d: "g_instances g ''lim'' = Some x" "w_lim x = demo_limiter\<lparr>l_worker_id := e_uuid demo_env 0, l_config_version := 1\<rparr>"
    "shared_ok (ks (cn_mem (g_conn g)))" "current_version (ks (cn_mem (g_conn g))) ''lim'' = 1"
    "managed_update (blocking_class demo_env) (e_client demo_env) ''lim'' [(''limit'', JInt 5)] g = (Inr x', g')" "cn_links (g_conn g') = []"
    "build_persist_config (w_lim x') = build_persist_config (apply_config_overrides (g_time g) (no_overrides\<lparr>o_limit := Some 5\<rparr>) (w_lim x))"
    "l_config_version (w_lim x') = 2" "exact_window x'"
    using demo_updated [OF demo_override(1)] by (auto simp: no_overrides_def)
  obtain r c where r: "refresh_config (blocking_class demo_env) (e_client demo_env) 0 x (g_conn g') = (r, c)" by force
  have i: "l_id (w_lim x) = ''lim''" using d(2) by simp
  note up = mem_registry.update_outcome [OF d(3,1) _ d(5), unfolded blocking_fields, OF i]
  have v: "l_config_version (w_lim x) < l_config_version (w_lim x')" using d by simp
  have "r \<noteq> Inl RedisConnectionError"
    using r refresh_up [OF d(6), of "blocking_class demo_env" json_task 0 x] refresh_published [OF _ d(9) i v] up by auto
  then obtain y' where y: "r = Inr (y', True)" "build_persist_config (w_lim y') = build_persist_config (w_lim x')"
      "l_config_version (w_lim y') = 2"
    using update_propagates [OF mem.redis_server_axioms demo_env_client d(3,1) i d(5,9) i _ refl r] d(2,4,8) by auto
  have "o_limit (build_persist_config (w_lim y')) = Some 5" using y(2) d(7) by (simp add: persist_limit)
  then have "l_limit (w_lim y') = 5" by (simp add: build_persist_config_def base_build_persist_config_def no_overrides_def)
  then show ?thesis using d(1,2,5) r y
    by (intro exI [of _ g] exI [of _ x'] exI [of _ g'] exI [of _ y'] exI [of _ c]) simp
qed

text \<open>C29. Overrides are not validated. Whatever \<^verbatim>\<open>update\<close> was given, a process that looks the limiter up afterwards either gets an instance with
  the updated configuration, when the constructor admits it, or \<^verbatim>\<open>ValueError\<close>: an update to, say, a concurrency of zero
  succeeds, and from then on every new process fails to get the limiter.\<close>

theorem update_unvalidated:
  assumes "redis_server R look el" "redis_client R decode (e_client E) srv loaded (e_files E) source sha1"
    and "shared_ok (look (srv (g_conn g)))" "g_instances g i = Some x" "l_id (w_lim x) = i" "i \<noteq> []"
    and "managed_update (blocking_class E) (e_client E) i ov g = (Inr x', g')" "exact_window x'"
    and "srv (g_conn h) = srv (g_conn g')" "g_configured h" "g_backend h" "g_instances h i = None"
    and "managed_get (blocking_class E) (e_client E) i h = (r, h')"
  shows "r = Inl RedisConnectionError \<or>
    (if config_ok (w_lim x')
     then \<exists>y. r = Inr y \<and> build_persist_config (w_lim y) = build_persist_config (w_lim x') \<and>
       l_config_version (w_lim y) = l_config_version (w_lim x')
     else r = Inl ValueError)"
proof -
  note reg = blocking_registry [OF assms(1,2)]
  note up = managed_registry.update_outcome [OF reg assms(3,4) _ assms(7), unfolded blocking_fields, OF assms(5)]
  have ok: "shared_ok (look (srv (g_conn h)))"
    and pub: "published (blocking_class E) (look (srv (g_conn h))) i x' (l_config_version (w_lim x'))"
    using up unfolding assms(9) by auto
  have "(w_lim x')\<lparr>l_id := i\<rparr> = w_lim x'" using up by auto
  then show ?thesis using get_published [OF assms(1,2) ok pub assms(8,10,11,12,6,13)] by (auto simp: valid_config_def)
qed

lemma persist_concurrency:
  "build_persist_config (apply_config_overrides t (no_overrides\<lparr>o_max_concurrency := Some 0\<rparr>) l) = (build_persist_config l)\<lparr>o_max_concurrency := Some 0\<rparr>"
  by (simp add: apply_config_overrides_def base_apply_config_overrides_def build_persist_config_def base_build_persist_config_def
      no_overrides_def Let_def)

lemma get_invalid_up:
  assumes "cn_links (g_conn g) = []" "published (blocking_class demo_env) (ks (cn_mem (g_conn g))) i x n" "exact_window x"
    and "l_max_concurrency (w_lim x) < 1" "g_configured g" "g_backend g" "g_instances g i = None"
  shows "fst (managed_get (blocking_class demo_env) (mem_client json_task) i g) = Inl ValueError"
proof -
  let ?fs = "config_fields (build_persist_config (w_lim x))"
  have k: "hash_of (ks (cn_mem (g_conn g)) registry_key) i = Some (HText (json_dumps (JObj ?fs)))"
    using assms(2) by (simp_all add: published_def config_at_def del: json_dumps.simps)
  have fs: "parse_raw_config (HText (json_dumps (JObj ?fs))) = Inr ?fs"
    by (rule parse_own_config) (simp add: persist_fields repr_token)
  have a: "constructor_args i ?fs = Some (persisted_args i (w_lim x))" using assms(3) by (simp add: fields_args exact_window_def)
  have "fst (construct_instance (distributed_init demo_env) i ?fs g') = Inl ValueError" for g'
    using assms(4) by (simp add: a construct_instance_def py_simps on_instance_def distributed_init_def next_uuid_def mixin_init_def
        persisted_args_def default_args_def split: prod.split)
  then obtain g2 where "construct_instance (distributed_init demo_env) i ?fs (g\<lparr>g_conn := g_conn g\<rparr>) = (Inl ValueError, g2)"
    by (metis prod.collapse)
  then show ?thesis using assms fs k
    by (simp add: managed_get_def adopt_version_def require_configured_def py_simps on_registry_def managed_init_def require_internal_construction_def
        client_up store_def del: json_dumps.simps)
qed

theorem update_unvalidated_witness:
  "\<exists>g x' g'. managed_update (blocking_class demo_env) (e_client demo_env) ''lim'' [(''max_concurrency'', JInt 0)] g = (Inr x', g') \<and>
     fst (managed_get (blocking_class demo_env) (e_client demo_env) ''lim'' (demo_registry\<lparr>g_conn := g_conn g'\<rparr>)) = Inl ValueError"
proof -
  obtain x g x' g' where d: "g_instances g ''lim'' = Some x" "w_lim x = demo_limiter\<lparr>l_worker_id := e_uuid demo_env 0, l_config_version := 1\<rparr>"
    "shared_ok (ks (cn_mem (g_conn g)))"
    "managed_update (blocking_class demo_env) (e_client demo_env) ''lim'' [(''max_concurrency'', JInt 0)] g = (Inr x', g')" "cn_links (g_conn g') = []"
    "build_persist_config (w_lim x') = build_persist_config (apply_config_overrides (g_time g) (no_overrides\<lparr>o_max_concurrency := Some 0\<rparr>) (w_lim x))"
    "exact_window x'"
    using demo_updated [OF demo_override(2)] by (auto simp: no_overrides_def)
  let ?h = "demo_registry\<lparr>g_conn := g_conn g'\<rparr>"
  have i: "l_id (w_lim x) = ''lim''" using d(2) by simp
  have "o_max_concurrency (build_persist_config (w_lim x')) = Some 0" using d(6) by (simp add: persist_concurrency)
  then have m: "l_max_concurrency (w_lim x') = 0" by (simp add: build_persist_config_def)
  obtain r h' where r: "managed_get (blocking_class demo_env) (e_client demo_env) ''lim'' ?h = (r, h')" by force
  have h: "g_configured ?h" "g_backend ?h" "g_instances ?h ''lim'' = None" by (simp_all add: demo_registry_def)
  note up = mem_registry.update_outcome [OF d(3,1) _ d(4), unfolded blocking_fields, OF i]
  have "r \<noteq> Inl RedisConnectionError"
    using get_invalid_up [of ?h "''lim''" x'] up d(5,7) m h r by auto
  then have "r = Inl ValueError"
    using update_unvalidated [OF mem.redis_server_axioms demo_env_client d(3,1) i _ d(4,7) _ h r] m by (auto simp: config_ok_def)
  then show ?thesis using d(4) r by (intro exI [of _ g] exI [of _ x'] exI [of _ g']) simp
qed

section \<open>Races\<close>

text \<open>C30. Persisting is not atomic. \<^verbatim>\<open>_persist_config\<close> stores the configuration and counts the version in two commands. If a second
  process persists between the two commands of a first, the hashes hold the configuration of the second under the version that the
  first ends up with. The first instance then keeps its own configuration: its \<^verbatim>\<open>refresh_config\<close> sees no newer version and returns \<^verbatim>\<open>False\<close>,
  so the two instances differ until the next update.\<close>

theorem persist_race:
  assumes "redis_server R look el" "redis_client R decode (e_client E) srv loaded (e_files E) source sha1"
    and "shared_ok (look (srv c))" "l_id (w_lim a) = i" "l_id (w_lim b) = i"
  defines "K \<equiv> blocking_class E" and "text \<equiv> \<lambda>x. json_dumps (JObj (k_persist (blocking_class E) x))"
  assumes "c_hset (e_client E) registry_key i (HText (text a)) c = (Inr (), c1)"
    and "persist_config K (e_client E) b c1 = (Inr b', c2)"
    and "c_hincrby (e_client E) version_key i c2 = (Inr v, c3)"
    and "refresh_config K (e_client E) time (k_set_version K v a) c3 = (r, c4)"
  shows "persist_config K (e_client E) a c = (case c_hincrby (e_client E) version_key i c1 of
        (Inl e, d) \<Rightarrow> (Inl e, d) | (Inr n, d) \<Rightarrow> (Inr (k_set_version K n a), d)) \<and>
    config_at (look (srv c3)) i = Some (HText (text b)) \<and> v = k_version K b' + 1 \<and> current_version (look (srv c3)) i = v \<and>
    (r = Inl RedisConnectionError \<or> r = Inr (k_set_version K v a, False))"
proof -
  note sh = shared_registry.intro [OF assms(1,2)]
  have k1: "look (srv c1) = stored_ks i (text a) (look (srv c))"
    using shared_registry.store_command [OF sh assms(3,8)] by simp
  then have ok1: "shared_ok (look (srv c1))" using assms(3) by simp
  have i: "k_id K a = i" "k_id K b = i" using assms(4,5) by (simp_all add: K_def)
  have k2: "look (srv c2) = bumped_ks i (stored_ks i (text b) (look (srv c1)))"
    "b' = k_set_version K (current_version (look (srv c1)) i + 1) b"
    using shared_registry.persist_outcome [OF sh ok1 assms(9)] unfolding i by (simp_all add: text_def K_def del: json_dumps.simps)
  then have ok2: "shared_ok (look (srv c2))" using ok1 by simp
  have k3: "v = current_version (look (srv c2)) i + 1" "look (srv c3) = bumped_ks i (look (srv c2))"
    using shared_registry.bump_command [OF sh ok2 assms(10)] by simp_all
  then have ok3: "shared_ok (look (srv c3))" using ok2 by simp
  have "refresh_spec K time (k_set_version K v a) (look (srv c3)) = Inr (k_set_version K v a, False)"
    using k3 assms(4) by (simp add: refresh_spec_def K_def)
  moreover have "persist_config K (e_client E) a c = (case c_hincrby (e_client E) version_key i c1 of
        (Inl e, d) \<Rightarrow> (Inl e, d) | (Inr n, d) \<Rightarrow> (Inr (k_set_version K n a), d))"
    using assms(8) i unfolding K_def text_def by (simp add: persist_config_def py_simps del: json_dumps.simps blocking_fields)
  ultimately show ?thesis using shared_registry.refresh_outcome [OF sh ok3 assms(11)] k2 k3 by (simp add: K_def)
qed

theorem persist_race_witness:
  "\<exists>a b c c1 b' c2 v c3 r c4. l_limit (w_lim a) = 2 \<and> l_limit (w_lim b) = 7 \<and>
     c_hset (e_client demo_env) registry_key ''lim'' (HText (json_dumps (JObj (k_persist (blocking_class demo_env) a)))) c = (Inr (), c1) \<and>
     persist_config (blocking_class demo_env) (e_client demo_env) b c1 = (Inr b', c2) \<and>
     c_hincrby (e_client demo_env) version_key ''lim'' c2 = (Inr v, c3) \<and>
     refresh_config (blocking_class demo_env) (e_client demo_env) 0 (k_set_version (blocking_class demo_env) v a) c3 = (r, c4) \<and>
     r = Inr (k_set_version (blocking_class demo_env) v a, False) \<and>
     config_at (ks (cn_mem c3)) ''lim'' = Some (HText (json_dumps (JObj (k_persist (blocking_class demo_env) b))))"
proof -
  let ?K = "blocking_class demo_env" and ?C = "e_client demo_env"
  let ?a = "demo_world [] (mem_start 1700000000)"
  let ?b = "?a\<lparr>w_lim := demo_limiter\<lparr>l_limit := 7\<rparr>\<rparr>" and ?c = "\<lparr>cn_mem = mem_start 1700000000, cn_loaded = [], cn_links = []\<rparr>"
  obtain c1 where c1: "c_hset ?C registry_key ''lim'' (HText (json_dumps (JObj (k_persist ?K ?a)))) ?c = (Inr (), c1)" "cn_links c1 = []"
    by (simp add: client_up del: json_dumps.simps)
  obtain b' c2 where c2: "persist_config ?K ?C ?b c1 = (Inr b', c2)" "cn_links c2 = []"
    using persist_up [OF c1(2), of ?K json_task ?b] by auto
  obtain v c3 where c3: "c_hincrby ?C version_key ''lim'' c2 = (Inr v, c3)" "cn_links c3 = []"
    using c2(2) by (simp add: client_up)
  obtain r c4 where r: "refresh_config ?K ?C 0 (k_set_version ?K v ?a) c3 = (r, c4)" by force
  have ok: "shared_ok (ks (cn_mem ?c))" by (simp add: shared_ok_def version_at_def mem_start_def)
  have i: "l_id (w_lim ?a) = ''lim''" "l_id (w_lim ?b) = ''lim''" by simp_all
  note race = persist_race [OF mem.redis_server_axioms demo_env_client ok i c1(1) c2(1) c3(1) r]
  have ok1: "shared_ok (ks (cn_mem c1))" using mem_registry.store_command [OF ok c1(1)] ok by auto
  have ok2: "shared_ok (ks (cn_mem c2))" using mem_registry.persist_outcome [OF ok1 c2(1)] ok1 by auto
  have ok3: "shared_ok (ks (cn_mem c3))" using mem_registry.bump_command [OF ok2 c3(1)] ok2 by auto
  have "r = refresh_spec ?K 0 (k_set_version ?K v ?a) (ks (cn_mem c3))"
    using r refresh_up [OF c3(2) ok3, of ?K json_task 0 "k_set_version ?K v ?a"] unfolding demo_env_fields by (metis fst_conv)
  moreover have "refresh_spec ?K 0 (k_set_version ?K v ?a) (ks (cn_mem c3)) \<noteq> Inl RedisConnectionError"
    using race by (simp add: refresh_spec_def)
  ultimately have rr: "r = Inr (k_set_version ?K v ?a, False)" using race by blast
  have lim: "l_limit (w_lim ?a) = 2" "l_limit (w_lim ?b) = 7" by simp_all
  show ?thesis by (intro exI conjI) (rule lim c1(1) c2(1) c3(1) r rr race [THEN conjunct2, THEN conjunct1])+
qed

text \<open>C31. Looking up is not atomic either. \<^verbatim>\<open>get\<close> reads the configuration, builds the instance, and then reads the version. If another
  process persists an update between the two reads, the new instance has the configuration from before the update under the version of
  the update: its \<^verbatim>\<open>refresh_config\<close> returns \<^verbatim>\<open>False\<close>, so it goes on with the outdated limits until the next update.\<close>

theorem get_race:
  assumes "redis_server R look el" "redis_client R decode (e_client E) srv loaded (e_files E) source sha1"
    and "shared_ok (look (srv (g_conn g)))" "g_configured g" "g_backend g" "g_instances g i = None"
    and "l_id (w_lim a) = i" "exact_window a" "valid_config a" "l_id (w_lim b) = i"
  defines "K \<equiv> blocking_class E" and "text \<equiv> \<lambda>x. json_dumps (JObj (k_persist (blocking_class E) x))"
  assumes "c_hget (e_client E) registry_key i (g_conn g) = (Inr (Some (HText (text a))), c1)"
    and "k_construct K i (k_persist K a) (g\<lparr>g_conn := c1\<rparr>) = (Inr x, g1)"
    and "persist_config K (e_client E) b (g_conn g1) = (Inr b', c2)"
    and "adopt_version K (e_client E) i x (g1\<lparr>g_conn := c2\<rparr>) = (Inr y, g2)"
    and "refresh_config K (e_client E) time y (g_conn g2) = (r, c3)"
  shows "managed_get K (e_client E) i g = adopt_version K (e_client E) i x g1 \<and>
    config_at (look (srv (g_conn g2))) i = Some (HText (text b)) \<and> g_instances g2 i = Some y \<and>
    k_id K y = i \<and> k_persist K y = k_persist K a \<and> k_version K y = k_version K b' \<and>
    (r = Inl RedisConnectionError \<or> r = Inr (y, False))"
proof -
  note reg = blocking_registry [OF assms(1,2), folded K_def]
  note lim = managed_registry.axioms(2) [OF reg] and sh = shared_registry.intro [OF assms(1,2)]
  have i: "k_id K a = i" "k_id K b = i" using assms(7,10) by (simp_all add: K_def)
  have c1: "srv c1 = srv (g_conn g)" using shared_registry.read_command [OF sh _ assms(13)] assms(3) by (simp add: shared_ok_def)
  note cs = managed_limiter.construct [OF lim assms(14)]
  have x: "k_persist K x = k_persist K a" "k_id K x = i"
    using managed_limiter.construct_persist [OF lim assms(8,9)] assms(14) cs i by auto
  have ok1: "shared_ok (look (srv (g_conn g1)))" using cs c1 assms(3) by simp
  let ?kv = "look (srv (g_conn g1))"
  have p: "look (srv c2) = bumped_ks i (stored_ks i (text b) ?kv)" "b' = k_set_version K (current_version ?kv i + 1) b"
    using shared_registry.persist_outcome [OF sh ok1 assms(15)] unfolding i by (simp_all add: text_def K_def del: json_dumps.simps)
  have ok2: "shared_ok (look (srv (g_conn (g1\<lparr>g_conn := c2\<rparr>))))" using p ok1 by simp
  have y: "srv (g_conn g2) = srv c2" "y = k_set_version K (current_version ?kv i + 1) x" "g_instances g2 i = Some y"
    using managed_registry.adopt_outcome [OF reg ok2 assms(16)] p by simp_all
  have "refresh_spec K time y (look (srv (g_conn g2))) = Inr (y, False)"
    using y p x by (simp add: refresh_spec_def K_def)
  then have "r = Inl RedisConnectionError \<or> r = Inr (y, False)"
    using shared_registry.refresh_outcome [OF sh _ assms(17)] ok2 y(1) by simp
  moreover have "parse_raw_config (HText (text a)) = Inr (k_persist K a)"
    unfolding text_def K_def by (rule parse_own_config [OF managed_limiter.persist_json [OF lim [unfolded K_def] assms(8)]])
  then have "managed_get K (e_client E) i g = adopt_version K (e_client E) i x g1"
    using assms(4-6,13,14) by (simp add: managed_get_def require_configured_def py_simps on_registry_def managed_init_def
        require_internal_construction_def K_def)
  ultimately show ?thesis using y p x by (simp add: K_def)
qed

lemma adopt_up:
  assumes "cn_links (g_conn g) = []" "shared_ok (ks (cn_mem (g_conn g)))"
  shows "\<exists>y g'. adopt_version K (mem_client d) i x g = (Inr y, g') \<and> cn_links (g_conn g') = [] \<and> cn_mem (g_conn g') = cn_mem (g_conn g)"
  using assms(1) by (cases rule: version_cases [OF assms(2), of i])
    (simp_all add: adopt_version_def py_simps on_registry_def store_def client_up version_at_def)

text \<open>A lookup halfway: a limiter has been created, and another process has read its configuration and built the instance.\<close>

lemma demo_halfway:
  obtains a c x g1 where "w_lim a = demo_limiter\<lparr>l_worker_id := e_uuid demo_env 0, l_config_version := 1\<rparr>"
    "shared_ok (ks (cn_mem c))" "exact_window a" "valid_config a"
    "c_hget (e_client demo_env) registry_key ''lim'' c = (Inr (Some (HText (json_dumps (JObj (k_persist (blocking_class demo_env) a))))), c)"
    "k_construct (blocking_class demo_env) ''lim'' (k_persist (blocking_class demo_env) a) (demo_registry\<lparr>g_conn := c\<rparr>) = (Inr x, g1)"
    "cn_links (g_conn g1) = []" "cn_mem (g_conn g1) = cn_mem c"
proof -
  let ?K = "blocking_class demo_env" and ?C = "e_client demo_env"
  obtain a c where a: "managed_create ?K ?C ''lim'' True False demo_config demo_registry =
      (Inr a, demo_registry\<lparr>g_conn := c, g_uuids := 1, g_instances := [''lim'' \<mapsto> a]\<rparr>)"
    and l: "w_lim a = demo_limiter\<lparr>l_worker_id := e_uuid demo_env 0, l_config_version := 1\<rparr>" "cn_links c = []"
    using demo_created by blast
  let ?g = "demo_registry\<lparr>g_conn := c\<rparr>"
  have w: "exact_window a" "valid_config a" "config_ok ((w_lim a)\<lparr>l_id := ''lim''\<rparr>)"
    using l by (simp_all add: exact_window_def valid_config_def config_ok_def is_integral_def)
  have pub: "published ?K (ks (cn_mem c)) ''lim'' a 1" "shared_ok (ks (cn_mem c))"
    using mem_registry.create_outcome [OF demo_shared_ok a] l by simp_all
  have c1: "c_hget ?C registry_key ''lim'' c = (Inr (Some (HText (json_dumps (JObj (k_persist ?K a))))), c)"
    using pub(1) l(2) by (simp add: client_up published_def config_at_def del: json_dumps.simps)
  have args: "constructor_args ''lim'' (k_persist ?K a) = Some (persisted_args ''lim'' (w_lim a))"
    using w(1) by (simp add: fields_args exact_window_def)
  obtain m where m: "mixin_init (persisted_args ''lim'' (w_lim a)) (e_uuid demo_env (g_uuids ?g)) = Inr m"
    using w(3) by (simp add: config_ok_def mixin_init_def base_init_def persisted_args_def default_args_def)
  obtain x g1 where "k_construct ?K ''lim'' (k_persist ?K a) ?g = (Inr x, g1)" "cn_links (g_conn g1) = []" "cn_mem (g_conn g1) = cn_mem c"
    using construct_up [of ?g, OF _ args m] l(2) by auto
  then show thesis using that l(1) pub(2) w(1,2) c1 by blast
qed

theorem get_race_witness:
  "\<exists>a b g c1 x g1 b' c2 y g2 r c3. l_limit (w_lim a) = 2 \<and> l_limit (w_lim b) = 7 \<and>
     c_hget (e_client demo_env) registry_key ''lim'' (g_conn g) = (Inr (Some (HText (json_dumps (JObj (k_persist (blocking_class demo_env) a))))), c1) \<and>
     k_construct (blocking_class demo_env) ''lim'' (k_persist (blocking_class demo_env) a) (g\<lparr>g_conn := c1\<rparr>) = (Inr x, g1) \<and>
     persist_config (blocking_class demo_env) (e_client demo_env) b (g_conn g1) = (Inr b', c2) \<and>
     adopt_version (blocking_class demo_env) (e_client demo_env) ''lim'' x (g1\<lparr>g_conn := c2\<rparr>) = (Inr y, g2) \<and>
     refresh_config (blocking_class demo_env) (e_client demo_env) 0 y (g_conn g2) = (r, c3) \<and> r = Inr (y, False) \<and>
     k_persist (blocking_class demo_env) y = k_persist (blocking_class demo_env) a \<and> k_version (blocking_class demo_env) y = k_version (blocking_class demo_env) b'"
proof -
  let ?K = "blocking_class demo_env" and ?C = "e_client demo_env"
  obtain a c x g1 where l: "w_lim a = demo_limiter\<lparr>l_worker_id := e_uuid demo_env 0, l_config_version := 1\<rparr>"
    and ok: "shared_ok (ks (cn_mem c))" and w: "exact_window a" "valid_config a"
    and c1: "c_hget ?C registry_key ''lim'' c = (Inr (Some (HText (json_dumps (JObj (k_persist ?K a))))), c)"
    and x: "k_construct ?K ''lim'' (k_persist ?K a) (demo_registry\<lparr>g_conn := c\<rparr>) = (Inr x, g1)" "cn_links (g_conn g1) = []"
      "cn_mem (g_conn g1) = cn_mem c"
    by (rule demo_halfway)
  let ?g = "demo_registry\<lparr>g_conn := c\<rparr>" and ?b = "a\<lparr>w_lim := (w_lim a)\<lparr>l_limit := 7\<rparr>\<rparr>"
  have h: "c_hget ?C registry_key ''lim'' (g_conn ?g) = (Inr (Some (HText (json_dumps (JObj (k_persist ?K a))))), c)"
    "k_construct ?K ''lim'' (k_persist ?K a) (?g\<lparr>g_conn := c\<rparr>) = (Inr x, g1)" using c1 x(1) by simp_all
  have i: "l_id (w_lim a) = ''lim''" "l_id (w_lim ?b) = ''lim''" "k_id ?K ?b = ''lim''" using l by simp_all
  obtain b' c2 where b: "persist_config ?K ?C ?b (g_conn g1) = (Inr b', c2)" "cn_links c2 = []"
    using persist_up [OF x(2), of ?K json_task ?b] by auto
  have ok2: "shared_ok (ks (cn_mem c2))" and v: "current_version (ks (cn_mem c2)) ''lim'' = k_version ?K b'"
    using mem_registry.persist_outcome [OF _ b(1)] ok x(3) i(3) by auto
  obtain y g2 where y: "adopt_version ?K ?C ''lim'' x (g1\<lparr>g_conn := c2\<rparr>) = (Inr y, g2)" "cn_links (g_conn g2) = []" "cn_mem (g_conn g2) = cn_mem c2"
    using adopt_up [of "g1\<lparr>g_conn := c2\<rparr>" ?K json_task "''lim''" x] b(2) ok2 by auto
  obtain r c3 where r: "refresh_config ?K ?C 0 y (g_conn g2) = (r, c3)" by force
  have g: "shared_ok (ks (cn_mem (g_conn ?g)))" "g_configured ?g" "g_backend ?g" "g_instances ?g ''lim'' = None"
    using ok by (simp_all add: demo_registry_def)
  note race = get_race [OF mem.redis_server_axioms demo_env_client g i(1) w i(2) h b(1) y(1) r]
  have "r = refresh_spec ?K 0 y (ks (cn_mem c2))"
    using r refresh_up [OF y(2), of ?K json_task 0 y] ok2 y(3) unfolding demo_env_fields by (metis fst_conv)
  then have rr: "r = Inr (y, False)" using race v by (simp add: refresh_spec_def)
  have lim: "l_limit (w_lim a) = 2" "l_limit (w_lim ?b) = 7" using l by simp_all
  have same: "k_persist ?K y = k_persist ?K a" "k_version ?K y = k_version ?K b'" using race by blast+
  show ?thesis by (intro exI conjI) (rule lim h b(1) y(1) r rr same)+
qed

section \<open>Errors and the asynchronous classes\<close>

lemma create_free_errors:
  assumes "managed_limiter K srv exact valid" "managed_create K C i persist override config g = (Inl e, g')"
    and ready: "g_configured g" "has_backend_context K g" "override \<or> g_instances g i = None"
  shows "(\<not> g_configured g \<or> \<not> has_backend_context K g) \<and> e = RuntimeError \<and> g' = g
    \<or> g_instances g i \<noteq> None \<and> \<not> override \<and> e = ValueError \<and> g' = g
    \<or> fst (k_construct K i config g) = Inl e \<and> g_instances g' = g_instances g
    \<or> persist \<and> (\<exists>x g1 c. k_construct K i config g = (Inr x, g1) \<and> persist_config K C x (g_conn g1) = (Inl e, c) \<and>
        g_instances g' = (g_instances g)(i \<mapsto> x) \<and> managed_get K C i g' = (Inr x, g') \<and>
        (g_configured g' \<and> has_backend_context K g' \<longrightarrow> managed_create K C i persist False config g' = (Inl ValueError, g')))"
proof -
  obtain p g1 where c: "k_construct K i config g = (p, g1)" by force
  note cs = managed_limiter.construct [OF assms(1) c]
  have run: "managed_create K C i persist override config g = (case p of Inl e \<Rightarrow> (Inl e, g1)
      | Inr x \<Rightarrow> (py_then (store i x) (if persist then py_bind (on_registry (persist_config K C x))
          (\<lambda>x'. py_then (store i x') (py_return x')) else py_return x)) g1)"
    using ready c by (auto simp: managed_create_def require_configured_def managed_init_def require_internal_construction_def
        py_bind_def py_then_def py_get_def py_if_def py_return_def domIff split: sum.split)
  show ?thesis
  proof (cases p)
    case (Inl e')
    then show ?thesis using run assms(2) c cs by auto
  next
    case (Inr x)
    obtain q d where q: "persist_config K C x (g_conn g1) = (q, d)" by force
    have p: "persist" "q = Inl e" "g' = g1\<lparr>g_instances := (g_instances g1)(i \<mapsto> x), g_conn := d\<rparr>"
      using run assms(2) Inr q by (auto simp: py_simps store_def on_registry_def split: if_splits sum.splits)
    have got: "managed_get K C i g' = (Inr x, g')" using p by (simp add: managed_get_def py_simps)
    have again: "managed_create K C i persist False config g' = (Inl ValueError, g')" if "g_configured g'" "has_backend_context K g'"
      using that p by (simp add: managed_create_def require_configured_def py_simps)
    have "g_instances g' = (g_instances g)(i \<mapsto> x)" using p cs by simp
    then show ?thesis using c Inr q p(1,2) got again by blast
  qed
qed

text \<open>C32. Failures of \<^verbatim>\<open>create\<close>. It raises \<^verbatim>\<open>RuntimeError\<close> before \<^verbatim>\<open>configure\<close>, \<^verbatim>\<open>ValueError\<close> for an id that is taken unless it may be
  overridden, and whatever the constructor raises, each time leaving the registered instances as they were. If persisting fails,
  however, the exception leaves \<^verbatim>\<open>create\<close> with the new instance registered: a retry without \<^verbatim>\<open>override\<close> raises \<^verbatim>\<open>ValueError\<close>, and
  \<^verbatim>\<open>get\<close> returns the instance although nothing need have been stored.\<close>

theorem create_errors:
  assumes "managed_limiter K srv exact valid" "managed_create K C i persist override config g = (Inl e, g')"
  shows "(\<not> g_configured g \<or> \<not> has_backend_context K g) \<and> e = RuntimeError \<and> g' = g
    \<or> g_instances g i \<noteq> None \<and> \<not> override \<and> e = ValueError \<and> g' = g
    \<or> fst (k_construct K i config g) = Inl e \<and> g_instances g' = g_instances g
    \<or> persist \<and> (\<exists>x g1 c. k_construct K i config g = (Inr x, g1) \<and> persist_config K C x (g_conn g1) = (Inl e, c) \<and>
        g_instances g' = (g_instances g)(i \<mapsto> x) \<and> managed_get K C i g' = (Inr x, g') \<and>
        (g_configured g' \<and> has_backend_context K g' \<longrightarrow> managed_create K C i persist False config g' = (Inl ValueError, g')))"
proof -
  consider (unready) "\<not> (g_configured g \<and> has_backend_context K g)"
    | (taken) "g_configured g" "has_backend_context K g" "\<not> override" "g_instances g i \<noteq> None"
    | (free) "g_configured g" "has_backend_context K g" "override \<or> g_instances g i = None"
    by blast
  then show ?thesis
  proof cases
    case unready
    then have "managed_create K C i persist override config g = (Inl RuntimeError, g)"
      by (auto simp: managed_create_def require_configured_def py_simps)
    then show ?thesis using unready assms(2) by auto
  next
    case taken
    then have "managed_create K C i persist override config g = (Inl ValueError, g)"
      by (auto simp: managed_create_def require_configured_def py_simps)
    then show ?thesis using taken assms(2) by auto
  next
    case free
    then show ?thesis by (rule create_free_errors [OF assms])
  qed
qed
text \<open>A connection that is lost when the new limiter is persisted: five scripts and a subscription come before it.\<close>

definition demo_cut :: "(conn, conn world) registry" where
  "demo_cut = demo_registry\<lparr>g_conn := (g_conn demo_registry)\<lparr>cn_links := [Up, Up, Up, Up, Up, Up, LostBefore]\<rparr>\<rparr>"

lemma demo_cut_create: "\<exists>g'. managed_create (blocking_class demo_env) (e_client demo_env) ''lim'' True False demo_config demo_cut = (Inl RedisConnectionError, g') \<and>
   g_instances g' ''lim'' \<noteq> None"
  apply (simp add: managed_create_def require_configured_def py_simps managed_init_def require_internal_construction_def
     construct_instance_def demo_config_args on_instance_def blank_world_def with_conn_def distributed_init_def next_uuid_def
     mixin_init_def base_init_def default_args_def demo_cut_def demo_registry_def
      register_all_def limiter_scripts_def on_scripts_def register_script_def lookup_key_def on_conn_def mem_client_run mem_files_def
      default_resource_packages_def subscriber_start_def on_redis_def store_def on_registry_def persist_config_def)
  done

theorem create_errors_witness:
  "\<exists>g' x. managed_create (blocking_class demo_env) (e_client demo_env) ''lim'' True False demo_config demo_cut = (Inl RedisConnectionError, g') \<and>
     managed_get (blocking_class demo_env) (e_client demo_env) ''lim'' g' = (Inr x, g')"
proof -
  obtain g' where g: "managed_create (blocking_class demo_env) (e_client demo_env) ''lim'' True False demo_config demo_cut = (Inl RedisConnectionError, g')"
      "g_instances g' ''lim'' \<noteq> None"
    using demo_cut_create by blast
  have "g_instances demo_cut = Map.empty" by (simp add: demo_cut_def demo_registry_def)
  then show ?thesis
    using create_errors [OF managed_registry.axioms(2) [OF mem_registry.managed_registry_axioms] g(1)] g by auto
qed

text \<open>C33. The asynchronous classes do what the synchronous ones do. \<^verbatim>\<open>create\<close>, \<^verbatim>\<open>get\<close>, \<^verbatim>\<open>update\<close>, \<^verbatim>\<open>_persist_config\<close>, \<^verbatim>\<open>refresh_config\<close> and
  \<^verbatim>\<open>configure\<close> of \<^verbatim>\<open>AsyncManagedRateLimiter\<close> are those of \<^verbatim>\<open>SyncManagedRateLimiter\<close> for the class whose construction includes \<^verbatim>\<open>start()\<close>,
  as functions of the class, the client and every state.\<close>

theorem async_managed_matches:
  "async_managed_create K C = managed_create (started K) C \<and> async_managed_get K C = managed_get (started K) C \<and>
   async_managed_update K C = managed_update (started K) C \<and> async_persist_config K C = persist_config (started K) C \<and>
   async_refresh_config K C = refresh_config (started K) C \<and> async_configure K = configure (started K)"
proof -
  have init: "py_bind (managed_init (started K) True i cfg) f = py_bind (async_managed_init K True i cfg) (\<lambda>x0. py_bind (k_start K x0) f)"
    for i cfg f
    by (simp add: managed_init_def async_managed_init_def started_def require_internal_construction_def py_if_def py_then_def py_bind_assoc)
  have f: "k_set_version (started K) = k_set_version K" "k_id (started K) = k_id K" "k_persist (started K) = k_persist K"
      "k_apply (started K) = k_apply K" "k_version (started K) = k_version K" "require_configured (started K) = require_configured K"
    by (simp_all add: started_def require_configured_def has_backend_context_def)
  have p: "async_persist_config K C = persist_config (started K) C"
    unfolding async_persist_config_def [abs_def] persist_config_def [abs_def] f ..
  moreover have "async_refresh_config K C = refresh_config (started K) C"
    unfolding async_refresh_config_def [abs_def] refresh_config_def [abs_def] f ..
  moreover have g: "async_managed_get K C = managed_get (started K) C"
    unfolding async_managed_get_def [abs_def] managed_get_def [abs_def] adopt_version_def [abs_def] f init ..
  moreover have "async_managed_create K C = managed_create (started K) C"
    unfolding async_managed_create_def [abs_def] managed_create_def [abs_def] f init p ..
  moreover have "async_managed_update K C = managed_update (started K) C"
    unfolding async_managed_update_def [abs_def] managed_update_def [abs_def] f g p ..
  moreover have "async_configure K = configure (started K)"
    by (intro ext) (simp add: async_configure_def configure_def configure_backend_def started_def)
  ultimately show ?thesis by blast
qed

section \<open>Draining with a refreshed configuration\<close>

text \<open>What a drain does to the server and to the configuration, given the instance after its refresh.\<close>

lemma drain_effect:
  assumes cl: "redis_client R decode (e_client E) srv loaded (e_files E) source sha1" and ok: "caches_ok source sha1 (w_scripts w1)"
    and cb: "\<And>d. keeps_limiter (e_callback E d)" and dis: "\<And>f ps u. keeps_limiter (e_dispatch E f ps u)"
    and ref: "drain_refresh E w = (Inr (), w1)" and run: "drain E w = (r, w')"
  defines "S \<equiv> server_of srv w1"
  defines "S' \<equiv> snd (consume_lua R decode (drain_args (w_lim w1)) S)"
  shows "w_lim w' = (w_lim w1)\<lparr>l_consecutive_drain_failures := l_consecutive_drain_failures (w_lim w')\<rparr> \<and>
    (if w_time w1 < l_drain_paused_until (w_lim w1) \<or> \<not> e_has_local_capacity E w1 then server_of srv w' = S
     else server_of srv w' = S' \<or> fst (consume E w1) = Inl RedisConnectionError \<and> server_of srv w' = S)"
proof (cases "w_time w1 < l_drain_paused_until (w_lim w1)")
  case True
  then have "schedule_drain (l_drain_paused_until (w_lim w1) - w_time w1) w1 = (r, w')"
    using ref run by (simp add: drain_def drain_body_def py_simps schedule_drain_eq)
  from quietD [OF quiet_compose(2) this] show ?thesis using True by (simp add: S_def server_of_def)
next
  case False
  obtain x w2 where x: "drain_inner E w1 = (x, w2)" by force
  note f = drain_inner_frame [OF cb dis x]
  have fl: "w_scripts w' = w_scripts v \<and> w_lim w' = (w_lim v)\<lparr>l_consecutive_drain_failures := l_consecutive_drain_failures (w_lim w')\<rparr>"
    if "drain_failed v = (r, w')" for v
    using that by (auto simp: drain_failed_def set_lim_def py_simps backoff_delay_def schedule_drain_eq split: if_splits option.splits)
  have w': "w_scripts w' = w_scripts w2 \<and> w_lim w' = (w_lim w1)\<lparr>l_consecutive_drain_failures := l_consecutive_drain_failures (w_lim w')\<rparr>"
    using drain_after_refresh [OF ref False x run] f fl [of w2] by (cases x) auto
  show ?thesis
  proof (cases "e_has_local_capacity E w1")
    case cap: True
    obtain rep w3 where c: "call_script E (consume_call (w_lim w1)) w1 = (rep, w3)" by force
    obtain q v where q: "consume E w1 = (q, v)" by force
    note cf = consume_frame [OF cb c q]
    have sv: "server_of srv w' = server_of srv w3" using w' f cap q cf(1) by (simp add: server_of_def)
    have "(rep, server_of srv w3) = run_script R decode (CallConsume (drain_args (w_lim w1))) S \<or>
        rep = Inl RedisConnectionError \<and> (server_of srv w3 = S \<or> server_of srv w3 = snd (run_script R decode (CallConsume (drain_args (w_lim w1))) S))"
      using script_cases [OF cl ok c] by (simp add: consume_call_eq S_def)
    then have "server_of srv w3 = S' \<or> rep = Inl RedisConnectionError \<and> server_of srv w3 = S" by (auto simp: run_consume S'_def)
    then show ?thesis using w' sv cf(2) q False cap by auto
  qed (use w' f in \<open>simp add: S_def server_of_def\<close>)
qed

text \<open>The arguments of \<^verbatim>\<open>consume.lua\<close> are the persisted fields, the id and the name of the worker.\<close>

lemma drain_args_persisted:
  assumes "build_persist_config l = build_persist_config k" "l_id l = i"
  shows "drain_args l = (drain_args (k\<lparr>l_id := i\<rparr>))\<lparr>ca_worker_id := l_worker_id l\<rparr>"
  using assms by (simp add: drain_args_def build_persist_config_def base_build_persist_config_def no_overrides_def)

lemma drain_refresh_published:
  assumes "redis_server R look el" "redis_client R decode (e_client E) srv loaded (e_files E) source sha1"
    and "e_refresh E = Some (refresh_hook (blocking_class E) (e_client E))" "1 \<le> w_clk w - l_last_refresh_at (w_lim w)"
    and "shared_ok (look (server_of srv w))" "published (blocking_class E) (look (server_of srv w)) (l_id (w_lim w)) x n" "exact_window x"
    and "drain_refresh E w = (r, w')"
  shows "server_of srv w' = server_of srv w \<and> l_last_refresh_at (w_lim w') = w_clk w \<and> w_time w' = w_time w \<and>
    l_id (w_lim w') = l_id (w_lim w) \<and> l_worker_id (w_lim w') = l_worker_id (w_lim w) \<and> (caches_ok source sha1 (w_scripts w) \<longrightarrow> caches_ok source sha1 (w_scripts w')) \<and>
    (if r = Inl RedisConnectionError then build_persist_config (w_lim w') = build_persist_config (w_lim w)
     else r = Inr () \<and> l_config_version (w_lim w') = max n (l_config_version (w_lim w)) \<and>
       build_persist_config (w_lim w') = build_persist_config (if l_config_version (w_lim w) < n then w_lim x else w_lim w))"
proof -
  let ?K = "blocking_class E" and ?w = "w\<lparr>w_lim := (w_lim w)\<lparr>l_last_refresh_at := w_clk w\<rparr>\<rparr>"
  have keep: "build_persist_config (l\<lparr>l_last_refresh_at := t\<rparr>) = build_persist_config l"
      "l_last_refresh_at (apply_config_overrides t' ov l) = l_last_refresh_at l" "l_id (apply_config_overrides t' ov l) = l_id l"
      "l_worker_id (apply_config_overrides t' ov l) = l_worker_id l" for l t t' ov
    by (simp_all add: build_persist_config_def base_build_persist_config_def apply_config_overrides_def base_apply_config_overrides_def
        Let_def split: option.split)
  have run: "refresh_hook ?K (e_client E) ?w = (r, w')"
    using assms(3,4,8) by (simp add: drain_refresh_def set_lim_def py_simps)
  obtain q c where q: "refresh_config ?K (e_client E) (w_time w) ?w (s_conn (w_scripts w)) = (q, c)" by force
  have ok: "shared_ok (look (srv (s_conn (w_scripts w))))" using assms(5) by (simp add: server_of_def)
  note out = shared_registry.refresh_outcome [OF shared_registry.intro [OF assms(1,2)] ok q]
  have spec: "refresh_spec ?K (w_time w) ?w (look (server_of srv w)) =
      (if l_config_version (w_lim w) < n
       then Inr (?w\<lparr>w_lim := (apply_config_overrides (w_time w) (build_persist_config (w_lim x)) (w_lim ?w))\<lparr>l_config_version := n\<rparr>\<rparr>, True)
       else Inr (?w, False))"
    using refresh_published [OF assms(6,7), of ?w "w_time w"] published_version [OF assms(6)] by (auto simp: refresh_spec_def)
  show ?thesis
  proof (cases "q = Inl RedisConnectionError")
    case True
    then have "r = Inl RedisConnectionError" "w' = with_conn c ?w" using run q by (simp_all add: refresh_hook_def)
    then show ?thesis using out by (simp add: with_conn_def server_of_def keep)
  next
    case False
    then have "q = refresh_spec ?K (w_time w) ?w (look (server_of srv w))" using out by (simp add: server_of_def)
    then obtain y b where y: "q = Inr (y, b)" "r = Inr ()" "w' = with_conn c y"
        "y = ?w\<lparr>w_lim := (if l_config_version (w_lim w) < n
          then (apply_config_overrides (w_time w) (build_persist_config (w_lim x)) (w_lim ?w))\<lparr>l_config_version := n\<rparr> else w_lim ?w)\<rparr>"
      using run q spec by (auto simp: refresh_hook_def split: if_splits)
    then show ?thesis using out by (simp add: with_conn_def server_of_def keep apply_own)
  qed
qed

text \<open>C34. A drain consumes with the published configuration. Take a call of \<^verbatim>\<open>drain()\<close> on a managed instance whose last refresh is at least a second
  old, with callbacks and dispatches that leave the instance alone. If its refresh meets a connection error, nothing is consumed and the instance
  keeps its configuration. Otherwise the instance has the published configuration and version when that is newer than its own (and its own
  if not) before anything is consumed: the drain leaves the server alone while it is paused or has no local capacity, and otherwise the
  server is as one call of \<^verbatim>\<open>consume.lua\<close> leaves it whose limits, window, ages and lease are exactly those of that configuration, unless the
  connection was lost before the call ran. A refresh that is less than a second old is not repeated, so an update may take a second to be seen.\<close>

theorem drain_picks_up_update:
  assumes "redis_server R look el" "redis_client R decode (e_client E) srv loaded (e_files E) source sha1"
    and "e_refresh E = Some (refresh_hook (blocking_class E) (e_client E))" "1 \<le> w_clk w - l_last_refresh_at (w_lim w)"
    and "shared_ok (look (server_of srv w))" "published (blocking_class E) (look (server_of srv w)) (l_id (w_lim w)) x n" "exact_window x"
    and "caches_ok source sha1 (w_scripts w)" "\<And>d. keeps_limiter (e_callback E d)" "\<And>f ps u. keeps_limiter (e_dispatch E f ps u)"
    and "drain_refresh E w = (rr, w1)" "drain E w = (r, w')"
  defines "S \<equiv> server_of srv w" and "new \<equiv> (if l_config_version (w_lim w) < n then w_lim x else w_lim w)"
  defines "a \<equiv> (drain_args (new\<lparr>l_id := l_id (w_lim w)\<rparr>))\<lparr>ca_worker_id := l_worker_id (w_lim w)\<rparr>"
  shows "if rr = Inl RedisConnectionError
    then server_of srv w' = S \<and> build_persist_config (w_lim w') = build_persist_config (w_lim w)
    else build_persist_config (w_lim w') = build_persist_config new \<and>
      l_config_version (w_lim w') = max n (l_config_version (w_lim w)) \<and> l_last_refresh_at (w_lim w') = w_clk w \<and>
      (if w_time w < l_drain_paused_until (w_lim w1) \<or> \<not> e_has_local_capacity E w1 then server_of srv w' = S
       else server_of srv w' = snd (consume_lua R decode a S)
         \<or> fst (consume E w1) = Inl RedisConnectionError \<and> server_of srv w' = S)"
proof -
  note p = drain_refresh_published [OF assms(1-7,11)]
  have keep: "build_persist_config (k\<lparr>l_consecutive_drain_failures := m\<rparr>) = build_persist_config k" for k m
    by (simp add: build_persist_config_def base_build_persist_config_def)
  have counted: "l_config_version (k\<lparr>l_consecutive_drain_failures := m\<rparr>) = l_config_version k"
    "l_last_refresh_at (k\<lparr>l_consecutive_drain_failures := m\<rparr>) = l_last_refresh_at k" for k :: limiter and m by simp_all
  show ?thesis
  proof (cases "rr = Inl RedisConnectionError")
    case True
    then have "drain_failed w1 = (r, w')" using assms(11,12) by (simp add: drain_def drain_body_def py_simps)
    then have f: "w_scripts w' = w_scripts w1 \<and> w_lim w' = (w_lim w1)\<lparr>l_consecutive_drain_failures := l_consecutive_drain_failures (w_lim w')\<rparr>"
      by (auto simp: drain_failed_def set_lim_def py_simps backoff_delay_def schedule_drain_eq split: if_splits option.splits)
    have "build_persist_config (w_lim w') = build_persist_config (w_lim w1)" using f keep by metis
    moreover have "server_of srv w' = server_of srv w1" using f by (simp add: server_of_def)
    ultimately show ?thesis using p True by (simp add: S_def)
  next
    case False
    then have ref: "drain_refresh E w = (Inr (), w1)" and cf: "build_persist_config (w_lim w1) = build_persist_config new"
      and sv: "server_of srv w1 = S" using p assms(11) by (simp_all add: new_def S_def)
    have ok: "caches_ok source sha1 (w_scripts w1)" using p assms(8) by blast
    have da: "drain_args (w_lim w1) = a" using drain_args_persisted [OF cf] p by (simp add: a_def)
    note e = drain_effect [OF assms(2) ok assms(9,10) ref assms(12), unfolded sv da]
    have "build_persist_config (w_lim w') = build_persist_config (w_lim w1)" "l_config_version (w_lim w') = l_config_version (w_lim w1)"
      "l_last_refresh_at (w_lim w') = l_last_refresh_at (w_lim w1)"
      using e keep counted by metis+
    then show ?thesis using False e p cf by simp
  qed
qed

text \<open>The class does not depend on the hook.\<close>

lemma blocking_refresh: "blocking_class (E\<lparr>e_refresh := h\<rparr>) = blocking_class E"
proof -
  let ?E = "E\<lparr>e_refresh := h\<rparr>"
  have parts: "next_uuid ?E = next_uuid E" "register_all ?E = register_all E" "subscriber_start ?E = subscriber_start E"
      "e_check_health ?E = e_check_health E"
    by (simp_all add: next_uuid_def [abs_def] register_all_def [abs_def] subscriber_start_def)
  have "distributed_init ?E = distributed_init E" unfolding distributed_init_def [abs_def] parts ..
  then show ?thesis by (simp add: blocking_class_def)
qed

definition demo_managed :: "conn env" where
  "demo_managed = demo_env\<lparr>e_refresh := Some (refresh_hook (blocking_class demo_env) (e_client demo_env))\<rparr>"

lemma demo_managed_fields:
  "e_client demo_managed = mem_client json_task" "e_files demo_managed = mem_files" "blocking_class demo_managed = blocking_class demo_env"
  "e_refresh demo_managed = Some (refresh_hook (blocking_class demo_env) (mem_client json_task))"
  by (simp_all add: demo_managed_def blocking_refresh)

definition demo_stale :: "conn \<Rightarrow> conn world" where
  "demo_stale c = with_conn c ((demo_world [] (mem_start 0))\<lparr>w_clk := 5, w_lim := demo_limiter\<lparr>l_limit := 9\<rparr>\<rparr>)"

lemma demo_stale_fields:
  "s_conn (w_scripts (demo_stale c)) = c" "w_clk (demo_stale c) = 5" "w_lim (demo_stale c) = demo_limiter\<lparr>l_limit := 9\<rparr>"
  by (simp_all add: demo_stale_def with_conn_def)

theorem drain_picks_up_update_witness:
  "\<exists>c r w'. drain demo_managed (demo_stale c) = (r, w') \<and> l_limit (w_lim (demo_stale c)) = 9 \<and> l_limit (w_lim w') = 2 \<and>
     l_config_version (w_lim w') = 1"
proof -
  obtain x c where x: "managed_create (blocking_class demo_env) (e_client demo_env) ''lim'' True False demo_config demo_registry =
      (Inr x, demo_registry\<lparr>g_conn := c, g_uuids := 1, g_instances := [''lim'' \<mapsto> x]\<rparr>)"
    and l: "w_lim x = demo_limiter\<lparr>l_worker_id := e_uuid demo_env 0, l_config_version := 1\<rparr>" "cn_links c = []"
    using demo_created by blast
  have ok: "shared_ok (ks (cn_mem c))" and p: "published (blocking_class demo_env) (ks (cn_mem c)) ''lim'' x 1" and e: "exact_window x"
    using mem_registry.create_outcome [OF demo_shared_ok x] l by (simp_all add: exact_window_def is_integral_def)
  have cl: "redis_client mem_redis json_task (e_client demo_managed) cn_mem (\<lambda>c. set (cn_loaded c)) (e_files demo_managed) mem_source mem_sha1"
    by (simp add: demo_managed_fields mc.redis_client_axioms)
  let ?w = "demo_stale c"
  obtain r w' where r: "drain_refresh demo_managed ?w = (r, w')" by force
  have s: "server_of cn_mem ?w = cn_mem c" "l_id (w_lim ?w) = ''lim''" by (simp_all add: server_of_def demo_stale_fields)
  let ?y = "?w\<lparr>w_lim := (w_lim ?w)\<lparr>l_last_refresh_at := w_clk ?w\<rparr>\<rparr>"
  have hook: "refresh_hook (blocking_class demo_env) (mem_client json_task) ?y = (r, w')"
    using r by (simp add: drain_refresh_def set_lim_def py_simps demo_managed_fields demo_stale_fields del: demo_limiter_simps)
      (simp add: demo_stale_fields)
  obtain z where "refresh_spec (blocking_class demo_env) (w_time ?y) ?y (ks (cn_mem c)) = Inr (z, True)"
    using refresh_published [OF p e, of ?y "w_time ?y"] by (auto simp: demo_stale_fields)
  then have "refresh_config (blocking_class demo_env) (mem_client json_task) (w_time ?y) ?y (s_conn (w_scripts ?y)) = (Inr (z, True), c)"
    by (simp add: refresh_up [OF l(2) ok] demo_stale_fields del: demo_limiter_simps)
  then have ne: "r \<noteq> Inl RedisConnectionError" using hook by (auto simp: refresh_hook_def)
  obtain rd wd where d: "drain demo_managed ?w = (rd, wd)" by force
  have cb: "keeps_limiter (e_callback demo_managed m)" "keeps_limiter (e_dispatch demo_managed f ps u)" for m f ps u
    by (simp_all add: keeps_limiter_def demo_managed_def demo_env_def py_modify_def py_return_def)
  have ca: "caches_ok mem_source mem_sha1 (w_scripts ?w)" by (simp add: caches_ok_def demo_stale_def with_conn_def demo_world_def)
  have "l_config_version (w_lim wd) = 1 \<and> build_persist_config (w_lim wd) = build_persist_config (w_lim x)"
    using drain_picks_up_update [OF mem.redis_server_axioms cl _ _ _ _ e ca cb r d, of 1] ok p s ne
    by (simp add: demo_managed_fields demo_stale_fields)
  then show ?thesis using d l
    by (intro exI [of _ c] exI [of _ rd] exI [of _ wd])
      (simp add: demo_stale_fields build_persist_config_def base_build_persist_config_def no_overrides_def)
qed

end
