(* ===== verification/Queue_Props.thy ===== *)
theory Queue_Props
  imports Pool_Props Registry_Props
begin

text \<open>
  The queue backends: a scheduled task reaches a worker process with its payload intact and runs there under its lifecycle; and the
  backend classes are managed classes.
\<close>

section \<open>The classes are managed classes\<close>

lemma inits_then:
  assumes "inits E srv init" "\<And>w. w_lim (f w) = w_lim w \<and> w_scripts (f w) = w_scripts w"
  shows "inits E srv (\<lambda>a. py_then (init a) (py_modify f))"
  unfolding inits_def
proof (intro allI impI)
  fix a w r w'
  assume run: "py_then (init a) (py_modify f) w = (r, w')"
  obtain q v where q: "init a w = (q, v)" by force
  have "server_of srv v = server_of srv w \<and> (case mixin_init a (e_uuid E (w_uuids w)) of
      Inl e \<Rightarrow> q = Inl e | Inr l \<Rightarrow> q = Inr () \<and> w_lim v = l \<or> q = Inl RedisConnectionError)"
    using assms(1) q by (simp add: inits_def)
  moreover have "(q = Inr () \<and> r = Inr () \<and> w' = f v) \<or> (\<exists>e. q = Inl e \<and> r = Inl e \<and> w' = v)"
    using run q by (cases q) (auto simp: py_then_def py_bind_def py_modify_def)
  ultimately show "server_of srv w' = server_of srv w \<and> (case mixin_init a (e_uuid E (w_uuids w)) of
      Inl e \<Rightarrow> r = Inl e | Inr l \<Rightarrow> r = Inr () \<and> w_lim w' = l \<or> r = Inl RedisConnectionError)"
    using assms(2) by (auto simp: server_of_def split: sum.splits)
qed

context limiter_process
begin

lemma pool_classes:
  "managed_limiter (threadpool_class E) srv exact_window valid_config"
  "managed_limiter (processpool_class E) srv exact_window valid_config"
  "async_managed_limiter (asyncio_class E) srv exact_window valid_config"
proof -
  have i: "inits E srv (threadpool_init E)" "inits E srv (processpool_init E)"
    unfolding threadpool_init_def [abs_def] processpool_init_def [abs_def]
    by (rule inits_then [OF inits_distributed [OF redis_client_axioms]], simp)+
  then show "managed_limiter (threadpool_class E) srv exact_window valid_config"
    "managed_limiter (processpool_class E) srv exact_window valid_config"
    unfolding threadpool_class_def processpool_class_def by (simp_all add: distributed_managed)
  have a: "inits E srv (asyncio_init E)"
    unfolding asyncio_init_def [abs_def] by (rule inits_then [OF inits_async]) simp
  show "async_managed_limiter (asyncio_class E) srv exact_window valid_config"
    unfolding asyncio_class_def
    by (rule async_managed_limiter.intro [OF distributed_managed [OF a]], unfold_locales)
      (insert awaiting.start, simp add: distributed_class_def)
qed

end

section \<open>From schedule to worker\<close>

datatype queue = Celery | RQ | Dramatiq | Huey

definition queue_worker :: "queue \<Rightarrow> string" where
  "queue_worker k = (case k of Celery \<Rightarrow> celery_worker_name | RQ \<Rightarrow> rq_worker_name | Dramatiq \<Rightarrow> dramatiq_worker_name | Huey \<Rightarrow> huey_worker_name)"

definition queue_dispatch :: "queue \<Rightarrow> ('c, 'o) backend \<Rightarrow> 'h \<Rightarrow> string \<Rightarrow> (string \<times> json) list \<Rightarrow> string \<Rightarrow> ('c world, unit) py" where
  "queue_dispatch k B h = (case k of Celery \<Rightarrow> celery_dispatch_task B | RQ \<Rightarrow> rq_dispatch_task B | Dramatiq \<Rightarrow> dramatiq_dispatch_task B
     | Huey \<Rightarrow> huey_dispatch_task B (fst (register_worker h (None, []))))"

lemma read_enhanced: "read_payload (build_enhanced_payload ps use) = Inr (use, JObj ps)"
  by (simp add: read_payload_def build_enhanced_payload_def jget_def truthy_def)

lemma dispatch_message:
  assumes "import_string (b_import B) f = Inr target"
  shows "queue_dispatch k B h f (build_enhanced_payload ps use) u w =
    b_submit B (if use then SendTask (queue_worker k) [] (worker_kwargs (l_id (w_lim w)) f (JObj ps) u)
      else SendTask f [JObj ps] [(task_id_kwarg, JStr u)]) w"
  using assms by (cases k) (simp_all add: queue_dispatch_def queue_worker_def celery_dispatch_task_def rq_dispatch_task_def
      dramatiq_dispatch_task_def huey_dispatch_task_def register_worker_def read_enhanced lift_result_def py_bind_def py_return_def py_get_def)

lemma task_loads:
  assumes "json_ok (JObj ps)" "\<bar>now\<bar> < 10 ^ 14" "\<And>m. ov = Some m \<Longrightarrow> \<bar>m\<bar> < 10 ^ 14"
  shows "load_task (Some (inject_metadata (get_task_data_str i u f ps) (of_int now) (map_option of_int ov))) w =
    (Inr (Some (get_task_data i u f ps @ meta_fields now ov)), w)"
proof -
  let ?raw = "inject_metadata (get_task_data_str i u f ps) (of_int now) (map_option of_int ov)"
  have l: "json_loads ?raw = Some (JObj (get_task_data i u f ps @ meta_fields now ov))"
    unfolding get_task_data_str_def using assms(1) by (intro inject_loads assms(2,3)) (simp_all add: get_task_data_def)
  moreover have "json_loads [] = None" by (simp add: json_loads_def skip_ws_def)
  then have "?raw \<noteq> []" using l by (metis option.distinct(1))
  moreover have "jget (get_task_data i u f ps @ meta_fields now ov) ''id'' = Some (JStr u)"
    by (simp add: jget_def get_task_data_def meta_fields_def split: option.split)
  ultimately show ?thesis by (simp add: load_task_def py_return_def get_task_data_def)
qed

lemma worker_runs:
  assumes "import_string (b_import B) f = Inr target" "g_instances g i = Some x"
  shows "generic_rate_limited_worker E B K [] (worker_kwargs i f (JObj ps) u) g =
    run_cached i x (py_bind (task_lifecycle u None) (\<lambda>lc. with_lifecycle E lc (b_call B target [] ps))) g"
proof -
  have "generic_worker_body B [] (filter (\<lambda>q. fst q \<noteq> task_id_kwarg) (worker_kwargs i f (JObj ps) u)) = b_call B target [] ps"
    using assms(1) by (auto simp: generic_worker_body_def worker_kwargs_def task_id_kwarg_def jget_def lift_result_def)
  moreover have "jget (worker_kwargs i f (JObj ps) u) ''limiter_id'' = Some (JStr i)"
    "jget (worker_kwargs i f (JObj ps) u) task_id_kwarg = Some (JStr u)"
    by (simp_all add: worker_kwargs_def task_id_kwarg_def jget_def)
  ultimately show ?thesis using assms(2)
    by (simp add: generic_rate_limited_worker_def rate_limited_def managed_get_def py_bind_def py_get_def py_return_def)
qed

text \<open>C36. A task of a queue backend (Celery, RQ, Dramatiq, Huey) arrives as it was scheduled. Take the text that \<^verbatim>\<open>schedule_task\<close> leaves in
  the buffer for a function path and a payload. The consumer that is given it decodes it and, in dispatching it, submits exactly one message: to the
  generic worker with the id of the limiter, the path, the payload and the task id, or, with \<^verbatim>\<open>use_executor=False\<close>, to the task of that name with
  the payload as its argument. In a worker process that has the limiter, the generic worker then calls the function of that path
  with exactly the scheduled payload as keywords, under the lifecycle of exactly that task; a function decorated with
  \<^verbatim>\<open>rate_limited\<close> is called likewise with the payload as its argument.\<close>

theorem queue_task_roundtrip:
  fixes u :: string and use :: bool and E' :: "'c env"
  assumes "json_ok (JObj payload)" "\<bar>now\<bar> < 10 ^ 14" "\<And>m. ov = Some m \<Longrightarrow> \<bar>m\<bar> < 10 ^ 14"
    and "f \<noteq> acquire_marker" "l_id (w_lim w) = i" "i \<noteq> []" "e_dispatch E = queue_dispatch k B h"
    and "import_string (b_import B) f = Inr target" "g_instances g i = Some x"
  defines "raw \<equiv> inject_metadata (get_task_data_str i u f (build_enhanced_payload payload use)) (of_int now) (map_option of_int ov)"
    and "run \<equiv> \<lambda>body. run_cached i x (py_bind (task_lifecycle u None) (\<lambda>lc. with_lifecycle E' lc body)) g"
  shows "\<exists>task name as kws. load_task (Some raw) w = (Inr (Some task), w) \<and> dispatch_admitted E task w = b_submit B (SendTask name as kws) w \<and>
    (if use then name = queue_worker k \<and> generic_rate_limited_worker E' B K as kws g = run (b_call B target [] payload)
     else name = f \<and> rate_limited E' (managed_get K C) (Some i) func as kws g = run (func [JObj payload] []))"
proof -
  let ?task = "get_task_data i u f (build_enhanced_payload payload use) @ meta_fields now ov"
  let ?kws = "if use then worker_kwargs i f (JObj payload) u else [(task_id_kwarg, JStr u)]"
  have "json_ok (JObj (build_enhanced_payload payload use))" using assms(1) by (simp add: build_enhanced_payload_def)
  then have "load_task (Some raw) w = (Inr (Some ?task), w)" unfolding raw_def by (intro task_loads assms(2,3))
  moreover have "dispatch_admitted E ?task w = queue_dispatch k B h f (build_enhanced_payload payload use) u w"
    using assms(4,7) by (cases ov) (simp_all add: dispatch_admitted_def task_field_def get_task_data_def meta_fields_def jget_def py_bind_def py_return_def)
  moreover have "\<dots> = b_submit B (SendTask (if use then queue_worker k else f) (if use then [] else [JObj payload]) ?kws) w"
    by (simp add: dispatch_message [OF assms(8)] assms(5))
  moreover have "generic_rate_limited_worker E' B K [] (worker_kwargs i f (JObj payload) u) g = run (b_call B target [] payload)"
    unfolding run_def by (rule worker_runs [OF assms(8,9)])
  moreover have "rate_limited E' (managed_get K C) (Some i) func [JObj payload] [(task_id_kwarg, JStr u)] g = run (func [JObj payload] [])"
    using assms(6,9) by (cases i) (simp_all add: rate_limited_def run_def managed_get_def py_bind_def py_get_def py_return_def jget_def task_id_kwarg_def)
  ultimately show ?thesis
    by (intro exI [of _ ?task] exI [of _ "if use then queue_worker k else f"] exI [of _ "if use then [] else [JObj payload]"] exI [of _ ?kws]) simp
qed

text \<open>The dispatch of the concrete backend through Celery.\<close>

definition demo_queue_env :: "conn env" where
  "demo_queue_env = demo_env\<lparr>e_dispatch := queue_dispatch Celery demo_backend ()\<rparr>"

theorem queue_task_roundtrip_witness:
  "\<exists>task name as kws.
     load_task (Some (inject_metadata (get_task_data_str ''lim'' ''t1'' ''app.work'' (build_enhanced_payload [(''n'', JInt 3)] True)) (of_int 1700000000000)
       (map_option of_int None))) (demo_world [] (mem_start 0)) = (Inr (Some task), demo_world [] (mem_start 0)) \<and>
     dispatch_admitted demo_queue_env task (demo_world [] (mem_start 0)) = b_submit demo_backend (SendTask name as kws) (demo_world [] (mem_start 0)) \<and>
     name = celery_worker_name \<and>
     generic_rate_limited_worker demo_env demo_backend (blocking_class demo_env) as kws
         (demo_registry\<lparr>g_instances := [''lim'' \<mapsto> demo_world [] (mem_start 0)]\<rparr>) =
       run_cached ''lim'' (demo_world [] (mem_start 0)) (py_bind (task_lifecycle ''t1'' None)
         (\<lambda>lc. with_lifecycle demo_env lc (b_call demo_backend ''work'' [] [(''n'', JInt 3)])))
         (demo_registry\<lparr>g_instances := [''lim'' \<mapsto> demo_world [] (mem_start 0)]\<rparr>)"
proof -
  have imp: "import_string (b_import demo_backend) ''app.work'' = Inr ''work''"
    by (simp add: demo_backend_def demo_importer_def import_string_def rsplit_dot_def)
  have env: "e_dispatch demo_queue_env = queue_dispatch Celery demo_backend ()" by (simp add: demo_queue_env_def)
  show ?thesis
    using queue_task_roundtrip [of "[(''n'', JInt 3)]" 1700000000000 None "''app.work''" "demo_world [] (mem_start 0)" "''lim''",
        OF _ _ _ _ _ _ env imp, of "demo_registry\<lparr>g_instances := [''lim'' \<mapsto> demo_world [] (mem_start 0)]\<rparr>" "demo_world [] (mem_start 0)" "''t1''" True demo_env
          "blocking_class demo_env"]
    by (simp add: acquire_marker_def queue_worker_def)
qed

end
