(* ===== verification/Asgi.thy ===== *)
theory Asgi
  imports Managed Async_Distributed
begin

text \<open>
  The ASGI backend, \<^verbatim>\<open>backends/asgi/\<close>: a limiter without queue that asks \<^verbatim>\<open>acquire.lua\<close> for every request, and the middleware
  that answers or passes on a request. The server and the application are parameters: \<open>send\<close> and the application are functions
  in the same monad, over the state \<open>http\<close> of one process; the receive channel is passed on untouched and left out.
\<close>

section \<open>The limiter\<close>

text \<open>Of the attributes in \<open>as_lim\<close> the class has only those of \<^verbatim>\<open>AbstractRateLimiter\<close>.\<close>

record 'c asgi =
  as_scripts :: "'c scripts"
  as_lim :: limiter
  as_last_refresh :: rat

record acquire_result =
  aq_allowed :: bool
  aq_remaining :: int
  aq_reset_in_ms :: int
  aq_val_previous :: int
  aq_val_current :: int

definition asgi_on_scripts :: "('c scripts, 'a) py \<Rightarrow> ('c asgi, 'a) py" where
  "asgi_on_scripts m x = (case m (as_scripts x) of (r, s) \<Rightarrow> (r, x\<lparr>as_scripts := s\<rparr>))"

definition asgi_with_conn :: "'c \<Rightarrow> 'c asgi \<Rightarrow> 'c asgi" where
  "asgi_with_conn c x = x\<lparr>as_scripts := (as_scripts x)\<lparr>s_conn := c\<rparr>\<rparr>"

text \<open>Construction: missing keywords, then the checks of the base class, then unexpected keywords.\<close>

definition asgi_init :: "string \<Rightarrow> (string \<times> json) list \<Rightarrow> 'c \<Rightarrow> exn + 'c asgi" where
  "asgi_init limiter_id config c =
     (case (jget config ''limit'', jget config ''window'') of
        (Some (JInt limit), Some wj) \<Rightarrow> (case jnum wj of
            None \<Rightarrow> Inl TypeError
          | Some window \<Rightarrow> (case base_init limiter_id limit window of
              Inl e \<Rightarrow> Inl e
            | Inr (i, l, w) \<Rightarrow>
                if \<not> list_all (\<lambda>f. fst f \<in> {''limit'', ''window''}) config then Inl TypeError
                else Inr \<lparr>as_scripts = \<lparr>s_conn = c, s_sources = Map.empty, s_shas = Map.empty\<rparr>,
                  as_lim = \<lparr>l_id = i, l_limit = l, l_window = w, l_config_version = 0, l_drain_paused_until = 0, l_max_concurrency = 0,
                    l_max_age = 0, l_lease_duration = 0, l_on_heartbeat_failure = [], l_jitter_enabled = False, l_jitter_min_pct = 0,
                    l_jitter_max_pct = 0, l_metrics_callback = False, l_drain_enabled = False, l_worker_id = [],
                    l_consecutive_drain_failures = 0, l_last_refresh_at = 0\<rparr>,
                  as_last_refresh = 0\<rparr>))
      | _ \<Rightarrow> Inl TypeError)"

definition asgi_start :: "(string \<Rightarrow> string \<Rightarrow> exn + string) \<Rightarrow> 'c client \<Rightarrow> ('c asgi, unit) py" where
  "asgi_start files C = py_bind (asgi_on_scripts (async_register_script files C ''acquire.lua'')) (\<lambda>_. py_return ())"

definition base_overrides :: "(string \<times> json) list \<Rightarrow> exn + overrides" where
  "base_overrides fs = (case (field jint fs ''limit'', field jnum fs ''window'') of
     (Inr a, Inr b) \<Rightarrow> Inr (no_overrides\<lparr>o_limit := a, o_window := b\<rparr>) | _ \<Rightarrow> Inl TypeError)"

text \<open>The managed class; it needs no backend context.\<close>

definition asgi_class :: "(string \<Rightarrow> string \<Rightarrow> exn + string) \<Rightarrow> 'c client \<Rightarrow> ('c, 'c asgi) managed_class" where
  "asgi_class files C =
     \<lparr>k_needs_context = False,
      k_construct = (\<lambda>i config g. (asgi_init i config (g_conn g), g)),
      k_start = (\<lambda>x g. case asgi_start files C (asgi_with_conn (g_conn g) x) of
         (r, y) \<Rightarrow> (map_sum id (\<lambda>_. y) r, g\<lparr>g_conn := s_conn (as_scripts y)\<rparr>)),
      k_id = (\<lambda>x. l_id (as_lim x)),
      k_version = (\<lambda>x. l_config_version (as_lim x)),
      k_set_version = (\<lambda>v x. x\<lparr>as_lim := (as_lim x)\<lparr>l_config_version := v\<rparr>\<rparr>),
      k_persist = (\<lambda>x. config_fields (base_build_persist_config (as_lim x))),
      k_apply = (\<lambda>time fs x. case base_overrides fs of
         Inl e \<Rightarrow> Inl e | Inr ov \<Rightarrow> Inr (x\<lparr>as_lim := base_apply_config_overrides time ov (as_lim x)\<rparr>))\<rparr>"

definition asgi_refresh :: "(string \<Rightarrow> string \<Rightarrow> exn + string) \<Rightarrow> 'c client \<Rightarrow> rat \<Rightarrow> ('c asgi, unit) py" where
  "asgi_refresh files C time x = (case async_refresh_config (asgi_class files C) C time x (s_conn (as_scripts x)) of
     (Inl e, c) \<Rightarrow> (Inl e, asgi_with_conn c x)
   | (Inr (y, _), c) \<Rightarrow> (Inr (), asgi_with_conn c y))"

definition refresh_interval :: rat where
  "refresh_interval = 5"

definition full_key :: "string \<Rightarrow> string \<Rightarrow> string" where
  "full_key i key = i @ '':'' @ key"

text \<open>\<open>now\<close> is \<^verbatim>\<open>time.monotonic()\<close>, \<open>time\<close> is \<^verbatim>\<open>time.time()\<close>.\<close>

definition asgi_acquire :: "(string \<Rightarrow> string \<Rightarrow> exn + string) \<Rightarrow> 'c client \<Rightarrow> rat \<Rightarrow> rat \<Rightarrow> string \<Rightarrow> ('c asgi, acquire_result) py" where
  "asgi_acquire files C now time key =
     py_bind (py_get as_last_refresh) (\<lambda>last.
     py_then (py_if (refresh_interval \<le> now - last)
       (py_then (py_modify (\<lambda>x. x\<lparr>as_last_refresh := now\<rparr>)) (asgi_refresh files C time)))
     (py_bind (py_get as_lim) (\<lambda>l.
      py_bind (asgi_on_scripts (async_eval_script files C (CallAcquire (full_key (l_id l) key) (l_window l) (l_limit l)))) (\<lambda>rep.
      case rep of
        RepAcquire t \<Rightarrow> py_return \<lparr>aq_allowed = (ar_allowed t = 1), aq_remaining = ar_remaining t, aq_reset_in_ms = ar_reset_in_ms t,
          aq_val_previous = ar_previous t, aq_val_current = ar_current t\<rparr>
      | _ \<Rightarrow> py_raise TypeError))))"

section \<open>Requests\<close>

record scope =
  sc_type :: "string option"
  sc_client :: "(string \<times> int) option"
  sc_headers :: "(string \<times> string) list"

record message =
  mg_type :: string
  mg_status :: "int option"
  mg_headers :: "(string \<times> string) list option"
  mg_body :: "string option"

definition by_client_ip :: "scope \<Rightarrow> string option" where
  "by_client_ip sc = (case sc_client sc of Some (host, _) \<Rightarrow> Some host | None \<Rightarrow> None)"

definition by_header :: "string \<Rightarrow> scope \<Rightarrow> string option" where
  "by_header name sc = (let target = py_lower name in map_option snd (List.find (\<lambda>h. fst h = target) (sc_headers sc)))"

section \<open>The middleware\<close>

record 'c http =
  h_limiter :: "'c asgi"
  h_sent :: "message list"

type_synonym 'c send = "message \<Rightarrow> ('c http, unit) py"

record 'c middleware =
  mw_app :: "scope \<Rightarrow> 'c send \<Rightarrow> ('c http, unit) py"
  mw_key_func :: "scope \<Rightarrow> exn + string option"
  mw_on_blocked :: "(scope \<Rightarrow> acquire_result \<Rightarrow> 'c send \<Rightarrow> ('c http, unit) py) option"
  mw_on_error :: string

definition middleware_init :: "(scope \<Rightarrow> 'c send \<Rightarrow> ('c http, unit) py) \<Rightarrow> (scope \<Rightarrow> exn + string option)
    \<Rightarrow> (scope \<Rightarrow> acquire_result \<Rightarrow> 'c send \<Rightarrow> ('c http, unit) py) option \<Rightarrow> string \<Rightarrow> 'c middleware" where
  "middleware_init app key_func on_blocked on_error =
     \<lparr>mw_app = app, mw_key_func = key_func, mw_on_blocked = on_blocked, mw_on_error = py_lower on_error\<rparr>"

definition on_limiter :: "('c asgi, 'a) py \<Rightarrow> ('c http, 'a) py" where
  "on_limiter m s = (case m (h_limiter s) of (r, x) \<Rightarrow> (r, s\<lparr>h_limiter := x\<rparr>))"

text \<open>The headers are added when the response starts, with the limit of that moment.\<close>

definition wrap_send :: "'c send \<Rightarrow> acquire_result \<Rightarrow> 'c send" where
  "wrap_send send result msg = py_bind (py_get (\<lambda>s. l_limit (as_lim (h_limiter s)))) (\<lambda>limit.
     send (if mg_type msg = ''http.response.start''
       then msg\<lparr>mg_headers := Some ((case mg_headers msg of Some hs \<Rightarrow> hs | None \<Rightarrow> []) @
         [(''x-ratelimit-limit'', dec_int limit), (''x-ratelimit-remaining'', dec_int (aq_remaining result)),
          (''x-ratelimit-reset'', dec_int (aq_reset_in_ms result))])\<rparr>
       else msg))"

definition retry_after :: "int \<Rightarrow> int" where
  "retry_after reset_ms = max 1 ((reset_ms + 999) div 1000)"

definition send_blocked :: "'c send \<Rightarrow> acquire_result \<Rightarrow> ('c http, unit) py" where
  "send_blocked send result =
     py_then (send \<lparr>mg_type = ''http.response.start'', mg_status = Some 429,
         mg_headers = Some [(''content-type'', ''text/plain; charset=utf-8''), (''retry-after'', dec_int (retry_after (aq_reset_in_ms result))),
           (''x-ratelimit-remaining'', ''0''), (''x-ratelimit-reset'', dec_int (aq_reset_in_ms result))],
         mg_body = None\<rparr>)
       (send \<lparr>mg_type = ''http.response.body'', mg_status = None, mg_headers = None,
         mg_body = Some ''Rate limit exceeded. Please retry later.''\<rparr>)"

definition send_error :: "'c send \<Rightarrow> ('c http, unit) py" where
  "send_error send =
     py_then (send \<lparr>mg_type = ''http.response.start'', mg_status = Some 503,
         mg_headers = Some [(''content-type'', ''text/plain; charset=utf-8'')], mg_body = None\<rparr>)
       (send \<lparr>mg_type = ''http.response.body'', mg_status = None, mg_headers = None,
         mg_body = Some ''Service temporarily unavailable.''\<rparr>)"

definition middleware_call :: "(string \<Rightarrow> string \<Rightarrow> exn + string) \<Rightarrow> 'c client \<Rightarrow> rat \<Rightarrow> rat \<Rightarrow> 'c middleware \<Rightarrow> scope \<Rightarrow> 'c send \<Rightarrow> ('c http, unit) py" where
  "middleware_call files C now time M sc send =
     (if sc_type sc \<noteq> Some ''http'' then mw_app M sc send
      else case mw_key_func M sc of
        Inl e \<Rightarrow> py_raise e
      | Inr None \<Rightarrow> mw_app M sc send
      | Inr (Some key) \<Rightarrow>
          py_bind (py_catch (py_bind (on_limiter (asgi_acquire files C now time key)) (\<lambda>result. py_return (Inr result)))
                     (\<lambda>e. py_return (Inl e))) (\<lambda>outcome.
          case outcome of
            Inl e \<Rightarrow> if mw_on_error M = ''fail_closed'' then send_error send else mw_app M sc send
          | Inr result \<Rightarrow>
              if \<not> aq_allowed result
              then (case mw_on_blocked M of Some handler \<Rightarrow> handler sc result send | None \<Rightarrow> send_blocked send result)
              else mw_app M sc (wrap_send send result)))"

end
