(* ===== verification/Asgi_Props.thy ===== *)
theory Asgi_Props
  imports Asgi Managed_Limiters
begin

text \<open>
  The ASGI limiter is a managed class with a \<^verbatim>\<open>start()\<close> coroutine, and the middleware treats a request as \<^verbatim>\<open>acquire.lua\<close> decides.
\<close>

section \<open>A managed class\<close>

definition asgi_exact :: "'c asgi \<Rightarrow> bool" where
  "asgi_exact x = is_integral (l_window (as_lim x) * 10 ^ 16)"

definition asgi_valid :: "'c asgi \<Rightarrow> bool" where
  "asgi_valid x = (l_id (as_lim x) \<noteq> [] \<and> 0 \<le> l_limit (as_lim x) \<and> 0 < l_window (as_lim x))"

lemma base_fields: "config_fields (base_build_persist_config l) = [(''limit'', JInt (l_limit l)), (''window'', JFloat (py_repr (l_window l)))]"
  by (simp add: config_fields_def base_build_persist_config_def no_overrides_def)

lemma base_fields_overrides:
  "is_integral (l_window l * 10 ^ 16) \<Longrightarrow> base_overrides (config_fields (base_build_persist_config l)) = Inr (base_build_persist_config l)"
  by (simp add: base_overrides_def base_fields field_def jget_def jint_def jnum_def py_float_repr)
    (simp add: base_build_persist_config_def no_overrides_def)

lemma base_apply_own:
  "base_build_persist_config (base_apply_config_overrides t (base_build_persist_config k) l) = base_build_persist_config k"
  "l_id (base_apply_config_overrides t ov l) = l_id l"
  by (simp_all add: base_apply_config_overrides_def base_build_persist_config_def no_overrides_def Let_def split: option.split)

lemma asgi_init_id: "asgi_init i fs c = Inr x \<Longrightarrow> l_id (as_lim x) = i"
  by (auto simp: asgi_init_def base_init_def split: option.splits json.splits sum.splits if_splits)

lemma asgi_init_persisted:
  assumes "asgi_exact x" "asgi_valid x"
  shows "\<exists>y. asgi_init (l_id (as_lim x)) (config_fields (base_build_persist_config (as_lim x))) c = Inr y \<and>
    base_build_persist_config (as_lim y) = base_build_persist_config (as_lim x)"
  using assms by (simp add: asgi_init_def base_fields jget_def jnum_def py_float_repr asgi_exact_def asgi_valid_def base_init_def)
    (simp add: base_build_persist_config_def)

locale asgi_process = redis_client R decode C srv loaded files source sha1
  for R :: "'s redis" and decode and C :: "'c client" and srv loaded files source sha1
begin

lemma asgi_start_cases:
  assumes "asgi_start files C x = (r, y)"
  shows "as_lim y = as_lim x \<and> srv (s_conn (as_scripts y)) = srv (s_conn (as_scripts x)) \<and> (r = Inr () \<or> r = Inl RedisConnectionError)"
proof -
  obtain q s where q: "register_script files C ''acquire.lua'' (as_scripts x) = (q, s)" by force
  show ?thesis using assms q register_frame [OF q]
    by (cases q) (auto simp: asgi_start_def asgi_on_scripts_def async_register_script_eq py_bind_def py_return_def)
qed

end

sublocale asgi_process \<subseteq> asgi: async_managed_limiter "asgi_class files C" srv asgi_exact asgi_valid
proof unfold_locales
  fix x :: "'c asgi" and time y
  assume v: "asgi_exact x"
  then show "json_ok (JObj (k_persist (asgi_class files C) x))"
    by (simp add: asgi_class_def base_fields repr_token)
  show "\<exists>y'. k_apply (asgi_class files C) time (k_persist (asgi_class files C) x) y = Inr y' \<and>
      k_persist (asgi_class files C) y' = k_persist (asgi_class files C) x"
    using v by (simp add: asgi_class_def base_fields_overrides asgi_exact_def base_apply_own)
next
  fix time fs and x x' :: "'c asgi"
  assume "k_apply (asgi_class files C) time fs x = Inr x'"
  then show "k_id (asgi_class files C) x' = k_id (asgi_class files C) x"
    by (auto simp: asgi_class_def base_apply_own split: sum.splits)
next
  fix i fs and g :: "('c, 'c asgi) registry" and r g'
  assume "k_construct (asgi_class files C) i fs g = (r, g')"
  then show "srv (g_conn g') = srv (g_conn g) \<and> g_instances g' = g_instances g \<and> (\<forall>x. r = Inr x \<longrightarrow> k_id (asgi_class files C) x = i)"
    by (auto simp: asgi_class_def dest: asgi_init_id)
next
  fix x :: "'c asgi" and g :: "('c, 'c asgi) registry" and r g'
  let ?K = "asgi_class files C"
  assume "asgi_exact x" "asgi_valid x" "k_construct ?K (k_id ?K x) (k_persist ?K x) g = (r, g')"
  then show "r = Inl RedisConnectionError \<or> (\<exists>y. r = Inr y \<and> k_persist ?K y = k_persist ?K x)"
    using asgi_init_persisted [of x "g_conn g"] by (auto simp: asgi_class_def)
next
  fix x :: "'c asgi" and g :: "('c, 'c asgi) registry" and r g'
  let ?K = "asgi_class files C"
  assume run: "k_start ?K x g = (r, g')"
  obtain q y where q: "asgi_start files C (asgi_with_conn (g_conn g) x) = (q, y)" by force
  show "srv (g_conn g') = srv (g_conn g) \<and> g_instances g' = g_instances g \<and>
      (r = Inl RedisConnectionError \<or> (\<exists>y. r = Inr y \<and> k_id ?K y = k_id ?K x \<and> k_persist ?K y = k_persist ?K x))"
    using run q asgi_start_cases [OF q] by (auto simp: asgi_class_def asgi_with_conn_def)
qed (simp_all add: asgi_class_def base_build_persist_config_def)

interpretation mem_asgi: asgi_process mem_redis json_task "mem_client json_task" cn_mem "\<lambda>c. set (cn_loaded c)" mem_files mem_source mem_sha1
  ..

section \<open>Requests\<close>











end
