(* ===== verification/Prometheus.thy ===== *)
theory Prometheus
  imports Drain_Props
begin

text \<open>
  The Prometheus integration, \<^verbatim>\<open>integrations/prometheus.py\<close>: an exporter that is passed to a limiter as its metrics callback and turns
  the events of \<^verbatim>\<open>schedule_task\<close> and \<^verbatim>\<open>consume\<close> into counters and gauges. The library \<^verbatim>\<open>prometheus_client\<close> is a parameter, a record of
  the operations that the exporter calls on an unknown state of a collector registry; its documented behaviour is the locale
  \<open>prometheus_client\<close>. A limiter emits no event but the two, so the branch for unknown events does not occur.
\<close>

section \<open>The client library\<close>

record 'p prometheus =
  pr_register :: "string \<Rightarrow> string list \<Rightarrow> ('p, unit) py"  \<comment> \<open>\<^verbatim>\<open>Counter(name, ..., labels, registry)\<close>, \<^verbatim>\<open>Gauge(...)\<close>\<close>
  pr_inc :: "string \<Rightarrow> string list \<Rightarrow> 'p \<Rightarrow> 'p"  \<comment> \<open>\<^verbatim>\<open>.labels(...).inc()\<close>\<close>
  pr_set :: "string \<Rightarrow> string list \<Rightarrow> int \<Rightarrow> 'p \<Rightarrow> 'p"  \<comment> \<open>\<^verbatim>\<open>.labels(...).set(value)\<close>\<close>

section \<open>The exporter\<close>

definition consume_total :: string where
  "consume_total = ''redis_rate_limiter_consume_total''"

definition schedule_total :: string where
  "schedule_total = ''redis_rate_limiter_schedule_total''"

definition remaining_tokens :: string where
  "remaining_tokens = ''redis_rate_limiter_remaining_tokens''"

definition active_concurrency :: string where
  "active_concurrency = ''redis_rate_limiter_active_concurrency''"

definition buffer_depth :: string where
  "buffer_depth = ''redis_rate_limiter_buffer_depth''"

definition families :: "string set" where
  "families = {consume_total, schedule_total, remaining_tokens, active_concurrency, buffer_depth}"

lemmas family_defs = families_def consume_total_def schedule_total_def remaining_tokens_def active_concurrency_def buffer_depth_def

lemma families_distinct: "distinct [consume_total, schedule_total, remaining_tokens, active_concurrency, buffer_depth]"
  by (simp add: family_defs)

lemmas family_neq = families_distinct [simplified distinct.simps list.set insert_iff empty_iff de_Morgan_disj simp_thms]

text \<open>An exporter is its \<^verbatim>\<open>_limiter_id\<close>; the metric objects are named by their families.\<close>

definition exporter_init :: "'p prometheus \<Rightarrow> string \<Rightarrow> ('p, string) py" where
  "exporter_init P limiter_id =
     py_then (pr_register P consume_total [''limiter_id'', ''outcome''])
    (py_then (pr_register P schedule_total [''limiter_id'', ''scheduled''])
    (py_then (pr_register P remaining_tokens [''limiter_id''])
    (py_then (pr_register P active_concurrency [''limiter_id''])
    (py_then (pr_register P buffer_depth [''limiter_id''])
    (py_return limiter_id)))))"

definition consume_outcome :: "bool \<Rightarrow> bool \<Rightarrow> int \<Rightarrow> string" where
  "consume_outcome success expired remaining_tasks =
     (if expired then ''expired'' else if success then ''success'' else if remaining_tasks = 0 then ''empty'' else ''rejected'')"

definition handle_consume :: "'p prometheus \<Rightarrow> string \<Rightarrow> bool \<Rightarrow> bool \<Rightarrow> int \<Rightarrow> int \<Rightarrow> int \<Rightarrow> 'p \<Rightarrow> 'p" where
  "handle_consume P lid success expired tokens active tasks p =
     (let p1 = pr_inc P consume_total [lid, consume_outcome success expired tasks] p;
          p2 = pr_set P remaining_tokens [lid] tokens p1;
          p3 = pr_set P active_concurrency [lid] active p2
      in pr_set P buffer_depth [lid] tasks p3)"

definition handle_schedule :: "'p prometheus \<Rightarrow> string \<Rightarrow> bool \<Rightarrow> 'p \<Rightarrow> 'p" where
  "handle_schedule P lid scheduled p = pr_inc P schedule_total [lid, if scheduled then ''true'' else ''false''] p"

definition exporter_call :: "'p prometheus \<Rightarrow> string \<Rightarrow> metric \<Rightarrow> 'p \<Rightarrow> 'p" where
  "exporter_call P lid event = (case event of
     MConsume success expired tokens active reset_in_ms tasks \<Rightarrow> handle_consume P lid success expired tokens active tasks
   | MSchedule scheduled task_id \<Rightarrow> handle_schedule P lid scheduled)"

section \<open>What the library promises\<close>

locale prometheus_client =
  fixes P :: "'p prometheus" and registered :: "'p \<Rightarrow> string set" and sample :: "'p \<Rightarrow> string \<Rightarrow> string list \<Rightarrow> int"
  assumes register_new: "n \<notin> registered p \<Longrightarrow>
      \<exists>p'. pr_register P n ls p = (Inr (), p') \<and> registered p' = insert n (registered p) \<and> sample p' = (sample p)(n := \<lambda>_. 0)"
    and register_dup: "n \<in> registered p \<Longrightarrow> pr_register P n ls p = (Inl ValueError, p)"
    and inc: "n \<in> registered p \<Longrightarrow> registered (pr_inc P n ls p) = registered p \<and>
      sample (pr_inc P n ls p) = (sample p)(n := (sample p n)(ls := sample p n ls + 1))"
    and set: "n \<in> registered p \<Longrightarrow> registered (pr_set P n ls v p) = registered p \<and>
      sample (pr_set P n ls v p) = (sample p)(n := (sample p n)(ls := v))"
begin

lemma handle_consume_samples:
  assumes "families \<subseteq> registered p"
  shows "families \<subseteq> registered (handle_consume P lid su ex tok ac n p)"
    and "sample (handle_consume P lid su ex tok ac n p) =
      (sample p)(consume_total := (sample p consume_total)
          ([lid, consume_outcome su ex n] := sample p consume_total [lid, consume_outcome su ex n] + 1),
        remaining_tokens := (sample p remaining_tokens)([lid] := tok),
        active_concurrency := (sample p active_concurrency)([lid] := ac), buffer_depth := (sample p buffer_depth)([lid] := n))"
  using assms unfolding families_def handle_consume_def Let_def
  by (simp_all add: inc set) (simp add: fun_eq_iff family_defs)

lemma handle_schedule_samples:
  assumes "families \<subseteq> registered p"
  shows "families \<subseteq> registered (handle_schedule P lid b p)"
    and "sample (handle_schedule P lid b p) = (sample p)(schedule_total := (sample p schedule_total)
      ([lid, if b then ''true'' else ''false''] := sample p schedule_total [lid, if b then ''true'' else ''false''] + 1))"
  using assms by (simp_all add: families_def handle_schedule_def inc)

lemma exporter_call_ok: "families \<subseteq> registered p \<Longrightarrow> families \<subseteq> registered (exporter_call P lid e p)"
  by (cases e) (simp_all add: exporter_call_def handle_consume_samples handle_schedule_samples)

text \<open>An exporter can be built once on a registry.\<close>

lemma register_then_fails:
  assumes "n \<in> registered p \<or> (\<forall>p'. registered p' = insert n (registered p) \<longrightarrow> fst (m p') = Inl ValueError)"
  shows "fst (py_then (pr_register P n ls) (m :: ('p, string) py) p) = Inl ValueError"
proof (cases "n \<in> registered p")
  case True
  then show ?thesis using register_dup [OF True] by (simp add: py_then_def py_bind_def)
next
  case False
  from register_new [OF this] obtain p' where "pr_register P n ls p = (Inr (), p')" "registered p' = insert n (registered p)" by blast
  then show ?thesis using assms False by (simp add: py_then_def py_bind_def)
qed

lemma exporter_init_fresh:
  assumes "registered p \<inter> families = {}"
  shows "\<exists>p'. exporter_init P lid p = (Inr lid, p') \<and> families \<subseteq> registered p' \<and>
    (\<forall>ls. sample p' consume_total ls = 0 \<and> sample p' schedule_total ls = 0)"
proof -
  have new: "consume_total \<notin> registered p" "schedule_total \<notin> registered p" "remaining_tokens \<notin> registered p"
      "active_concurrency \<notin> registered p" "buffer_depth \<notin> registered p"
    using assms by (auto simp: families_def)
  obtain p1 where 1: "pr_register P consume_total [''limiter_id'', ''outcome''] p = (Inr (), p1)"
      "registered p1 = insert consume_total (registered p)" "sample p1 = (sample p)(consume_total := \<lambda>_. 0)"
    using register_new [OF new(1)] by blast
  have n2: "schedule_total \<notin> registered p1" using new family_neq by (auto simp: 1(2))
  obtain p2 where 2: "pr_register P schedule_total [''limiter_id'', ''scheduled''] p1 = (Inr (), p2)"
      "registered p2 = insert schedule_total (registered p1)" "sample p2 = (sample p1)(schedule_total := \<lambda>_. 0)"
    using register_new [OF n2] by blast
  have n3: "remaining_tokens \<notin> registered p2" using new family_neq by (auto simp: 1(2) 2(2))
  obtain p3 where 3: "pr_register P remaining_tokens [''limiter_id''] p2 = (Inr (), p3)"
      "registered p3 = insert remaining_tokens (registered p2)" "sample p3 = (sample p2)(remaining_tokens := \<lambda>_. 0)"
    using register_new [OF n3] by blast
  have n4: "active_concurrency \<notin> registered p3" using new family_neq by (auto simp: 1(2) 2(2) 3(2))
  obtain p4 where 4: "pr_register P active_concurrency [''limiter_id''] p3 = (Inr (), p4)"
      "registered p4 = insert active_concurrency (registered p3)" "sample p4 = (sample p3)(active_concurrency := \<lambda>_. 0)"
    using register_new [OF n4] by blast
  have n5: "buffer_depth \<notin> registered p4" using new family_neq by (auto simp: 1(2) 2(2) 3(2) 4(2))
  obtain p5 where 5: "pr_register P buffer_depth [''limiter_id''] p4 = (Inr (), p5)"
      "registered p5 = insert buffer_depth (registered p4)" "sample p5 = (sample p4)(buffer_depth := \<lambda>_. 0)"
    using register_new [OF n5] by blast
  have "exporter_init P lid p = (Inr lid, p5)" by (simp add: exporter_init_def py_then_def py_bind_def py_return_def 1(1) 2(1) 3(1) 4(1) 5(1))
  moreover have "sample p5 consume_total ls = 0 \<and> sample p5 schedule_total ls = 0" for ls
    using 1(3) 2(3) 3(3) 4(3) 5(3) family_neq by simp
  moreover have "families \<subseteq> registered p5" by (simp add: 1(2) 2(2) 3(2) 4(2) 5(2) families_def)
  ultimately show ?thesis by blast
qed

lemma exporter_init_twice:
  assumes "registered p \<inter> families \<noteq> {}"
  shows "fst (exporter_init P lid p) = Inl ValueError"
proof -
  let ?E = "Inl ValueError"
  let ?m5 = "py_then (pr_register P buffer_depth [''limiter_id'']) (py_return lid)"
  let ?m4 = "py_then (pr_register P active_concurrency [''limiter_id'']) (?m5)"
  let ?m3 = "py_then (pr_register P remaining_tokens [''limiter_id'']) (?m4)"
  let ?m2 = "py_then (pr_register P schedule_total [''limiter_id'', ''scheduled'']) (?m3)"
  let ?m1 = "py_then (pr_register P consume_total [''limiter_id'', ''outcome'']) (?m2)"
  have m5: "fst (?m5 q) = ?E" if "buffer_depth \<in> registered q" for q
    by (rule register_then_fails) (use that in auto)
  have m4: "fst (?m4 q) = ?E" if "active_concurrency \<in> registered q \<or> buffer_depth \<in> registered q" for q
    by (rule register_then_fails) (use that m5 in auto)
  have m3: "fst (?m3 q) = ?E" if "remaining_tokens \<in> registered q \<or> active_concurrency \<in> registered q \<or> buffer_depth \<in> registered q" for q
    by (rule register_then_fails) (use that m4 in auto)
  have m2: "fst (?m2 q) = ?E" if "schedule_total \<in> registered q \<or> remaining_tokens \<in> registered q \<or> active_concurrency \<in> registered q \<or> buffer_depth \<in> registered q" for q
    by (rule register_then_fails) (use that m3 in auto)
  have m1: "fst (?m1 q) = ?E" if "consume_total \<in> registered q \<or> schedule_total \<in> registered q \<or> remaining_tokens \<in> registered q \<or> active_concurrency \<in> registered q \<or> buffer_depth \<in> registered q" for q
    by (rule register_then_fails) (use that m2 in auto)
  have "consume_total \<in> registered p \<or> schedule_total \<in> registered p \<or> remaining_tokens \<in> registered p \<or> active_concurrency \<in> registered p \<or> buffer_depth \<in> registered p"
    using assms by (auto simp: families_def)
  then show ?thesis unfolding exporter_init_def by (rule m1)
qed

text \<open>After any events, a counter has grown by the number of events of its outcome.\<close>

lemma outcome_counts:
  assumes "families \<subseteq> registered p"
  shows "sample (fold (exporter_call P lid) es p) consume_total [lid, v] = sample p consume_total [lid, v] +
    int (length (filter (\<lambda>e. case e of MConsume su ex tok ac rs n \<Rightarrow> consume_outcome su ex n = v | _ \<Rightarrow> False) es))"
  using assms
proof (induction es arbitrary: p)
  case (Cons e es)
  have one: "sample (exporter_call P lid e p) consume_total [lid, v] = sample p consume_total [lid, v] +
      (case e of MConsume su ex tok ac rs n \<Rightarrow> if consume_outcome su ex n = v then 1 else 0 | _ \<Rightarrow> 0)"
    using family_neq Cons.prems
    by (cases e) (simp_all add: exporter_call_def handle_consume_samples handle_schedule_samples)
  show ?case using Cons.IH [OF exporter_call_ok [OF Cons.prems]] one by (simp split: metric.split)
qed simp

end

section \<open>An executable registry\<close>

record mem_prometheus =
  mp_names :: "string list"
  mp_sample :: "string \<Rightarrow> string list \<Rightarrow> int"

definition mem_prom :: "mem_prometheus prometheus" where
  "mem_prom = \<lparr>
     pr_register = (\<lambda>n ls p. if n \<in> set (mp_names p) then (Inl ValueError, p)
        else (Inr (), p\<lparr>mp_names := n # mp_names p, mp_sample := (mp_sample p)(n := \<lambda>_. 0)\<rparr>)),
     pr_inc = (\<lambda>n ls p. p\<lparr>mp_sample := (mp_sample p)(n := (mp_sample p n)(ls := mp_sample p n ls + 1))\<rparr>),
     pr_set = (\<lambda>n ls v p. p\<lparr>mp_sample := (mp_sample p)(n := (mp_sample p n)(ls := v))\<rparr>)\<rparr>"

interpretation prom: prometheus_client mem_prom "\<lambda>p. set (mp_names p)" mp_sample
  by unfold_locales (simp_all add: mem_prom_def)

section \<open>What a consumed reply is reported as\<close>

text \<open>The limiter's callback, as a record of the events.\<close>

definition records_metrics :: "'c env \<Rightarrow> bool" where
  "records_metrics E = (\<forall>d. e_callback E d = py_modify (\<lambda>w. w\<lparr>w_metrics := w_metrics w @ [d]\<rparr>))"

lemma consume_emits:
  assumes "l_metrics_callback (w_lim w)" "records_metrics E" "consume E w = (Inr q, w')"
  shows "w_metrics w' = w_metrics w @ [MConsume (q_success q) (q_expired q) (q_remaining_tokens q) (q_active_concurrency q)
    (q_reset_in_ms q) (q_remaining_tasks q)]"
proof -
  obtain rep w1 where c: "call_script E (consume_call (w_lim w)) w = (rep, w1)" by force
  then have w1: "w_metrics w1 = w_metrics w" "w_lim w1 = w_lim w" by (auto simp: call_script_def on_scripts_def split: prod.splits)
  obtain rr where rr: "rep = Inr rr" using assms(3) c by (cases rep) (auto simp: consume_def py_simps)
  obtain t where t: "rr = RepConsume t" using assms(3) c rr by (cases rr) (auto simp: consume_def py_simps)
  obtain lt w2 where l: "load_task (cr_task t) w1 = (lt, w2)" by force
  then have w2: "w2 = w1" by (simp add: load_task_frame)
  obtain task where task: "lt = Inr task" using assms(3) c rr t l by (cases lt) (auto simp: consume_def py_simps)
  show ?thesis using assms c rr t l task w2 w1
    by (auto simp: consume_def py_bind_def py_get_def emit_metric_def py_then_def py_catch_def py_modify_def py_return_def records_metrics_def Let_def)
qed

lemma reply_buffer:
  assumes sv: "redis_server R look el" and ty: "typed i (look s)" and ok: "call_ok i a" and bo: "buffer_ok i decode (look s)"
    and run: "consume_lua R decode a s = (Inr t, s')"
  shows "if cr_status t = - 3 then cr_buffer t = 0 else cr_buffer t = int (length (zset_of (look s' (buffer_key i))))"
proof -
  let ?n = "int (length (live_leases (fst (r_TIME R s)) (look s) i))"
  show ?thesis
  proof (rule redis_server.consume_cases [OF sv ty ok bo])
    fix s1
    assume "consume_lua R decode a s = (Inr (yield_reply ?n), s1)"
    then show ?thesis using run by (auto simp: yield_reply_def)
  next
    fix s1
    assume "consume_lua R decode a s = (Inr (ks_telemetry i a (lua_now_ms R s) ?n (look s)), s1)"
      and "look s1 = called_ks i a (fst (r_TIME R s)) (clock_ms R s) (look s)"
    then show ?thesis using run by (auto simp: ks_telemetry_def Let_def)
  next
    fix s1 t1 raw td
    assume c: "consume_lua R decode a s = (Inr t1, s1)" and h: "zhead (zset_of (look s (buffer_key i))) = Some raw"
      and sp: "(t1, look s1) = head_spec i a raw td (fst (r_TIME R s)) (lua_now_ms R s) (clock_ms R s)
          (ks_telemetry i a (lua_now_ms R s) ?n (look s)) (popped_ks i raw (called_ks i a (fst (r_TIME R s)) (clock_ms R s) (look s)))"
    have eq: "t1 = t" "s1 = s'" using c run by simp_all
    have z: "zinv (zset_of (look s (buffer_key i)))" using typedD(1) [OF ty] by simp
    have len: "int (length (zrem raw (zset_of (look s (buffer_key i))))) = int (length (zset_of (look s (buffer_key i)))) - 1"
      using zrem_head_length [OF z h] h by (cases "zset_of (look s (buffer_key i))") (auto simp: zhead_def)
    have "cr_buffer t = int (length (zset_of (look s (buffer_key i)))) - 1" "cr_status t \<noteq> - 3"
      using sp by (auto simp: eq head_spec_def ks_telemetry_def Let_def split: if_splits)
    moreover have "zset_of (look s' (buffer_key i)) = zrem raw (zset_of (look s (buffer_key i)))"
      using sp by (auto simp: eq head_spec_def popped_ks_def split: if_splits)
    ultimately show ?thesis using len by simp
  qed
qed

text \<open>C37. What the exporter reports of a \<^verbatim>\<open>consume\<close> call. Each call that returns emits one event, which counts under exactly one outcome: \<^verbatim>\<open>success\<close> for an
  admitted task, \<^verbatim>\<open>expired\<close> for an expired one, otherwise \<^verbatim>\<open>empty\<close> or \<^verbatim>\<open>rejected\<close> as the buffer is empty or not after the call, and the gauge for
  the buffer shows the true number of buffered tasks, except when the worker yielded to another one: then the call counts as \<^verbatim>\<open>empty\<close>
  and the gauges for the buffer and for the remaining tokens drop to zero, whatever the buffer holds.\<close>

theorem exporter_reports:
  fixes lid :: string
  assumes "redis_server R look el" "redis_client R decode (e_client E) srv loaded (e_files E) source sha1"
    and "caches_ok source sha1 (w_scripts w)" "typed (l_id (w_lim w)) (look (server_of srv w))"
    and "buffer_ok (l_id (w_lim w)) decode (look (server_of srv w))"
    and "0 < l_window (w_lim w)" "is_integral (window_ms (l_window (w_lim w)))"
    and "l_metrics_callback (w_lim w)" "records_metrics E" "consume E w = (Inr q, w')"
    and "prometheus_client P registered sample" "families \<subseteq> registered p"
  defines "p' \<equiv> fold (exporter_call P lid) (drop (length (w_metrics w)) (w_metrics w')) p"
    and "pending \<equiv> int (length (zset_of (look (server_of srv w') (buffer_key (l_id (w_lim w))))))"
  shows "\<exists>outcome. (\<forall>v. sample p' consume_total [lid, v] = sample p consume_total [lid, v] + (if v = outcome then 1 else 0)) \<and>
    (if q_yielded q then outcome = ''empty'' \<and> sample p' buffer_depth [lid] = 0 \<and> sample p' remaining_tokens [lid] = 0
     else outcome = (if q_success q then ''success'' else if q_expired q then ''expired'' else if pending = 0 then ''empty'' else ''rejected'') \<and>
       sample p' buffer_depth [lid] = pending \<and> sample p' remaining_tokens [lid] = q_remaining_tokens q)"
proof -
  let ?i = "l_id (w_lim w)" and ?s = "server_of srv w"
  have cb: "keeps_limiter (e_callback E d)" for d using assms(9) by (simp add: records_metrics_def keeps_limiter_def py_modify_def)
  obtain t task where t: "consume_lua R decode (drain_args (w_lim w)) ?s = (Inr t, server_of srv w')" "q = to_result t task"
    using consume_returns [OF assms(2,3) cb assms(10)] by blast
  have ok: "call_ok ?i (drain_args (w_lim w))" by (rule drain_args_ok [OF assms(6,7)])
  note buf = reply_buffer [OF assms(1,4) ok assms(5) t(1)]
  have yld: "cr_status t = - 3 \<Longrightarrow> cr_remaining t = 0"
    by (rule redis_server.consume_cases [OF assms(1,4) ok assms(5)])
      (use t(1) in \<open>auto simp: yield_reply_def ks_telemetry_def head_spec_def Let_def split: if_splits\<close>)
  let ?o = "consume_outcome (q_success q) (q_expired q) (q_remaining_tasks q)"
  have p': "p' = handle_consume P lid (q_success q) (q_expired q) (q_remaining_tokens q) (q_active_concurrency q) (q_remaining_tasks q) p"
    using consume_emits [OF assms(8,9,10)] by (simp add: p'_def exporter_call_def)
  note smp = prometheus_client.handle_consume_samples(2) [OF assms(11,12)]
  have "sample p' consume_total [lid, v] = sample p consume_total [lid, v] + (if v = ?o then 1 else 0)" for v
    unfolding p' smp using family_neq by simp
  moreover have "sample p' buffer_depth [lid] = q_remaining_tasks q" "sample p' remaining_tokens [lid] = q_remaining_tokens q"
    unfolding p' smp using family_neq by simp_all
  ultimately show ?thesis using buf yld
    by (intro exI [of _ ?o]) (auto simp: consume_outcome_def t(2) to_result_def pending_def split: if_splits)
qed

text \<open>A worker that yields while two members are buffered.\<close>

definition demo_metered :: "conn world" where
  "demo_metered = (demo_world [] demo_rival)\<lparr>w_lim := demo_limiter\<lparr>l_metrics_callback := True\<rparr>\<rparr>"

definition demo_prom :: mem_prometheus where
  "demo_prom = snd (exporter_init mem_prom ''lim'' \<lparr>mp_names = [], mp_sample = (\<lambda>_ _. 0)\<rparr>)"

lemma demo_metered_yield: "\<exists>w'. consume (demo_env_for demo_decode) demo_metered = (Inr (to_result (yield_reply 0) None), w')"
proof -
  let ?E = "demo_env_for demo_decode"
  have lim: "drain_args (w_lim demo_metered) = demo_args" by (simp add: demo_metered_def drain_args_def demo_args_def buffer_key_def concurrency_key_def dlq_key_def)
  have "run_script mem_redis demo_decode (CallConsume demo_args) demo_rival = (Inr (RepConsume (yield_reply 0)), snd demo_yield)"
    using demo_yield_reply by (simp add: run_consume demo_yield_def)
  then obtain w1 where c: "call_script ?E (CallConsume demo_args) demo_metered = (Inr (RepConsume (yield_reply 0)), w1)" "w_lim w1 = w_lim demo_metered"
    using demo_call [of demo_decode "CallConsume demo_args" demo_rival]
    by (auto simp: call_script_def on_scripts_def demo_metered_def split: prod.splits)
  then show ?thesis
    by (simp add: consume_def py_bind_def py_get_def py_return_def consume_call_eq lim load_task_def Let_def py_then_def emit_metric_def py_catch_def
        py_modify_def)
qed

theorem exporter_reports_witness:
  "\<exists>w'. consume (demo_env_for demo_decode) demo_metered = (Inr (to_result (yield_reply 0) None), w') \<and>
     mp_sample (fold (exporter_call mem_prom ''lim'') (w_metrics w') demo_prom) consume_total [''lim'', ''empty''] =
       mp_sample demo_prom consume_total [''lim'', ''empty''] + 1 \<and>
     length (zset_of (ks demo_rival (buffer_key ''lim''))) = 2"
proof -
  let ?E = "demo_env_for demo_decode"
  obtain w' where run: "consume ?E demo_metered = (Inr (to_result (yield_reply 0) None), w')" using demo_metered_yield by blast
  have cl: "redis_client mem_redis demo_decode (e_client ?E) cn_mem (\<lambda>c. set (cn_loaded c)) (e_files ?E) mem_source mem_sha1"
    using mc.redis_client_axioms by simp
  have ok: "caches_ok mem_source mem_sha1 (w_scripts demo_metered)" "typed (l_id (w_lim demo_metered)) (ks (server_of cn_mem demo_metered))"
      "buffer_ok (l_id (w_lim demo_metered)) demo_decode (ks (server_of cn_mem demo_metered))"
      "0 < l_window (w_lim demo_metered)" "is_integral (window_ms (l_window (w_lim demo_metered)))" "l_metrics_callback (w_lim demo_metered)"
    using demo_world_simps(1) [of mem_source mem_sha1 "[]" demo_rival]
    by (simp_all add: demo_metered_def server_of_def demo_world_def window_ms_def is_integral_def)
  have rec: "records_metrics ?E" by (simp add: records_metrics_def)
  have fam: "families \<subseteq> set (mp_names demo_prom)"
    using prom.exporter_init_fresh [of "\<lparr>mp_names = [], mp_sample = (\<lambda>_ _. 0)\<rparr>" "''lim''"] by (auto simp: demo_prom_def)
  have yl: "q_yielded (to_result (yield_reply 0) None)" by (simp add: to_result_def yield_reply_def)
  have m: "w_metrics demo_metered = []" by (simp add: demo_metered_def demo_world_def)
  show ?thesis
    using exporter_reports [OF mem.redis_server_axioms cl ok rec run prom.prometheus_client_axioms fam, of "''lim''"] run yl
    by (auto simp: m demo_rival_reads)
qed

end
