(* ===== verification/Progress.thy ===== *)
theory Progress
  imports System Drain_Props
begin

text \<open>
  Progress of the whole system: no reachable state makes a script fail, and draining ends. The workers that share a limiter call
  \<^verbatim>\<open>consume.lua\<close> in any order and at any time; a chain is such a sequence of calls, with their replies, while nobody schedules.
\<close>

section \<open>Scripts do not go wrong\<close>

lemma consume_reply_shape:
  assumes sv: "redis_server R look el" and ty: "typed i (look s)" and ok: "call_ok i a" and bo: "buffer_ok i decode (look s)"
  shows "\<exists>t s'. consume_lua R decode a s = (Inr t, s') \<and> typed i (look s') \<and> buffer_ok i decode (look s') \<and>
    cr_status t \<in> {1, 0, - 1, - 2, - 3} \<and>
    (case cr_task t of None \<Rightarrow> cr_status t \<noteq> 1 | Some raw \<Rightarrow> cr_status t = 1 \<and> (\<exists>td. decode raw = Some td \<and> member_ok i td))"
proof -
  obtain r s' where run: "consume_lua R decode a s = (r, s')" by force
  obtain t where t: "r = Inr t" and sp: "(t, look s') = spec_at R look i decode a s"
    by (rule consume_specE [OF sv ty ok bo run])
  have s': "typed i (look s')" using typed_consume_ks [OF ty] sp by (metis snd_conv)
  have shape: "cr_status t \<in> {0, - 3} \<and> cr_task t = None \<or> (\<exists>raw td. zhead (zset_of (look s (buffer_key i))) = Some raw \<and>
      decode raw = Some td \<and> (cr_status t = 1 \<and> cr_task t = Some raw \<or> cr_status t \<in> {- 1, - 2} \<and> cr_task t = None))"
    using consume_ks_fate [OF sp ty] by (simp split: if_splits) blast+
  have "member_ok i td" if "zhead (zset_of (look s (buffer_key i))) = Some raw" "decode raw = Some td" for raw td
    using bo that by (cases "zset_of (look s (buffer_key i))") (auto simp: buffer_ok_def zhead_def split: option.splits)
  then show ?thesis using run t s' shape buffer_ok_consume_ks [OF sp ty bo] by (cases "cr_task t") auto
qed

text \<open>The tasks that the Python code schedules: any function path and payload, and the markers of inline acquisitions with their timeout.\<close>

definition task_written :: "string \<Rightarrow> (string \<times> json) list \<Rightarrow> int option \<Rightarrow> bool" where
  "task_written fp payload ov = (json_ok (JObj payload) \<and> (case ov of None \<Rightarrow> True | Some m \<Rightarrow> \<bar>m\<bar> < 10 ^ 14) \<and>
     (fp = acquire_marker \<longrightarrow> (case jget payload ''_acquire_timeout_ms'' of Some (JInt n) \<Rightarrow> 0 < n | _ \<Rightarrow> False)))"

lemma acquire_written:
  "1 / 1000 \<le> timeout \<Longrightarrow> task_written acquire_marker (acquire_payload u timeout) (Some n) = (\<bar>n\<bar> < 10 ^ 14)"
  by (simp add: task_written_def acquire_payload_def jget_def)

lemma json_num_acquire:
  "(case jget payload k of Some (JInt n) \<Rightarrow> 0 < n | _ \<Rightarrow> False) \<Longrightarrow>
    (case json_num (jget payload k) of Some t \<Rightarrow> is_integral t \<and> 0 < t | None \<Rightarrow> False)"
  by (auto simp: json_num_def split: option.splits json.splits)

lemma schedule_written:
  assumes sv: "redis_server R look el" and t: "task_written fp payload ov"
  shows "lim_step R look el json_task i window limit cap (s, adm)
    (schedule_lua R (buffer_key i) (get_task_data_str i u fp payload) p (map_option of_int ov) s, adm)"
proof (rule step_schedule)
  have now: "\<bar>lua_now_ms R s\<bar> < 10 ^ 14" using redis_server.now_clock(3,4) [OF sv, of s] by linarith
  have "\<And>m. ov = Some m \<Longrightarrow> \<bar>m\<bar> < 10 ^ 14" "json_ok (JObj payload)" using t by (auto simp: task_written_def)
  then show "json_task (inject_metadata (get_task_data_str i u fp payload) (of_int (lua_now_ms R s)) (map_option of_int ov)) =
      Some \<lparr>td_id = u, td_func_path = fp, td_inflight_key = get_inflight_key i u, td_arrived_at = of_int (lua_now_ms R s),
        td_max_age = map_option of_int ov, td_timeout_ms = json_num (jget payload ''_acquire_timeout_ms'')\<rparr>"
    by (intro task_text_decodes now)
  show "member_ok i \<lparr>td_id = u, td_func_path = fp, td_inflight_key = get_inflight_key i u, td_arrived_at = of_int (lua_now_ms R s),
        td_max_age = map_option of_int ov, td_timeout_ms = json_num (jget payload ''_acquire_timeout_ms'')\<rparr>"
    using t json_num_acquire by (simp add: member_ok_def task_written_def)
qed

section \<open>Draining ends\<close>

inductive consume_chain :: "'s redis \<Rightarrow> cjson \<Rightarrow> ('s \<Rightarrow> 's \<Rightarrow> bool) \<Rightarrow> string \<Rightarrow> 's \<Rightarrow> consume_reply list \<Rightarrow> 's \<Rightarrow> bool"
  for R decode el i where
  chain_end: "consume_chain R decode el i s [] s"
| chain_time: "el s s1 \<Longrightarrow> consume_chain R decode el i s1 ts s' \<Longrightarrow> consume_chain R decode el i s ts s'"
| chain_call: "call_ok i a \<Longrightarrow> consume_lua R decode a s = (Inr t, s1) \<Longrightarrow> consume_chain R decode el i s1 ts s' \<Longrightarrow>
    consume_chain R decode el i s (t # ts) s'"

text \<open>Some worker would have to yield.\<close>

definition may_yield :: "string \<Rightarrow> keyspace \<Rightarrow> bool" where
  "may_yield i K = (\<exists>w. must_yield w (str_of (K (last_consumer_key i))) (str_of (K (last_caller_key i))))"

lemma may_yield_alive: "may_yield i (\<lambda>k. alive_at c (K k)) \<Longrightarrow> may_yield i K"
  using str_of_alive [of c] unfolding may_yield_def must_yield_def by (metis option.distinct(1))

lemma may_yield_after:
  assumes "(t, K') = consume_ks i decode a ts now c K" "cr_status t = - 3"
  shows "may_yield i K" "\<not> may_yield i K'" "K' (buffer_key i) = K (buffer_key i)"
  using consume_ks_yield [OF assms] by (auto simp: may_yield_def must_yield_def)

lemma chain_bound:
  assumes sv: "redis_server R look el" and ch: "consume_chain R decode el i s ts s'"
  shows "typed i (look s) \<Longrightarrow> buffer_ok i decode (look s) \<Longrightarrow> 0 \<notin> cr_status ` set ts \<Longrightarrow>
    length ts \<le> 2 * length (zset_of (look s (buffer_key i))) + (if may_yield i (look s) then 1 else 0)"
  using ch
proof (induction rule: consume_chain.induct)
  case (chain_time s s1 ts s')
  have k: "look s1 = (\<lambda>k. alive_at (clock_ms R s1) (look s k))" using redis_server.elapses [OF sv chain_time(1)] by auto
  have "length (zset_of (alive_at c e)) \<le> length (zset_of e)" for c e by (auto simp: alive_at_def split: option.split)
  then have "length (zset_of (look s1 (buffer_key i))) \<le> length (zset_of (look s (buffer_key i)))" by (simp add: k)
  moreover have "may_yield i (look s1) \<Longrightarrow> may_yield i (look s)" using may_yield_alive unfolding k by blast
  moreover have "typed i (look s1)" "buffer_ok i decode (look s1)"
    using chain_time.prems typed_alive buffer_ok_alive unfolding k by blast+
  ultimately show ?case using chain_time.IH chain_time.prems(3) by (auto split: if_splits)
next
  case (chain_call a s t s1 ts s')
  have sp: "(t, look s1) = spec_at R look i decode a s"
    by (rule consume_specE [OF sv chain_call.prems(1) chain_call(1) chain_call.prems(2) chain_call(2)]) simp
  have nx: "typed i (look s1)" "buffer_ok i decode (look s1)"
    using consume_reply_shape [OF sv chain_call.prems(1) chain_call(1) chain_call.prems(2)] chain_call(2) by auto
  note ih = chain_call.IH [OF nx]
  show ?case
  proof (cases "cr_status t = - 3")
    case True
    then show ?thesis using may_yield_after [OF sp True] ih chain_call.prems(3) by auto
  next
    case False
    then obtain raw where h: "zhead (zset_of (look s (buffer_key i))) = Some raw"
        "zset_of (look s1 (buffer_key i)) = zrem raw (zset_of (look s (buffer_key i)))"
      using consume_ks_fate [OF sp chain_call.prems(1)] chain_call.prems(3) by auto
    have z: "zinv (zset_of (look s (buffer_key i)))" using typedD(1) [OF chain_call.prems(1)] by simp
    have "0 < length (zset_of (look s (buffer_key i)))" using h(1) by (cases "zset_of (look s (buffer_key i))") (auto simp: zhead_def)
    then have "length (zset_of (look s (buffer_key i))) = Suc (length (zset_of (look s1 (buffer_key i))))"
      using zrem_head_length [OF z h(1)] unfolding h(2) by linarith
    then show ?thesis using ih chain_call.prems(3) by (auto split: if_splits)
  qed
qed simp

section \<open>Properties\<close>

text \<open>C9. Type safety. In every reachable state of a limiter that any number of workers share, every key holds a value of its type and every buffer
  member decodes, by the JSON reader, to a task of this limiter. So no call of one of the six scripts, made with the limiter's own keys and a window of whole milliseconds,
  fails there, and each leaves such a state:
  \<^verbatim>\<open>consume.lua\<close> replies with one of its five status codes, and with a task exactly for status 1, which decodes; \<^verbatim>\<open>acquire.lua\<close> admits or refuses;
  \<^verbatim>\<open>renew.lua\<close> answers 0 or 1, \<^verbatim>\<open>release.lua\<close>, for a non-empty id, a pair of these; \<^verbatim>\<open>health.lua\<close> reports the counts of admissions in the two windows and at most
  \<^verbatim>\<open>max_concurrency\<close> leases; and \<^verbatim>\<open>schedule.lua\<close> leads to a reachable state again whenever it is given a text that \<^verbatim>\<open>_get_task_data_str\<close> writes: that
  the member decodes to a task of the limiter is proved of that text, for any payload whose floats have a JSON number text and, for the marker of an
  inline acquisition, a timeout of at least a millisecond, which is what \<^verbatim>\<open>acquire\<close> writes then.\<close>

theorem system_type_safe:
  assumes "redis_server R look el" "0 < w" "w < 10 ^ 14" "window_ms window = of_int w" "0 \<le> limit" "0 \<le> cap"
    and "lim_reachable R look el json_task i window limit cap (s, adm)" "call_ok i a"
  defines "ok \<equiv> \<lambda>s. typed i (look s) \<and> buffer_ok i json_task (look s)"
    and "h \<equiv> health_lua R i (buffer_key i) (concurrency_key i) window s" and "q \<equiv> lua_now_ms R s div w"
  shows "ok s
    \<and> (\<exists>t s'. consume_lua R json_task a s = (Inr t, s') \<and> ok s' \<and> cr_status t \<in> {1, 0, - 1, - 2, - 3} \<and>
      (case cr_task t of None \<Rightarrow> cr_status t \<noteq> 1 | Some raw \<Rightarrow> cr_status t = 1 \<and> (\<exists>td. json_task raw = Some td \<and> member_ok i td)))
    \<and> (\<exists>t s'. acquire_lua R i window limit s = (Inr t, s') \<and> ok s' \<and> ar_allowed t \<in> {0, 1})
    \<and> (task_written fp payload ov \<longrightarrow>
        lim_reachable R look el json_task i window limit cap
          (schedule_lua R (buffer_key i) (get_task_data_str i u fp payload) p (map_option of_int ov) s, adm)
        \<and> ok (schedule_lua R (buffer_key i) (get_task_data_str i u fp payload) p (map_option of_int ov) s))
    \<and> (1 / 1000 \<le> timeout \<longrightarrow> task_written acquire_marker (acquire_payload u timeout) (Some n) = (\<bar>n\<bar> < 10 ^ 14))
    \<and> fst (renew_lua R (concurrency_key i) u d s) \<in> {0, 1} \<and> ok (snd (renew_lua R (concurrency_key i) u d s))
    \<and> (u \<noteq> [] \<longrightarrow> fst (release_lua R (concurrency_key i) (get_inflight_key i u) (drain_signal_channel i) u wk s) \<in> {0, 1} \<times> {0, 1}
        \<and> ok (snd (release_lua R (concurrency_key i) (get_inflight_key i u) (drain_signal_channel i) u wk s)))
    \<and> hr_current h = int (in_window w q adm) \<and> hr_previous h = int (in_window w (q - 1) adm) \<and> hr_active h \<le> cap"
proof -
  have inv: "lim_inv R look json_task i w limit cap (s, adm)" by (rule lim_inv_reachable [OF assms(1-7)])
  have good: "ok s'" if "lim_inv R look json_task i w limit cap (s', adm')" for s' adm'
    using that by (simp add: ok_def lim_inv_def)
  have ty: "typed i (look s)" "buffer_ok i json_task (look s)" using inv by (simp_all add: lim_inv_def)
  have win: "0 < window" "is_integral (window_ms window)" using assms(2,4) by (simp_all add: window_ms_pos is_integral_def)
  obtain r s' where run: "acquire_lua R i window limit s = (r, s')" by force
  have "ok s'" using lim_inv_acquire [OF assms(1-4) inv order_refl run] by (rule good)
  moreover have "\<exists>t. r = Inr t \<and> ar_allowed t \<in> {0, 1}"
    by (rule redis_server.acquire_spec [OF assms(1) ty(1) win, of limit]) (use run in auto)
  ultimately have acq: "\<exists>t s'. acquire_lua R i window limit s = (Inr t, s') \<and> ok s' \<and> ar_allowed t \<in> {0, 1}" using run by blast
  have con: "\<exists>t s'. consume_lua R json_task a s = (Inr t, s') \<and> ok s' \<and> cr_status t \<in> {1, 0, - 1, - 2, - 3} \<and>
      (case cr_task t of None \<Rightarrow> cr_status t \<noteq> 1 | Some raw \<Rightarrow> cr_status t = 1 \<and> (\<exists>td. json_task raw = Some td \<and> member_ok i td))"
    using consume_reply_shape [OF assms(1) ty(1) assms(8) ty(2)] by (simp add: ok_def)
  have sch: "lim_reachable R look el json_task i window limit cap
      (schedule_lua R (buffer_key i) (get_task_data_str i u fp payload) p (map_option of_int ov) s, adm)" if "task_written fp payload ov"
    by (rule reach_step [OF assms(7)]) (rule schedule_written [OF assms(1) that])
  have ren: "fst (renew_lua R (concurrency_key i) u d s) \<in> {0, 1}" "ok (snd (renew_lua R (concurrency_key i) u d s))"
    using redis_server.renew_spec [OF assms(1) ty(1), of u d] good [OF lim_inv_renew [OF assms(1) inv, of u d]]
    by (simp_all split: if_splits)
  have rel: "fst (release_lua R (concurrency_key i) (get_inflight_key i u) (drain_signal_channel i) u wk s) \<in> {0, 1} \<times> {0, 1}" if "u \<noteq> []"
    by (rule redis_server.release_spec [OF assms(1) ty(1) that, of "drain_signal_channel i" wk]) simp
  have hlt: "hr_current h = int (in_window w q adm) \<and> hr_previous h = int (in_window w (q - 1) adm) \<and> hr_active h \<le> cap"
    using redis_server.health_spec [OF assms(1) ty(1), of window] inv
      redis_server.counters_now [OF assms(1), of i w s adm] assms(2-4) by (simp add: h_def q_def Let_def lim_inv_def)
  show ?thesis
    using con acq sch ren rel hlt good [OF inv] good [OF lim_inv_reachable [OF assms(1-6) sch]]
      good [OF lim_inv_release [OF assms(1) inv]] acquire_written [of timeout u n] by blast
qed

text \<open>From an empty server: scheduling a task leads to a state in which it can be consumed.\<close>

theorem system_type_safe_witness:
  "buffer_ok ''lim'' json_task (ks (schedule_lua mem_redis (buffer_key ''lim'')
      (get_task_data_str ''lim'' ''t1'' ''app.work'' [(''x'', JInt 3)]) 5 (map_option of_int None) (mem_start 1700000000)))"
proof -
  have r: "lim_reachable mem_redis ks mem_elapses json_task ''lim'' 1 2 1 (mem_start 1700000000, [])"
    by (rule reach_start) (simp add: mem_start_def)
  have "task_written ''app.work'' [(''x'', JInt 3)] None" by (simp add: task_written_def acquire_marker_def)
  then show ?thesis
    using system_type_safe [OF mem.redis_server_axioms _ _ _ _ _ r demo_call_ok, of 1000 "''app.work''" "[(''x'', JInt 3)]" None "''t1''" 5]
    by (simp add: window_ms_def)
qed

text \<open>C10. Draining ends. However many workers call \<^verbatim>\<open>consume.lua\<close>, in whatever order and with whatever time between the calls, a sequence of calls
  none of which is refused (status 0) has at most twice as many calls as there were buffered tasks, plus one, unless somebody schedules: each
  call takes a task out of the buffer or yields, and never two yields in a row. So every worker that repeats its calls is told to stop.\<close>

theorem draining_ends:
  assumes "redis_server R look el" "typed i (look s)" "buffer_ok i decode (look s)" "consume_chain R decode el i s ts s'"
    and "0 \<notin> cr_status ` set ts"
  shows "length ts \<le> 2 * length (zset_of (look s (buffer_key i))) + 1"
  using chain_bound [OF assms(1,4,2,3,5)] by (simp split: if_splits)

theorem draining_ends_witness:
  "consume_chain mem_redis demo_decode mem_elapses ''lim'' demo_mem [projr (fst demo_run)] (snd demo_run) \<and> length [projr (fst demo_run)] \<le> 5"
proof -
  have run: "consume_lua mem_redis demo_decode demo_args demo_mem = (Inr (projr (fst demo_run)), snd demo_run)"
    using demo_reply by (simp add: demo_run_eq)
  have ch: "consume_chain mem_redis demo_decode mem_elapses ''lim'' demo_mem [projr (fst demo_run)] (snd demo_run)"
    by (rule chain_call [OF demo_call_ok run chain_end])
  show ?thesis using draining_ends [OF mem.redis_server_axioms demo_typed demo_buffer_ok ch] ch by (simp add: demo_reply)
qed

end
