(* ===== verification/Kill_Matrix.thy ===== *)
theory Kill_Matrix
  imports Floats "HOL-Library.AList"
begin

text \<open>
  The record of which test kills which mutant, kept by the mutation testing scripts (\<^verbatim>\<open>scripts/mutmut_shared.py\<close>, the collectors of
  \<^verbatim>\<open>scripts/run_mutmut.py\<close> and \<^verbatim>\<open>scripts/analyze_superfluity.py\<close>). A child process runs the tests against one mutant; its collector
  sees the hooks of pytest and writes a JSON file named by the process id; the parent reads the file when the child has ended, enters it in its table
  and removes it. pytest is a parameter: for a list of arguments, the hooks it calls and its exit code. A dictionary whose order matters
  is an association list, updated in place as Python does.
\<close>

type_synonym files = "int \<rightharpoonup> string"
type_synonym fields = "(string \<times> json) list"

datatype hook =
    Collected "string list"  \<comment> \<open>\<^verbatim>\<open>pytest_collection_modifyitems\<close>\<close>
  | CallPhase string  \<comment> \<open>\<^verbatim>\<open>pytest_runtest_call\<close>\<close>
  | Report string string bool  \<comment> \<open>\<^verbatim>\<open>pytest_runtest_makereport\<close>: test, phase, whether it raised\<close>

record collector =
  kc_killed_by :: "string list"
  kc_tests_selected :: "string list"
  kc_tests_ran :: "string list"
  kc_mutant_name :: "string option"
  kc_current_test :: "string option"

definition collector_init :: "string option \<Rightarrow> collector" where
  "collector_init mutant_name = \<lparr>kc_killed_by = [], kc_tests_selected = [], kc_tests_ran = [],
     kc_mutant_name = mutant_name, kc_current_test = None\<rparr>"

definition strs :: "string list \<Rightarrow> json" where
  "strs xs = JArr (map JStr xs)"

section \<open>The child\<close>

text \<open>\<^verbatim>\<open>_extra_payload\<close> is a method that the first-killer collector overrides.\<close>

definition extra_payload :: "collector \<Rightarrow> fields" where
  "extra_payload c = []"

definition first_extra_payload :: "collector \<Rightarrow> fields" where
  "first_extra_payload c = (case kc_current_test c of Some t \<Rightarrow> [(''killed_during'', JStr t)] | None \<Rightarrow> [])"

definition payload :: "(collector \<Rightarrow> fields) \<Rightarrow> bool \<Rightarrow> string \<Rightarrow> collector \<Rightarrow> fields" where
  "payload extra partial name c =
     [(''mutant_name'', JStr name), (''killed_by'', strs (kc_killed_by c)), (''tests_selected'', strs (kc_tests_selected c)),
      (''tests_ran'', strs (kc_tests_ran c)), (''partial'', JBool partial)] @ extra c"

definition write_temp_file :: "(collector \<Rightarrow> fields) \<Rightarrow> int \<Rightarrow> bool \<Rightarrow> collector \<Rightarrow> files \<Rightarrow> files" where
  "write_temp_file extra pid partial c fs = (case kc_mutant_name c of
     None \<Rightarrow> fs
   | Some name \<Rightarrow>
       if \<not> partial \<and> kc_killed_by c = [] \<and> kc_tests_selected c = [] then fs
       else fs(pid \<mapsto> json_dumps (JObj (payload extra partial name c))))"

definition modifyitems :: "string list \<Rightarrow> collector \<Rightarrow> collector" where
  "modifyitems items c = c\<lparr>kc_tests_selected := items\<rparr>"

definition makereport :: "(collector \<Rightarrow> fields) \<Rightarrow> int \<Rightarrow> string \<Rightarrow> string \<Rightarrow> bool \<Rightarrow> collector \<times> files \<Rightarrow> collector \<times> files" where
  "makereport extra pid item phase raised x = (case x of (c, fs) \<Rightarrow>
     if phase = ''call''
     then (let c1 = c\<lparr>kc_tests_ran := kc_tests_ran c @ [item]\<rparr>
           in if raised
              then (let c2 = c1\<lparr>kc_killed_by := kc_killed_by c1 @ [item]\<rparr>
                    in (c2, if kc_mutant_name c2 \<noteq> None then write_temp_file extra pid False c2 fs else fs))
              else (c1, fs))
     else (c, fs))"

definition first_runtest_call :: "string \<Rightarrow> collector \<Rightarrow> collector" where
  "first_runtest_call item c = c\<lparr>kc_current_test := Some item\<rparr>"

definition first_makereport :: "int \<Rightarrow> string \<Rightarrow> string \<Rightarrow> bool \<Rightarrow> collector \<times> files \<Rightarrow> collector \<times> files" where
  "first_makereport pid item phase raised x = (case makereport first_extra_payload pid item phase raised x of (c, fs) \<Rightarrow>
     (if phase = ''call'' then c\<lparr>kc_current_test := None\<rparr> else c, fs))"

text \<open>pytest calls the hooks that a plugin has.\<close>

fun full_hook :: "int \<Rightarrow> hook \<Rightarrow> collector \<times> files \<Rightarrow> collector \<times> files" where
  "full_hook pid (Collected items) (c, fs) = (modifyitems items c, fs)"
| "full_hook pid (CallPhase item) x = x"
| "full_hook pid (Report item phase raised) x = makereport extra_payload pid item phase raised x"

fun first_hook :: "int \<Rightarrow> hook \<Rightarrow> collector \<times> files \<Rightarrow> collector \<times> files" where
  "first_hook pid (Collected items) (c, fs) = (modifyitems items c, fs)"
| "first_hook pid (CallPhase item) (c, fs) = (first_runtest_call item c, fs)"
| "first_hook pid (Report item phase raised) x = first_makereport pid item phase raised x"

text \<open>The two versions of \<^verbatim>\<open>_patched_run_tests\<close>. A \<^verbatim>\<open>SIGXCPU\<close> flushes what has been seen so far.\<close>

definition safety_net_files :: "string list" where
  "safety_net_files = [''tests/implementations/test_async_loop_safety_net.py'', ''tests/implementations/test_loop_safety_net.py'']"

definition is_safety_net_test :: "string \<Rightarrow> bool" where
  "is_safety_net_test nodeid = list_ex (\<lambda>f. take (length f) nodeid = f) safety_net_files"

definition base_args :: "string list" where
  "base_args = [''-q'', ''-p'', ''no:randomly'', ''-p'', ''no:random-order'']"

definition correctness_tests :: "string list \<Rightarrow> string list \<Rightarrow> string list" where
  "correctness_tests tests selection = filter (\<lambda>t. \<not> is_safety_net_test t) (if tests \<noteq> [] then tests else selection)"

definition full_run_tests :: "(string list \<Rightarrow> hook list \<times> int) \<Rightarrow> string list \<Rightarrow> bool \<Rightarrow> int \<Rightarrow> string option \<Rightarrow> string list
    \<Rightarrow> files \<times> files \<Rightarrow> int \<times> files \<times> files" where
  "full_run_tests pytest selection skip_dir pid mutant_name tests x = (case x of (fs, skips) \<Rightarrow>
     let gate_result = snd (pytest (base_args @ [''-x''] @ safety_net_files))
     in if gate_result \<noteq> 0
        then (gate_result, write_temp_file extra_payload pid False (collector_init mutant_name) fs,
              case mutant_name of Some n \<Rightarrow> if skip_dir then skips(pid \<mapsto> n) else skips | None \<Rightarrow> skips)
        else (case pytest (base_args @ correctness_tests tests selection) of (hooks, result) \<Rightarrow>
                (case fold (full_hook pid) hooks (collector_init mutant_name, fs) of (c, fs1) \<Rightarrow>
                   (result, write_temp_file extra_payload pid False c fs1, skips))))"

definition collect_signature_test_ids :: "string list \<Rightarrow> string list option \<Rightarrow> string list \<times> string list option" where
  "collect_signature_test_ids collected cache = (case cache of Some ids \<Rightarrow> (ids, cache) | None \<Rightarrow> (collected, Some collected))"

definition first_args :: "string list \<Rightarrow> string list \<Rightarrow> string list \<Rightarrow> string list" where
  "first_args sig_ids tests selection = [''-x''] @ base_args @
     (if tests \<noteq> [] then tests @ filter (\<lambda>n. n \<notin> set tests) sig_ids else selection)"

definition first_run_tests :: "(string list \<Rightarrow> hook list \<times> int) \<Rightarrow> string list \<Rightarrow> string list \<Rightarrow> int \<Rightarrow> string option \<Rightarrow> string list
    \<Rightarrow> files \<Rightarrow> int \<times> files" where
  "first_run_tests pytest sig_ids selection pid mutant_name tests fs =
     (case pytest (first_args sig_ids tests selection) of (hooks, result) \<Rightarrow>
        (case fold (first_hook pid) hooks (collector_init mutant_name, fs) of (c, fs1) \<Rightarrow>
           (result, write_temp_file first_extra_payload pid False c fs1)))"

definition sigxcpu_handler :: "(collector \<Rightarrow> fields) \<Rightarrow> int \<Rightarrow> collector \<Rightarrow> files \<Rightarrow> files" where
  "sigxcpu_handler extra pid c fs = write_temp_file extra pid True c fs"

section \<open>The parent\<close>

record parent =
  pr_data :: "(string \<times> fields) list"
  pr_files :: files
  pr_key_by_pid :: "int \<rightharpoonup> string"
  pr_exit_code_by_key :: "string \<rightharpoonup> int option"
  pr_durations_by_key :: "string \<rightharpoonup> rat"
  pr_start_time_by_pid :: "int \<rightharpoonup> rat"

definition or_empty :: "json \<Rightarrow> json" where
  "or_empty j = (if truthy j then j else JArr [])"

definition accumulate :: "string \<Rightarrow> json \<Rightarrow> json \<Rightarrow> json \<Rightarrow> json \<Rightarrow> json \<Rightarrow> (string \<times> fields) list \<Rightarrow> (string \<times> fields) list" where
  "accumulate mutant_name killed_by tests_selected tests_ran partial killed_during data =
     AList.update mutant_name
       ([(''killed_by'', killed_by), (''tests_selected'', or_empty tests_selected), (''tests_ran'', or_empty tests_ran), (''partial'', partial)]
        @ (if killed_during \<noteq> JNull then [(''killed_during'', killed_during)] else [])) data"

definition flush :: "(string \<times> fields) list \<Rightarrow> (string \<times> fields) list option \<Rightarrow> (string \<times> fields) list option" where
  "flush data results = (if data \<noteq> [] then Some data else results)"

definition get_or :: "fields \<Rightarrow> string \<Rightarrow> json \<Rightarrow> json" where
  "get_or fs k d = (case jget fs k of Some j \<Rightarrow> j | None \<Rightarrow> d)"

text \<open>Reading one file; it is removed in any case.\<close>

definition read_file :: "string \<Rightarrow> int \<Rightarrow> (parent, unit) py" where
  "read_file key pid = py_bind (py_get (\<lambda>p. pr_files p pid)) (\<lambda>file. case file of
     None \<Rightarrow> py_return ()
   | Some t \<Rightarrow> py_finally
       (case json_loads t of
          None \<Rightarrow> py_return ()
        | Some (JObj d) \<Rightarrow>
            (let killed_by = get_or d ''killed_by'' (JArr []); tests_selected = get_or d ''tests_selected'' (JArr [])
             in py_if (truthy killed_by \<or> truthy tests_selected)
                  (py_modify (\<lambda>p. p\<lparr>pr_data := accumulate key killed_by tests_selected (get_or d ''tests_ran'' (JArr []))
                     (get_or d ''partial'' (JBool False)) (get_or d ''killed_during'' JNull) (pr_data p)\<rparr>)))
        | Some _ \<Rightarrow> py_raise AttributeError)
       (py_modify (\<lambda>p. p\<lparr>pr_files := (pr_files p)(pid := None)\<rparr>)))"

definition register_result :: "rat \<Rightarrow> int \<Rightarrow> int \<Rightarrow> (parent, unit) py" where
  "register_result time pid exit_code = py_bind (py_get (\<lambda>p. pr_key_by_pid p pid)) (\<lambda>found. case found of
     None \<Rightarrow> py_raise KeyError
   | Some key \<Rightarrow> py_then (read_file key pid)
       (py_bind (py_get (\<lambda>p. key \<in> dom (pr_exit_code_by_key p))) (\<lambda>known.
        if \<not> known then py_raise AssertionError
        else py_then (py_modify (\<lambda>p. p\<lparr>pr_exit_code_by_key := (pr_exit_code_by_key p)(key \<mapsto> Some exit_code)\<rparr>))
          (py_bind (py_get (\<lambda>p. pr_start_time_by_pid p pid)) (\<lambda>started. case started of
             None \<Rightarrow> py_raise KeyError
           | Some t0 \<Rightarrow> py_modify (\<lambda>p. p\<lparr>pr_durations_by_key := (pr_durations_by_key p)(key \<mapsto> time - t0),
               pr_key_by_pid := (pr_key_by_pid p)(pid := None), pr_start_time_by_pid := (pr_start_time_by_pid p)(pid := None)\<rparr>))))))"

section \<open>The table is exact\<close>

text \<open>What a run of pytest amounts to: the tests of its last collection, those whose call phase ended, and those that raised in it.\<close>

fun selected_of :: "string list \<Rightarrow> hook list \<Rightarrow> string list" where
  "selected_of s [] = s"
| "selected_of s (Collected items # hs) = selected_of items hs"
| "selected_of s (_ # hs) = selected_of s hs"

fun ran_in :: "hook list \<Rightarrow> string list" where
  "ran_in [] = []"
| "ran_in (Report n ph b # hs) = (if ph = ''call'' then n # ran_in hs else ran_in hs)"
| "ran_in (_ # hs) = ran_in hs"

fun killers_in :: "hook list \<Rightarrow> string list" where
  "killers_in [] = []"
| "killers_in (Report n ph b # hs) = (if ph = ''call'' \<and> b then n # killers_in hs else killers_in hs)"
| "killers_in (_ # hs) = killers_in hs"

text \<open>The file is written during the run only after a failure, and only under the own process id.\<close>

lemma write_frame: "q \<noteq> pid \<Longrightarrow> write_temp_file extra pid b c fs q = fs q"
  by (simp add: write_temp_file_def split: option.split)

lemma write_own: "\<exists>t. write_temp_file extra pid b c fs = fs(pid := t)"
  by (cases "kc_mutant_name c") (auto simp: write_temp_file_def intro: exI [of _ "fs pid"])

lemma makereport_outcome:
  assumes "makereport extra pid n ph b (c, fs) = (c1, fs1)"
  shows "kc_mutant_name c1 = kc_mutant_name c \<and> kc_tests_selected c1 = kc_tests_selected c \<and>
    kc_killed_by c1 = kc_killed_by c @ killers_in [Report n ph b] \<and> kc_tests_ran c1 = kc_tests_ran c @ ran_in [Report n ph b]"
    and "\<exists>t. fs1 = fs(pid := t) \<and> (killers_in [Report n ph b] = [] \<longrightarrow> t = fs pid)"
proof -
  show "kc_mutant_name c1 = kc_mutant_name c \<and> kc_tests_selected c1 = kc_tests_selected c \<and>
    kc_killed_by c1 = kc_killed_by c @ killers_in [Report n ph b] \<and> kc_tests_ran c1 = kc_tests_ran c @ ran_in [Report n ph b]"
    using assms by (auto simp: makereport_def Let_def split: if_splits)
  have same: "fs1 = fs \<Longrightarrow> \<exists>t. fs1 = fs(pid := t) \<and> (killers_in [Report n ph b] = [] \<longrightarrow> t = fs pid)"
    by (intro exI [of _ "fs pid"]) simp
  show "\<exists>t. fs1 = fs(pid := t) \<and> (killers_in [Report n ph b] = [] \<longrightarrow> t = fs pid)"
  proof (cases "ph = ''call'' \<and> b")
    case True
    then show ?thesis using assms write_own same by (simp add: makereport_def Let_def split: if_splits) blast
  next
    case False
    then show ?thesis using assms same by (simp add: makereport_def Let_def split: if_splits)
  qed
qed

lemma selected_append: "selected_of s (xs @ ys) = selected_of (selected_of s xs) ys"
  by (induction s xs rule: selected_of.induct) auto

lemma full_hook_outcome:
  assumes "full_hook pid h (c, fs) = (c1, fs1)"
  shows "kc_mutant_name c1 = kc_mutant_name c \<and> kc_tests_selected c1 = selected_of (kc_tests_selected c) [h] \<and>
    kc_killed_by c1 = kc_killed_by c @ killers_in [h] \<and> kc_tests_ran c1 = kc_tests_ran c @ ran_in [h] \<and>
    (\<exists>t. fs1 = fs(pid := t) \<and> (killers_in [h] = [] \<longrightarrow> t = fs pid))"
proof (cases h)
  case (Report n ph b)
  then have "makereport extra_payload pid n ph b (c, fs) = (c1, fs1)" using assms by simp
  from makereport_outcome [OF this] show ?thesis using Report by simp
qed (use assms in \<open>auto simp: modifyitems_def intro: exI [of _ "fs pid"]\<close>)

lemma hooks_Cons:
  "killers_in (h # hs) = killers_in [h] @ killers_in hs" "ran_in (h # hs) = ran_in [h] @ ran_in hs"
  "selected_of s (h # hs) = selected_of (selected_of s [h]) hs"
  by (cases h; simp)+

lemma full_run:
  assumes "fold (full_hook pid) hooks (c, fs) = (c', fs')"
  shows "kc_mutant_name c' = kc_mutant_name c \<and> kc_killed_by c' = kc_killed_by c @ killers_in hooks \<and>
    kc_tests_ran c' = kc_tests_ran c @ ran_in hooks \<and> kc_tests_selected c' = selected_of (kc_tests_selected c) hooks \<and>
    (\<exists>t. fs' = fs(pid := t) \<and> (killers_in hooks = [] \<longrightarrow> t = fs pid))"
  using assms
proof (induction hooks arbitrary: c fs)
  case Nil
  then show ?case by (auto intro: exI [of _ "fs pid"])
next
  case (Cons h hs)
  obtain c1 fs1 where h: "full_hook pid h (c, fs) = (c1, fs1)" by force
  have "fold (full_hook pid) hs (c1, fs1) = (c', fs')" using Cons.prems h by simp
  note ih = Cons.IH [OF this] and one = full_hook_outcome [OF h]
  obtain t t1 where t: "fs' = fs1(pid := t)" "killers_in hs = [] \<longrightarrow> t = fs1 pid"
    and t1: "fs1 = fs(pid := t1)" "killers_in [h] = [] \<longrightarrow> t1 = fs pid" using ih one by blast
  have "fs' = fs(pid := t) \<and> (killers_in (h # hs) = [] \<longrightarrow> t = fs pid)" unfolding hooks_Cons(1) [of h hs] using t t1 by auto
  then have "\<exists>t. fs' = fs(pid := t) \<and> (killers_in (h # hs) = [] \<longrightarrow> t = fs pid)" ..
  moreover have "kc_mutant_name c' = kc_mutant_name c" "kc_killed_by c' = kc_killed_by c @ killers_in (h # hs)"
    "kc_tests_ran c' = kc_tests_ran c @ ran_in (h # hs)" "kc_tests_selected c' = selected_of (kc_tests_selected c) (h # hs)"
    unfolding hooks_Cons(1,2) [of h hs] hooks_Cons(3) [of _ h hs] using ih one by simp_all
  ultimately show ?case by blast
qed

text \<open>What the parent makes of the file of a finished run.\<close>

definition matrix_entry :: "hook list \<Rightarrow> fields" where
  "matrix_entry hooks = [(''killed_by'', strs (killers_in hooks)), (''tests_selected'', strs (selected_of [] hooks)),
     (''tests_ran'', strs (ran_in hooks)), (''partial'', JBool False)]"

lemma strs_ok [simp]: "json_ok (strs xs)" "truthy (strs xs) \<longleftrightarrow> xs \<noteq> []" "or_empty (strs xs) = strs xs"
  by (simp_all add: strs_def truthy_def or_empty_def list_all_iff)

lemma read_payload_file:
  assumes "pr_files p pid = Some (json_dumps (JObj (payload extra_payload False m c)))" "kc_killed_by c \<noteq> [] \<or> kc_tests_selected c \<noteq> []"
  shows "read_file key pid p = (Inr (), p\<lparr>pr_data := AList.update key [(''killed_by'', strs (kc_killed_by c)),
      (''tests_selected'', strs (kc_tests_selected c)), (''tests_ran'', strs (kc_tests_ran c)), (''partial'', JBool False)] (pr_data p),
      pr_files := (pr_files p)(pid := None)\<rparr>)"
proof -
  have "json_ok (JObj (payload extra_payload False m c))" by (simp add: payload_def extra_payload_def)
  note rt = json_roundtrip [OF this]
  have get: "get_or (payload extra_payload False m c) ''killed_by'' d = strs (kc_killed_by c)"
    "get_or (payload extra_payload False m c) ''tests_selected'' d = strs (kc_tests_selected c)"
    "get_or (payload extra_payload False m c) ''tests_ran'' d = strs (kc_tests_ran c)"
    "get_or (payload extra_payload False m c) ''partial'' d = JBool False"
    "get_or (payload extra_payload False m c) ''killed_during'' d = d" for d
    by (simp_all add: get_or_def jget_def payload_def extra_payload_def)
  show ?thesis using assms rt
    by (simp add: read_file_def py_simps get accumulate_def Let_def del: json_dumps.simps)
qed

lemma register_outcome:
  assumes "pr_key_by_pid p pid = Some m" "m \<in> dom (pr_exit_code_by_key p)" "pr_start_time_by_pid p pid = Some t0"
    and "read_file m pid p = (Inr (), p\<lparr>pr_data := d, pr_files := fs\<rparr>)"
  shows "register_result time pid code p = (Inr (), p\<lparr>pr_data := d, pr_files := fs, pr_exit_code_by_key := (pr_exit_code_by_key p)(m \<mapsto> Some code),
    pr_durations_by_key := (pr_durations_by_key p)(m \<mapsto> time - t0), pr_key_by_pid := (pr_key_by_pid p)(pid := None),
    pr_start_time_by_pid := (pr_start_time_by_pid p)(pid := None)\<rparr>)"
  using assms by (simp add: register_result_def py_simps)

lemma read_no_file: "pr_files p pid = None \<Longrightarrow> read_file m pid p = (Inr (), p\<lparr>pr_data := pr_data p, pr_files := pr_files p\<rparr>)"
  by (simp add: read_file_def py_simps)

text \<open>The file that a finished full run leaves.\<close>

lemma full_run_file:
  assumes "snd (pytest (base_args @ [''-x''] @ safety_net_files)) = 0"
    and "pytest (base_args @ correctness_tests tests selection) = (hooks, result)"
    and "full_run_tests pytest selection skip pid (Some m) tests (fs0, skips) = (code, fs, skips')"
  obtains c where "code = result" "skips' = skips" "kc_killed_by c = killers_in hooks" "kc_tests_selected c = selected_of [] hooks"
    "kc_tests_ran c = ran_in hooks"
    "fs = (if killers_in hooks = [] \<and> selected_of [] hooks = [] then fs0
      else fs0(pid \<mapsto> json_dumps (JObj (payload extra_payload False m c))))"
proof -
  obtain c fs1 where run: "fold (full_hook pid) hooks (collector_init (Some m), fs0) = (c, fs1)" by force
  have c: "kc_mutant_name c = Some m" "kc_killed_by c = killers_in hooks" "kc_tests_selected c = selected_of [] hooks"
    "kc_tests_ran c = ran_in hooks" and ex: "\<exists>t. fs1 = fs0(pid := t) \<and> (killers_in hooks = [] \<longrightarrow> t = fs0 pid)"
    using full_run [OF run] by (simp_all add: collector_init_def)
  have "code = result" "skips' = skips" "fs = write_temp_file extra_payload pid False c fs1"
    using assms run by (simp_all add: full_run_tests_def Let_def)
  moreover from ex obtain t where "fs1 = fs0(pid := t)" "killers_in hooks = [] \<longrightarrow> t = fs0 pid" by blast
  ultimately show thesis using c by (intro that [of c]) (simp_all add: write_temp_file_def del: json_dumps.simps)
qed

section \<open>Properties\<close>

text \<open>The kill matrix is exact. When a child has run the tests against a mutant and the parent has registered its result, the table of the
  parent has for this mutant exactly the tests that raised in their call phase, in order, with the tests that were collected and
  those that ran; every other mutant keeps its entry, the file of the child is gone and its exit code is stored. If nothing was collected, or the safety net tests
  failed and the matrix was skipped, the table is unchanged.\<close>

theorem kill_matrix_exact:
  assumes "pytest (base_args @ correctness_tests tests selection) = (hooks, result)"
    and "full_run_tests pytest selection skip_dir pid (Some m) tests (pr_files p, skips) = (code, fs, skips')"
    and "pr_files p pid = None" "pr_key_by_pid p pid = Some m" "m \<in> dom (pr_exit_code_by_key p)" "pr_start_time_by_pid p pid = Some t0"
    and "register_result time pid code (p\<lparr>pr_files := fs\<rparr>) = (r, p')"
  defines "gate \<equiv> snd (pytest (base_args @ [''-x''] @ safety_net_files))"
  shows "r = Inr () \<and> pr_files p' = pr_files p \<and> pr_exit_code_by_key p' = (pr_exit_code_by_key p)(m \<mapsto> Some code) \<and>
    (if gate \<noteq> 0 then code = gate \<and> pr_data p' = pr_data p \<and> skips' = (if skip_dir then skips(pid \<mapsto> m) else skips)
     else code = result \<and> skips' = skips \<and> pr_data p' = (if killers_in hooks = [] \<and> selected_of [] hooks = [] then pr_data p
       else AList.update m (matrix_entry hooks) (pr_data p)))"
proof -
  let ?p = "p\<lparr>pr_files := fs\<rparr>"
  have p: "pr_key_by_pid ?p pid = Some m" "m \<in> dom (pr_exit_code_by_key ?p)" "pr_start_time_by_pid ?p pid = Some t0" using assms(4-6) by simp_all
  note reg = register_outcome [OF p, where time = time and code = code]
  have unwritten: ?thesis if "fs = pr_files p" and q: "if gate \<noteq> 0 then code = gate \<and> skips' = (if skip_dir then skips(pid \<mapsto> m) else skips)
      else code = result \<and> skips' = skips \<and> killers_in hooks = [] \<and> selected_of [] hooks = []"
    using reg [OF read_no_file] that assms(3,7) by (auto split: if_splits)
  show ?thesis
  proof (cases "gate = 0")
    case False
    then show ?thesis using assms(2) by (intro unwritten) (simp_all add: full_run_tests_def gate_def Let_def write_temp_file_def collector_init_def)
  next
    case True
    obtain c where c: "code = result" "skips' = skips" "kc_killed_by c = killers_in hooks" "kc_tests_selected c = selected_of [] hooks"
      "kc_tests_ran c = ran_in hooks" and fs: "fs = (if killers_in hooks = [] \<and> selected_of [] hooks = [] then pr_files p
        else (pr_files p)(pid \<mapsto> json_dumps (JObj (payload extra_payload False m c))))"
      using full_run_file [OF True [unfolded gate_def] assms(1,2)] .
    show ?thesis
    proof (cases "killers_in hooks = [] \<and> selected_of [] hooks = []")
      case True
      then show ?thesis using c fs \<open>gate = 0\<close> by (intro unwritten) simp_all
    next
      case False
      have "(pr_files p)(pid := None) = pr_files p" using assms(3) by (metis fun_upd_triv)
      moreover have "pr_files ?p pid = Some (json_dumps (JObj (payload extra_payload False m c)))" using fs False by auto
      note reg [OF read_payload_file [OF this]]
      ultimately show ?thesis using False True c fs assms(7)
        by (auto simp: matrix_entry_def simp del: json_dumps.simps)
    qed
  qed
qed

definition demo_pytest :: "string list \<Rightarrow> hook list \<times> int" where
  "demo_pytest args = (if ''tests/test_a.py'' \<in> set args
     then ([Collected [''t1'', ''t2'', ''t3''], Report ''t1'' ''setup'' False, Report ''t1'' ''call'' True, Report ''t2'' ''call'' False,
            Report ''t3'' ''call'' True], 1)
     else ([], 0))"

definition demo_parent :: parent where
  "demo_parent = \<lparr>pr_data = [(''m0'', [(''killed_by'', strs [])])], pr_files = Map.empty, pr_key_by_pid = [7 \<mapsto> ''m1''],
     pr_exit_code_by_key = [''m1'' \<mapsto> None], pr_durations_by_key = Map.empty, pr_start_time_by_pid = [7 \<mapsto> 10]\<rparr>"

theorem kill_matrix_exact_witness:
  "\<exists>fs skips' p'. full_run_tests demo_pytest [''tests/test_a.py''] True 7 (Some ''m1'') [] (Map.empty, Map.empty) = (1, fs, skips') \<and>
     register_result 12 7 1 (demo_parent\<lparr>pr_files := fs\<rparr>) = (Inr (), p') \<and>
     map fst (pr_data p') = [''m0'', ''m1''] \<and> jget (the (map_of (pr_data p') ''m1'')) ''killed_by'' = Some (strs [''t1'', ''t3''])"
proof -
  obtain hooks where py: "demo_pytest (base_args @ correctness_tests [] [''tests/test_a.py'']) = (hooks, 1)"
      "hooks = [Collected [''t1'', ''t2'', ''t3''], Report ''t1'' ''setup'' False, Report ''t1'' ''call'' True, Report ''t2'' ''call'' False,
        Report ''t3'' ''call'' True]"
    by (simp add: demo_pytest_def correctness_tests_def is_safety_net_test_def safety_net_files_def)
  have gate: "snd (demo_pytest (base_args @ [''-x''] @ safety_net_files)) = 0"
    by (simp add: demo_pytest_def base_args_def safety_net_files_def)
  obtain code fs skips' where run: "full_run_tests demo_pytest [''tests/test_a.py''] True 7 (Some ''m1'') [] (Map.empty, Map.empty) = (code, fs, skips')"
    using prod_cases3 by blast
  then have run': "full_run_tests demo_pytest [''tests/test_a.py''] True 7 (Some ''m1'') [] (pr_files demo_parent, Map.empty) = (code, fs, skips')"
    by (simp add: demo_parent_def)
  obtain r p' where reg: "register_result 12 7 code (demo_parent\<lparr>pr_files := fs\<rparr>) = (r, p')" by force
  have p: "pr_files demo_parent 7 = None" "pr_key_by_pid demo_parent 7 = Some ''m1''" "''m1'' \<in> dom (pr_exit_code_by_key demo_parent)"
    "pr_start_time_by_pid demo_parent 7 = Some 10" by (simp_all add: demo_parent_def)
  have "r = Inr ()" "code = 1" "pr_data p' = AList.update ''m1'' (matrix_entry hooks) (pr_data demo_parent)"
    using kill_matrix_exact [OF py(1) run' p reg] gate py(2) by simp_all
  then show ?thesis using run reg py(2) by (simp add: demo_parent_def matrix_entry_def jget_def)
qed

end
