(* ===== verification/Superfluity.thy ===== *)
theory Superfluity
  imports Kill_Matrix
begin

text \<open>
  The analysis of \<^verbatim>\<open>scripts/analyze_superfluity.py\<close>: from the table of killed mutants, the tests of a class whose kills are a strict
  subset of the kills of another test of the class, for one test file and merged over all test files. A report is a record; a key that the code leaves
  out when its list is empty (\<^verbatim>\<open>superfluous\<close>, \<^verbatim>\<open>zero_kill_tests\<close>) is the empty list, which is what its readers take for a missing key.
\<close>

section \<open>One test file\<close>

text \<open>\<^verbatim>\<open>nodeid.split("::")\<close>\<close>

fun split_colons :: "string \<Rightarrow> string list" where
  "split_colons (a # b # s) = (if a = CHR '':'' \<and> b = CHR '':'' then [] # split_colons s
     else (case split_colons (b # s) of [] \<Rightarrow> [[a]] | p # ps \<Rightarrow> (a # p) # ps))"
| "split_colons s = [s]"

definition extract_test_class :: "string \<Rightarrow> string option" where
  "extract_test_class nodeid = (let parts = split_colons nodeid in if 3 \<le> length parts then Some (parts ! 1) else None)"

definition class_of :: "string \<Rightarrow> string" where
  "class_of nodeid = (case extract_test_class nodeid of Some c \<Rightarrow> c | None \<Rightarrow> ''<module-level>'')"

text \<open>The nested \<^verbatim>\<open>defaultdict\<close>s, in insertion order.\<close>

type_synonym kill_map = "(string \<times> string set) list"

definition dget :: "'v \<Rightarrow> ('k \<times> 'v) list \<Rightarrow> 'k \<Rightarrow> 'v" where
  "dget d al k = (case map_of al k of Some v \<Rightarrow> v | None \<Rightarrow> d)"

definition record_kill :: "string \<Rightarrow> string \<Rightarrow> (string \<times> kill_map) list \<Rightarrow> (string \<times> kill_map) list" where
  "record_kill mutant test maps = (let cls = class_of test; km = dget [] maps cls
     in AList.update cls (AList.update test (insert mutant (dget {} km test)) km) maps)"

fun record_killers :: "string \<Rightarrow> json list \<Rightarrow> (string \<times> kill_map) list \<Rightarrow> exn + (string \<times> kill_map) list" where
  "record_killers mutant [] maps = Inr maps"
| "record_killers mutant (JStr test # ts) maps = record_killers mutant ts (record_kill mutant test maps)"
| "record_killers mutant (_ # ts) maps = Inl AttributeError"

fun class_kill_maps :: "(string \<times> fields) list \<Rightarrow> (string \<times> kill_map) list \<Rightarrow> exn + (string \<times> kill_map) list" where
  "class_kill_maps [] maps = Inr maps"
| "class_kill_maps ((mutant, entry) # rest) maps = (case get_or entry ''killed_by'' (JArr []) of
     JArr killers \<Rightarrow> (case record_killers mutant killers maps of Inl e \<Rightarrow> Inl e | Inr maps1 \<Rightarrow> class_kill_maps rest maps1)
   | _ \<Rightarrow> class_kill_maps rest maps)"

record superfluous =
  s_test :: string
  s_kills :: nat
  s_subsumed_by :: string
  s_subsumed_by_kills :: nat

record class_result =
  c_total_tests :: nat
  c_total_kills :: nat
  c_superfluous :: "superfluous list"
  c_zero_kill_tests :: "string list"

text \<open>The loops over \<open>i\<close> and \<open>j\<close> of one class; the inner one stops at the first subsuming test.\<close>

definition subsuming :: "nat \<Rightarrow> string set \<Rightarrow> kill_map \<Rightarrow> (string \<times> string set) option" where
  "subsuming i kills_a tests = map_option snd
     (find (\<lambda>(j, _, kills_b). \<not> (i = j \<or> kills_b = {}) \<and> kills_a \<subset> kills_b) (List.enumerate 0 tests))"

definition superfluous_tests :: "kill_map \<Rightarrow> superfluous list" where
  "superfluous_tests tests = List.map_filter (\<lambda>(i, test_a, kills_a).
     if kills_a = {} then None
     else map_option (\<lambda>(test_b, kills_b). \<lparr>s_test = test_a, s_kills = card kills_a, s_subsumed_by = test_b, s_subsumed_by_kills = card kills_b\<rparr>)
       (subsuming i kills_a tests)) (List.enumerate 0 tests)"

definition analyze_class :: "kill_map \<Rightarrow> class_result" where
  "analyze_class km = \<lparr>c_total_tests = length km, c_total_kills = sum_list (map (card \<circ> snd) km),
     c_superfluous = superfluous_tests km, c_zero_kill_tests = map fst (filter (\<lambda>(_, kills). kills = {}) km)\<rparr>"

record report =
  r_total_classes :: nat
  r_total_superfluous :: nat
  r_classes :: "(string \<times> class_result) list"

definition analyze_superfluity :: "(string \<times> fields) list \<Rightarrow> exn + report" where
  "analyze_superfluity data = (case class_kill_maps data [] of
     Inl e \<Rightarrow> Inl e
   | Inr maps \<Rightarrow> (let results = map (\<lambda>(cls, km). (cls, analyze_class km)) (sort_key fst maps)
       in Inr \<lparr>r_total_classes = length results, r_total_superfluous = sum_list (map (\<lambda>(_, c). length (c_superfluous c)) results),
            r_classes = results\<rparr>))"

section \<open>All test files\<close>

text \<open>The stem of a path: the last component without its last suffix.\<close>

definition path_stem :: "string \<Rightarrow> string" where
  "path_stem path = (let name = rev (takeWhile (\<lambda>c. c \<noteq> CHR ''/'') (rev path));
       sfx = rev (takeWhile (\<lambda>c. c \<noteq> CHR ''.'') (rev name)); n = length name - length sfx - 1
     in if CHR ''.'' \<in> set name \<and> 0 < n \<and> sfx \<noteq> [] then take n name else name)"

definition report_name :: "string \<Rightarrow> string" where
  "report_name test_file = ''superfluity-'' @ path_stem test_file @ ''.json''"

definition remove_prefix :: "string \<Rightarrow> string \<Rightarrow> string" where
  "remove_prefix p s = (if take (length p) s = p then drop (length p) s else s)"

definition write_report :: "string \<Rightarrow> report \<Rightarrow> (string \<times> report) list \<Rightarrow> (string \<times> report) list" where
  "write_report test_file rep dir = AList.update (report_name test_file) rep dir"

text \<open>The subprocess of one file writes a report unless it fails, for instance because the run left no data.\<close>

definition run_single :: "(string \<Rightarrow> (string \<times> fields) list) \<Rightarrow> string \<Rightarrow> (string \<times> report) list \<Rightarrow> exn + (string \<times> report) list" where
  "run_single mutate test_file dir = (let data = mutate test_file
     in if data = [] then Inl (UserError ''SystemExit'')
        else (case analyze_superfluity data of Inl e \<Rightarrow> Inl e | Inr rep \<Rightarrow> Inr (write_report test_file rep dir)))"

definition merge_reports :: "(string \<times> report) list \<Rightarrow> report" where
  "merge_reports dir = (let
       entries = concat (map (\<lambda>(name, rep). map (\<lambda>(cls, c). (remove_prefix ''superfluity-'' (path_stem name) @ ''::'' @ cls, c)) (r_classes rep))
         (sort_key fst dir));
       combined = fold (\<lambda>(key, c). AList.update key c) entries []
     in \<lparr>r_total_classes = length combined, r_total_superfluous = sum_list (map (\<lambda>(_, c). length (c_superfluous c)) entries),
          r_classes = combined\<rparr>)"

text \<open>\<^verbatim>\<open>_run_all\<close> goes on after a failed subprocess.\<close>

definition run_all :: "(string \<Rightarrow> (string \<times> fields) list) \<Rightarrow> string list \<Rightarrow> (string \<times> report) list \<Rightarrow> report \<times> string list" where
  "run_all mutate test_files dir = (case fold (\<lambda>f (d, failed). case run_single mutate f d of
       Inl _ \<Rightarrow> (d, failed @ [f]) | Inr d' \<Rightarrow> (d', failed)) test_files (dir, []) of
     (d, failed) \<Rightarrow> (merge_reports d, failed))"

section \<open>The kill maps\<close>

definition killed_in :: "(string \<times> fields) list \<Rightarrow> string \<Rightarrow> string \<Rightarrow> bool" where
  "killed_in data test mutant = (\<exists>entry killers. (mutant, entry) \<in> set data \<and> get_or entry ''killed_by'' (JArr []) = JArr killers \<and>
     JStr test \<in> set killers)"

definition kills_of :: "(string \<times> kill_map) list \<Rightarrow> string \<Rightarrow> string set" where
  "kills_of maps test = dget {} (dget [] maps (class_of test)) test"

text \<open>Keys are unique, tests stand under their class, and every test that occurs has killed something.\<close>

definition kill_map_ok :: "string \<Rightarrow> kill_map \<Rightarrow> bool" where
  "kill_map_ok cls km = (distinct (map fst km) \<and> (\<forall>(t, ks) \<in> set km. class_of t = cls \<and> ks \<noteq> {} \<and> finite ks))"

definition maps_ok :: "(string \<times> kill_map) list \<Rightarrow> bool" where
  "maps_ok maps = (distinct (map fst maps) \<and> (\<forall>(cls, km) \<in> set maps. kill_map_ok cls km))"

lemma dget_update [simp]: "dget d (AList.update k v al) j = (if j = k then v else dget d al j)"
  by (simp add: dget_def update_conv')

lemma set_update_distinct:
  assumes "distinct (map fst al)"
  shows "set (AList.update k v al) = insert (k, v) {e \<in> set al. fst e \<noteq> k}"
proof -
  note d = map_of_eq_Some_iff [OF distinct_update [OF assms], of k v, symmetric]
  have "(j, w) \<in> set (AList.update k v al) \<longleftrightarrow> (j, w) = (k, v) \<or> (j, w) \<in> set al \<and> j \<noteq> k" for j w
    unfolding d map_of_eq_Some_iff [OF assms, symmetric] by (auto simp: update_conv')
  then show ?thesis by auto
qed

lemma dget_in: "distinct (map fst al) \<Longrightarrow> (k, v) \<in> set al \<Longrightarrow> dget d al k = v"
  by (simp add: dget_def)

lemma dget_cases: "dget d al k = d \<or> (k, dget d al k) \<in> set al"
  by (auto simp: dget_def dest: map_of_SomeD split: option.split)

lemma kill_map_ok_get: "maps_ok maps \<Longrightarrow> kill_map_ok cls (dget [] maps cls)"
  using dget_cases [of "[]" maps cls] by (auto simp: maps_ok_def kill_map_ok_def)

lemma kill_map_ok_update:
  assumes "kill_map_ok cls km" "class_of t = cls"
  shows "kill_map_ok cls (AList.update t (insert m (dget {} km t)) km)"
proof -
  have "finite (dget {} km t)" using assms(1) dget_cases [of "{}" km t] by (auto simp: kill_map_ok_def)
  then show ?thesis using assms by (auto simp: kill_map_ok_def set_update_distinct distinct_update)
qed

lemma record_kill_spec:
  assumes "maps_ok maps"
  shows "maps_ok (record_kill m t maps)" "kills_of (record_kill m t maps) u = kills_of maps u \<union> (if u = t then {m} else {})"
proof -
  have "kill_map_ok (class_of t) (AList.update t (insert m (dget {} (dget [] maps (class_of t)) t)) (dget [] maps (class_of t)))"
    by (rule kill_map_ok_update [OF kill_map_ok_get [OF assms] refl])
  then show "maps_ok (record_kill m t maps)"
    using assms by (auto simp: maps_ok_def record_kill_def Let_def set_update_distinct distinct_update)
  show "kills_of (record_kill m t maps) u = kills_of maps u \<union> (if u = t then {m} else {})"
    by (simp add: kills_of_def record_kill_def Let_def)
qed

lemma record_killers_spec:
  "record_killers m ks maps = Inr maps' \<Longrightarrow> maps_ok maps \<Longrightarrow>
    maps_ok maps' \<and> (\<forall>u. kills_of maps' u = kills_of maps u \<union> (if JStr u \<in> set ks then {m} else {}))"
  by (induction m ks maps rule: record_killers.induct) (auto simp: record_kill_spec)

lemma class_kill_maps_spec:
  "class_kill_maps data maps = Inr maps' \<Longrightarrow> maps_ok maps \<Longrightarrow>
    maps_ok maps' \<and> (\<forall>u. kills_of maps' u = kills_of maps u \<union> {m. killed_in data u m})"
proof (induction data arbitrary: maps)
  case (Cons e rest)
  obtain mutant entry where e: "e = (mutant, entry)" by force
  have step: "{m. killed_in ((mutant, entry) # rest) u m} = {m. killed_in rest u m} \<union>
      (case get_or entry ''killed_by'' (JArr []) of JArr ks \<Rightarrow> if JStr u \<in> set ks then {mutant} else {} | _ \<Rightarrow> {})" for u
    by (auto simp: killed_in_def split: json.split)
  show ?case
  proof (cases "\<exists>ks. get_or entry ''killed_by'' (JArr []) = JArr ks")
    case True
    then obtain ks where ks: "get_or entry ''killed_by'' (JArr []) = JArr ks" by blast
    then obtain maps1 where m1: "record_killers mutant ks maps = Inr maps1" "class_kill_maps rest maps1 = Inr maps'"
      using Cons.prems(1) e by (auto split: sum.splits)
    note r = record_killers_spec [OF m1(1) Cons.prems(2)]
    show ?thesis using Cons.IH [OF m1(2)] r unfolding e step by (auto simp: ks)
  next
    case False
    then have "class_kill_maps rest maps = Inr maps'" using Cons.prems(1) e by (auto split: json.splits)
    then show ?thesis using Cons.IH Cons.prems(2) False unfolding e step by (auto split: json.splits)
  qed
qed (auto simp: killed_in_def)

section \<open>The analysis of a class\<close>

lemma subsuming_Some: "subsuming i ks tests = Some (u, us) \<Longrightarrow> (u, us) \<in> set tests \<and> ks \<subset> us"
  by (auto simp: subsuming_def find_Some_iff nth_enumerate_eq)

lemma subsuming_None:
  assumes "subsuming i ks tests = None" "i < length tests" "snd (tests ! i) = ks" "(u, us) \<in> set tests"
  shows "\<not> ks \<subset> us"
proof
  assume less: "ks \<subset> us"
  obtain j where j: "j < length tests" "tests ! j = (u, us)" using assms(4) by (auto simp: in_set_conv_nth)
  then have "(j, u, us) \<in> set (List.enumerate 0 tests)" by (simp add: in_set_enumerate_eq)
  then have "i = j \<or> us = {} \<or> \<not> ks \<subset> us"
    using assms(1) by (fastforce simp: subsuming_def find_None_iff)
  then show False using assms(3) j less by auto
qed

lemma superfluous_exact:
  assumes "\<forall>(t, ks) \<in> set km. ks \<noteq> {}" "distinct (map fst km)" "(t, ks) \<in> set km"
  shows "t \<in> s_test ` set (superfluous_tests km) \<longleftrightarrow> (\<exists>(u, us) \<in> set km. ks \<subset> us)"
proof
  assume "t \<in> s_test ` set (superfluous_tests km)"
  then obtain i ts u us where i: "(i, t, ts) \<in> set (List.enumerate 0 km)" "subsuming i ts km = Some (u, us)"
    by (auto simp: superfluous_tests_def List.map_filter_def split: if_splits)
  then have "(t, ts) \<in> set km" by (auto simp: in_set_enumerate_eq) (metis nth_mem)
  then have "ts = ks" using assms(2,3) by (metis eq_key_imp_eq_value)
  then show "\<exists>(u, us) \<in> set km. ks \<subset> us" using subsuming_Some [OF i(2)] by blast
next
  assume less: "\<exists>(u, us) \<in> set km. ks \<subset> us"
  obtain i where i: "i < length km" "km ! i = (t, ks)" using assms(3) by (auto simp: in_set_conv_nth)
  then obtain u us where s: "subsuming i ks km = Some (u, us)"
    using subsuming_None [of i ks km] less by (cases "subsuming i ks km") fastforce+
  have "(i, t, ks) \<in> set (List.enumerate 0 km)" using i by (simp add: in_set_enumerate_eq)
  moreover have "ks \<noteq> {}" using assms(1,3) by blast
  ultimately show "t \<in> s_test ` set (superfluous_tests km)"
    using s by (force simp: superfluous_tests_def List.map_filter_def)
qed

text \<open>Above every test stands one that is not subsumed.\<close>

lemma unsubsumed_above:
  assumes "(t, ks) \<in> set km"
  obtains u us where "(u, us) \<in> set km" "ks \<subseteq> us" "\<not> (\<exists>(v, vs) \<in> set km. us \<subset> vs)"
proof -
  have "ks \<in> snd ` set km" using assms by force
  from finite_has_maximal2 [OF _ this]
  obtain us where "us \<in> snd ` set km" "ks \<subseteq> us" and mx: "\<forall>vs \<in> snd ` set km. us \<subseteq> vs \<longrightarrow> us = vs" by auto
  then obtain u where "(u, us) \<in> set km" "ks \<subseteq> us" by auto
  moreover have "\<not> (\<exists>(v, vs) \<in> set km. us \<subset> vs)" using mx by (force simp: psubset_eq)
  ultimately show thesis by (rule that)
qed

text \<open>The report has one result per class with a kill, computed from the kill sets of its tests.\<close>

lemma analyze_class_of:
  assumes "analyze_superfluity data = Inr rep" "killed_in data t m"
  obtains km where "map_of (r_classes rep) (class_of t) = Some (analyze_class km)" "kill_map_ok (class_of t) km"
    "\<forall>u ks. (u, ks) \<in> set km \<longleftrightarrow> class_of u = class_of t \<and> ks = {m. killed_in data u m} \<and> ks \<noteq> {}"
proof -
  obtain maps where maps: "class_kill_maps data [] = Inr maps"
    and rep: "r_classes rep = map (\<lambda>(cls, km). (cls, analyze_class km)) (sort_key fst maps)"
    using assms(1) by (auto simp: analyze_superfluity_def Let_def split: sum.splits)
  have ok: "maps_ok maps" and kills: "kills_of maps u = {m. killed_in data u m}" for u
    using class_kill_maps_spec [OF maps] by (auto simp: maps_ok_def kills_of_def dget_def)
  let ?km = "dget [] maps (class_of t)"
  have kok: "kill_map_ok (class_of t) ?km" by (rule kill_map_ok_get [OF ok])
  have mem: "(u, ks) \<in> set ?km \<longleftrightarrow> class_of u = class_of t \<and> ks = {m. killed_in data u m} \<and> ks \<noteq> {}" for u ks
  proof
    assume u: "(u, ks) \<in> set ?km"
    then have "class_of u = class_of t" "ks \<noteq> {}" "dget {} ?km u = ks" using kok by (auto simp: kill_map_ok_def dget_in)
    then show "class_of u = class_of t \<and> ks = {m. killed_in data u m} \<and> ks \<noteq> {}" using kills [of u] by (simp add: kills_of_def)
  next
    assume u: "class_of u = class_of t \<and> ks = {m. killed_in data u m} \<and> ks \<noteq> {}"
    then have "dget {} ?km u = ks" using kills [of u] by (simp add: kills_of_def)
    then show "(u, ks) \<in> set ?km" using u dget_cases [of "{}" ?km u] by auto
  qed
  have "?km \<noteq> []" using mem [of t "{m. killed_in data t m}"] assms(2) by auto
  then have "(class_of t, ?km) \<in> set maps" using dget_cases [of "[]" maps "class_of t"] by simp
  then have "(class_of t, analyze_class ?km) \<in> set (r_classes rep)" by (force simp: rep)
  moreover have "distinct (map fst (r_classes rep))"
    using ok distinct_map by (auto simp: rep maps_ok_def comp_def case_prod_beta' distinct_map)
  ultimately show thesis using kok mem by (intro that [of ?km]) simp_all
qed

text \<open>The analysis itself does not fail on a table of test names.\<close>

lemma record_killers_strs: "\<exists>maps'. record_killers m (map JStr ks) maps = Inr maps'"
  by (induction ks arbitrary: maps) auto

lemma class_kill_maps_total:
  "list_all (\<lambda>(m, e). \<exists>ks. get_or e ''killed_by'' (JArr []) = strs ks) data \<Longrightarrow> \<exists>maps'. class_kill_maps data maps = Inr maps'"
proof (induction data arbitrary: maps)
  case (Cons x rest)
  obtain m e ks where x: "x = (m, e)" "get_or e ''killed_by'' (JArr []) = strs ks" using Cons.prems by (cases x) auto
  obtain maps1 where "record_killers m (map JStr ks) maps = Inr maps1" using record_killers_strs by blast
  then show ?case using Cons.IH [of maps1] Cons.prems x by (simp add: strs_def)
qed simp

section \<open>Merging\<close>

text \<open>The state of the directory after one file, and which reports two directories share.\<close>

definition next_dir :: "(string \<Rightarrow> (string \<times> fields) list) \<Rightarrow> string \<Rightarrow> (string \<times> report) list \<Rightarrow> (string \<times> report) list" where
  "next_dir mutate f dir = (case run_single mutate f dir of Inl _ \<Rightarrow> dir | Inr d \<Rightarrow> d)"

definition agree :: "string set \<Rightarrow> (string \<times> report) list \<Rightarrow> (string \<times> report) list \<Rightarrow> bool" where
  "agree except d d' = (distinct (map fst d) \<and> distinct (map fst d') \<and> (\<forall>j. j \<notin> except \<longrightarrow> map_of d j = map_of d' j))"

lemma run_all_dirs: "fst (run_all mutate files dir) = merge_reports (fold (next_dir mutate) files dir)"
proof -
  have "fst (fold (\<lambda>f (d, failed). case run_single mutate f d of Inl _ \<Rightarrow> (d, failed @ [f]) | Inr d' \<Rightarrow> (d', failed)) files (dir, failed))
      = fold (next_dir mutate) files dir" for failed
    by (induction files arbitrary: dir failed) (auto simp: next_dir_def split: sum.split)
  then show ?thesis by (simp add: run_all_def case_prod_beta)
qed

lemma next_dir_eq: "next_dir mutate f d = (if mutate f = [] then d else (case analyze_superfluity (mutate f) of
    Inl _ \<Rightarrow> d | Inr rep \<Rightarrow> AList.update (report_name f) rep d))"
  by (simp add: next_dir_def run_single_def write_report_def split: sum.split)

lemma agree_next: "agree S d d' \<Longrightarrow> agree S (next_dir mutate f d) (next_dir mutate f d')"
  by (auto simp: agree_def next_dir_eq update_conv' distinct_update split: sum.split)

lemma agree_fold: "agree S d d' \<Longrightarrow> agree S (fold (next_dir mutate) fs d) (fold (next_dir mutate) fs d')"
  by (induction fs arbitrary: d d') (auto simp: agree_next)

lemma agree_written:
  assumes "agree {report_name f} d d'" "mutate f \<noteq> []" "analyze_superfluity (mutate f) = Inr rep"
  shows "agree {} (next_dir mutate f d) (next_dir mutate f d')"
  using assms by (auto simp: agree_def next_dir_eq update_conv' distinct_update)

lemma agree_overwritten: "distinct (map fst d) \<Longrightarrow> report_name f = k \<Longrightarrow> agree {k} (next_dir mutate f d) d"
  by (auto simp: agree_def next_dir_eq update_conv' distinct_update split: sum.split)

lemma next_dir_distinct: "distinct (map fst d) \<Longrightarrow> distinct (map fst (fold (next_dir mutate) fs d))"
  using agree_fold [of "{}" d d mutate fs] by (simp add: agree_def)

lemma merge_agree:
  assumes "agree {} d d'"
  shows "merge_reports d = merge_reports d'"
proof -
  have d: "distinct (map fst d)" "distinct (map fst d')" and "map_of d = map_of d'" using assms by (auto simp: agree_def)
  then have "set d = set d'" by (simp add: map_of_inject_set)
  note d = d this
  then have "inj_on fst (set (sort_key fst d) \<union> set (sort_key fst d'))" by (simp add: distinct_map)
  then have "sort_key fst d = sort_key fst d'"
    using d by (intro map_sorted_distinct_set_unique [of fst]) (simp_all add: distinct_map)
  then show ?thesis by (simp add: merge_reports_def)
qed

section \<open>Properties\<close>

text \<open>C39. The analysis is safe. On a table of test names it does not fail, and for every kill of a test in the table the class of the test is in the
  report; the test is reported as superfluous exactly if its kills are a strict subset of those of another test of its class; and the mutant is also
  killed by a test of the class that is not reported, so all reported tests can be removed together without losing a kill. The report
  never names a test without kills.\<close>

theorem superfluity_safe:
  assumes "list_all (\<lambda>(m, e). \<exists>ks. get_or e ''killed_by'' (JArr []) = strs ks) data"
  shows "\<exists>rep. analyze_superfluity data = Inr rep \<and> (\<forall>t m. killed_in data t m \<longrightarrow>
    (\<exists>c. map_of (r_classes rep) (class_of t) = Some c \<and> c_zero_kill_tests c = [] \<and>
      (t \<in> s_test ` set (c_superfluous c) \<longleftrightarrow> (\<exists>u. class_of u = class_of t \<and> {x. killed_in data t x} \<subset> {x. killed_in data u x})) \<and>
      (\<exists>u. class_of u = class_of t \<and> killed_in data u m \<and> u \<notin> s_test ` set (c_superfluous c))))"
proof -
  obtain maps where "class_kill_maps data [] = Inr maps" using class_kill_maps_total [OF assms] by blast
  then obtain rep where rep: "analyze_superfluity data = Inr rep" by (simp add: analyze_superfluity_def Let_def)
  have "\<exists>c. map_of (r_classes rep) (class_of t) = Some c \<and> c_zero_kill_tests c = [] \<and>
      (t \<in> s_test ` set (c_superfluous c) \<longleftrightarrow> (\<exists>u. class_of u = class_of t \<and> {x. killed_in data t x} \<subset> {x. killed_in data u x})) \<and>
      (\<exists>u. class_of u = class_of t \<and> killed_in data u m \<and> u \<notin> s_test ` set (c_superfluous c))" if k: "killed_in data t m" for t m
  proof -
    let ?K = "\<lambda>u. {x. killed_in data u x}"
    obtain km where km: "map_of (r_classes rep) (class_of t) = Some (analyze_class km)" "kill_map_ok (class_of t) km"
      and mem: "\<forall>u ks. (u, ks) \<in> set km \<longleftrightarrow> class_of u = class_of t \<and> ks = ?K u \<and> ks \<noteq> {}"
      by (rule analyze_class_of [OF rep k])
    have ne: "\<forall>(t, ks) \<in> set km. ks \<noteq> {}" and d: "distinct (map fst km)" using km(2) by (auto simp: kill_map_ok_def)
    have t: "(t, ?K t) \<in> set km" using mem k by auto
    obtain u us where u: "(u, us) \<in> set km" "?K t \<subseteq> us" "\<not> (\<exists>(v, vs) \<in> set km. us \<subset> vs)" using unsubsumed_above [OF t] .
    have "u \<notin> s_test ` set (superfluous_tests km)" using superfluous_exact [OF ne d u(1)] u(3) by blast
    moreover have "class_of u = class_of t" "killed_in data u m" using u mem k by auto
    moreover have "t \<in> s_test ` set (superfluous_tests km) \<longleftrightarrow> (\<exists>u. class_of u = class_of t \<and> ?K t \<subset> ?K u)"
    proof -
      have "(\<exists>(u, us) \<in> set km. ?K t \<subset> us) \<longleftrightarrow> (\<exists>u us. (u, us) \<in> set km \<and> ?K t \<subset> us)" by auto
      also have "\<dots> \<longleftrightarrow> (\<exists>u. class_of u = class_of t \<and> ?K t \<subset> ?K u)" unfolding mem [rule_format] by blast
      finally show ?thesis using superfluous_exact [OF ne d t] by simp
    qed
    moreover have "filter (\<lambda>(_, ks). ks = {}) km = []" using ne by (force simp: filter_empty_conv)
    ultimately show ?thesis using km(1) by (intro exI [of _ "analyze_class km"]) (auto simp: analyze_class_def)
  qed
  then show ?thesis using rep by blast
qed

definition demo_table :: "(string \<times> fields) list" where
  "demo_table = [(''m1'', [(''killed_by'', strs [''f.py::A::t1'', ''f.py::A::t2''])]), (''m2'', [(''killed_by'', strs [''f.py::A::t2''])]),
     (''m3'', [(''killed_by'', strs [''f.py::t3''])])]"

theorem superfluity_safe_witness:
  "\<exists>rep c. analyze_superfluity demo_table = Inr rep \<and> map_of (r_classes rep) ''A'' = Some c \<and> ''f.py::A::t1'' \<in> s_test ` set (c_superfluous c)"
proof -
  have "list_all (\<lambda>(m, e). \<exists>ks. get_or e ''killed_by'' (JArr []) = strs ks) demo_table"
    by (auto simp: demo_table_def get_or_def jget_def)
  from superfluity_safe [OF this] obtain rep where rep: "analyze_superfluity demo_table = Inr rep"
    and all: "\<forall>t m. killed_in demo_table t m \<longrightarrow> (\<exists>c. map_of (r_classes rep) (class_of t) = Some c \<and> c_zero_kill_tests c = [] \<and>
      (t \<in> s_test ` set (c_superfluous c) \<longleftrightarrow> (\<exists>u. class_of u = class_of t \<and> {x. killed_in demo_table t x} \<subset> {x. killed_in demo_table u x})) \<and>
      (\<exists>u. class_of u = class_of t \<and> killed_in demo_table u m \<and> u \<notin> s_test ` set (c_superfluous c)))" by blast
  have k: "{x. killed_in demo_table ''f.py::A::t1'' x} = {''m1''}" "{x. killed_in demo_table ''f.py::A::t2'' x} = {''m1'', ''m2''}"
    by (auto simp: killed_in_def demo_table_def get_or_def jget_def strs_def)
  have c: "class_of ''f.py::A::t1'' = ''A''" "class_of ''f.py::A::t2'' = ''A''"
    by (simp_all add: class_of_def extract_test_class_def Let_def)
  have "killed_in demo_table ''f.py::A::t1'' ''m1''" using k by blast
  moreover have "\<exists>u. class_of u = ''A'' \<and> {x. killed_in demo_table ''f.py::A::t1'' x} \<subset> {x. killed_in demo_table u x}"
    using k c by (intro exI [of _ "''f.py::A::t2''"]) auto
  ultimately show ?thesis using rep all c(1) by metis
qed

text \<open>Reports of test files with the same name overwrite each other. A report is named after the stem of the test file, without its directory;
  if the run over all test files analyses a file and later, successfully, another file with the same stem, the merged report is
  the one without the first file, whatever classes and superfluous tests that has.\<close>

theorem merge_loses_reports:
  assumes "path_stem f = path_stem g" "distinct (map fst dir)" "mutate g \<noteq> []" "analyze_superfluity (mutate g) = Inr rep"
  shows "fst (run_all mutate (as @ f # bs @ g # cs) dir) = fst (run_all mutate (as @ bs @ g # cs) dir)"
proof -
  let ?d = "fold (next_dir mutate) as dir"
  have "agree {report_name g} (next_dir mutate f ?d) ?d"
    using assms(1) by (intro agree_overwritten next_dir_distinct assms(2)) (simp add: report_name_def)
  from agree_written [where f = g and mutate = mutate, OF agree_fold [OF this, of mutate bs] assms(3,4), THEN agree_fold [where mutate = mutate and fs = cs], THEN merge_agree]
  show ?thesis by (simp add: run_all_dirs)
qed

definition demo_mutate :: "string \<Rightarrow> (string \<times> fields) list" where
  "demo_mutate f = (if f = ''tests/lua/test_acquire.py'' then [(''m3'', [(''killed_by'', strs [''f.py::t3''])])] else demo_table)"

theorem merge_loses_reports_witness:
  "r_total_superfluous (fst (run_all demo_mutate [''tests/implementations/test_acquire.py''] [])) = 1 \<and>
   r_total_superfluous (fst (run_all demo_mutate [''tests/implementations/test_acquire.py'', ''tests/lua/test_acquire.py''] [])) = 0"
proof -
  have s: "path_stem ''tests/implementations/test_acquire.py'' = path_stem ''tests/lua/test_acquire.py''" by (simp add: path_stem_def Let_def)
  have eval: "r_total_superfluous (fst (run_all demo_mutate [''tests/implementations/test_acquire.py''] [])) = 1"
    "r_total_superfluous (fst (run_all demo_mutate [''tests/lua/test_acquire.py''] [])) = 0"
    "analyze_superfluity (demo_mutate ''tests/lua/test_acquire.py'') = Inr \<lparr>r_total_classes = 1, r_total_superfluous = 0,
      r_classes = [(''<module-level>'', \<lparr>c_total_tests = 1, c_total_kills = 1, c_superfluous = [], c_zero_kill_tests = []\<rparr>)]\<rparr>"
    by (simp_all add: run_all_def demo_mutate_def run_single_def Let_def demo_table_def analyze_superfluity_def get_or_def jget_def strs_def
        record_kill_def class_of_def extract_test_class_def dget_def analyze_class_def superfluous_tests_def subsuming_def
        List.map_filter_def merge_reports_def write_report_def) auto
  have "demo_mutate ''tests/lua/test_acquire.py'' \<noteq> []" by (simp add: demo_mutate_def)
  from merge_loses_reports [where mutate = demo_mutate and dir = "[]" and as = "[]" and bs = "[]" and cs = "[]", OF s _ this eval(3)] eval(1,2)
  show ?thesis by simp
qed

text \<open>If the selected tests are all safety net tests, as in the runs over the two safety net files, nothing is left of the selection and the second stage
  calls pytest without a path.\<close>

lemma safety_net_unselected:
  assumes "snd (pytest (base_args @ [''-x''] @ safety_net_files)) = 0" "list_all is_safety_net_test (if tests \<noteq> [] then tests else selection)"
    and "pytest base_args = (hooks, result)"
  shows "full_run_tests pytest selection skip_dir pid m tests (fs, skips) = (case fold (full_hook pid) hooks (collector_init m, fs) of
    (c, fs1) \<Rightarrow> (result, write_temp_file extra_payload pid False c fs1, skips))"
proof -
  have "correctness_tests tests selection = []" using assms(2) by (auto simp: correctness_tests_def filter_empty_conv list_all_iff)
  then show ?thesis using assms(1,3) by (simp add: full_run_tests_def)
qed

end
