(* ===== verification/Timeline.thy ===== *)
theory Timeline
  imports Prelude
begin

text \<open>
  The timeline of a mutation run (\<^verbatim>\<open>scripts/generate_mutmut_report.py\<close>): from the events that the test processes logged, the interval of every
  test, and the pairs of intervals of different processes that overlap. Clock readings are rationals.
\<close>

section \<open>Intervals\<close>

record test_event =
  ev_pid :: int
  ev_mutant :: string
  ev_nodeid :: "string option"
  ev_event :: string
  ev_mono :: rat
  ev_ts :: rat

record interval =
  iv_pid :: int
  iv_mutant :: string
  iv_nodeid :: "string option"
  iv_start_mono :: rat
  iv_start_ts :: rat
  iv_end_mono :: rat
  iv_end_ts :: rat
  iv_end_kind :: string
  iv_duration_ms :: rat
  iv_last_heartbeat_mono :: "rat option"

text \<open>The dictionary by process, in the order in which the processes appear.\<close>

fun add_event :: "test_event \<Rightarrow> (int \<times> test_event list) list \<Rightarrow> (int \<times> test_event list) list" where
  "add_event ev [] = [(ev_pid ev, [ev])]"
| "add_event ev ((p, evs) # rest) = (if p = ev_pid ev then (p, evs @ [ev]) # rest else (p, evs) # add_event ev rest)"

definition by_pid :: "test_event list \<Rightarrow> (int \<times> test_event list) list" where
  "by_pid events = fold add_event events []"

definition kill_event :: "test_event list \<Rightarrow> test_event option" where
  "kill_event evs = find (\<lambda>e. ev_event e = ''process_killed'') (rev evs)"

text \<open>The inner loop: the end event and the last heartbeat of the test, and what is left to scan. It stops at the end event, which it does not consume,
  or at the start of another test.\<close>

fun scan_test :: "string option \<Rightarrow> test_event option \<Rightarrow> test_event list \<Rightarrow> test_event option \<times> test_event option \<times> test_event list" where
  "scan_test n hb [] = (None, hb, [])"
| "scan_test n hb (e # es) =
     (if ev_nodeid e = n \<and> ev_event e = ''end'' then (Some e, hb, e # es)
      else (let hb1 = (if ev_nodeid e = n \<and> ev_event e = ''heartbeat'' then Some e else hb)
            in if ev_event e = ''start'' \<and> ev_nodeid e \<noteq> n then (None, hb1, e # es) else scan_test n hb1 es))"

definition mk_interval :: "test_event \<Rightarrow> test_event option \<Rightarrow> test_event option \<Rightarrow> test_event option \<Rightarrow> interval" where
  "mk_interval ev end_event kill hb =
     (let (m, ts, kind) = (case end_event of
            Some e \<Rightarrow> (ev_mono e, ev_ts e, ''completed'')
          | None \<Rightarrow> (case kill of
              Some e \<Rightarrow> (ev_mono e, ev_ts e, ''parent_killed'')
            | None \<Rightarrow> (case hb of
                Some e \<Rightarrow> (ev_mono e, ev_ts e, ''last_heartbeat'')
              | None \<Rightarrow> (ev_mono ev, ev_ts ev, ''no_end''))))
      in \<lparr>iv_pid = ev_pid ev, iv_mutant = ev_mutant ev, iv_nodeid = ev_nodeid ev, iv_start_mono = ev_mono ev, iv_start_ts = ev_ts ev,
           iv_end_mono = m, iv_end_ts = ts, iv_end_kind = kind, iv_duration_ms = (m - ev_mono ev) * 1000,
           iv_last_heartbeat_mono = map_option ev_mono hb\<rparr>)"

lemma scan_test_shorter: "scan_test n hb es = (x, h, rest) \<Longrightarrow> length rest \<le> length es"
  by (induction n hb es rule: scan_test.induct) (auto simp: Let_def split: if_splits)

function walk :: "test_event option \<Rightarrow> test_event list \<Rightarrow> interval list" where
  "walk kill [] = []"
| "walk kill (ev # evs) = (if ev_event ev \<noteq> ''start'' then walk kill evs
     else (case scan_test (ev_nodeid ev) None evs of
       (end_event, hb, rest) \<Rightarrow> mk_interval ev end_event kill hb # walk kill rest))"
  by pat_completeness auto
termination
  by (relation "measure (\<lambda>(_, evs). length evs)") (auto dest: scan_test_shorter [OF sym] simp: less_Suc_eq_le)

definition build_test_intervals :: "test_event list \<Rightarrow> interval list" where
  "build_test_intervals events = sort_key iv_start_mono
     (concat (map (\<lambda>(p, evs). let s = sort_key ev_mono evs in walk (kill_event s) s) (by_pid events)))"

section \<open>Overlaps\<close>

record overlap =
  ol_a :: "int \<times> string \<times> string option"
  ol_b :: "int \<times> string \<times> string option"
  ol_ms :: rat

definition mk_overlap :: "interval \<Rightarrow> interval \<Rightarrow> overlap" where
  "mk_overlap a b = \<lparr>ol_a = (iv_pid a, iv_mutant a, iv_nodeid a), ol_b = (iv_pid b, iv_mutant b, iv_nodeid b),
     ol_ms = (min (iv_end_mono a) (iv_end_mono b) - max (iv_start_mono a) (iv_start_mono b)) * 1000\<rparr>"

text \<open>The inner loop leaves the list at the first interval that starts at or after the end of \<open>a\<close>.\<close>

fun overlaps_with :: "interval \<Rightarrow> interval list \<Rightarrow> overlap list" where
  "overlaps_with a [] = []"
| "overlaps_with a (b # bs) = (if iv_end_mono a \<le> iv_start_mono b then []
     else if iv_pid a = iv_pid b then overlaps_with a bs
     else mk_overlap a b # overlaps_with a bs)"

fun overlap_pairs :: "interval list \<Rightarrow> overlap list" where
  "overlap_pairs [] = []"
| "overlap_pairs (a # rest) = overlaps_with a rest @ overlap_pairs rest"

definition detect_cross_pid_overlaps :: "interval list \<Rightarrow> overlap list" where
  "detect_cross_pid_overlaps records = overlap_pairs (sort_key iv_start_mono records)"

text \<open>Reference: all pairs in the order of their starts, filtered.\<close>

fun pairs :: "'a list \<Rightarrow> ('a \<times> 'a) list" where
  "pairs [] = []"
| "pairs (a # rest) = map (Pair a) rest @ pairs rest"

definition all_overlaps :: "interval list \<Rightarrow> overlap list" where
  "all_overlaps records = map (\<lambda>(a, b). mk_overlap a b)
     (filter (\<lambda>(a, b). iv_pid a \<noteq> iv_pid b \<and> iv_start_mono b < iv_end_mono a) (pairs (sort_key iv_start_mono records)))"

section \<open>Lemmas\<close>

lemma overlaps_with_sorted:
  "sorted (map iv_start_mono bs) \<Longrightarrow>
    overlaps_with a bs = map (mk_overlap a) (filter (\<lambda>b. iv_pid a \<noteq> iv_pid b \<and> iv_start_mono b < iv_end_mono a) bs)"
proof (induction bs)
  case (Cons b bs)
  show ?case
  proof (cases "iv_end_mono a \<le> iv_start_mono b")
    case True
    then have "\<forall>x \<in> set bs. \<not> iv_start_mono x < iv_end_mono a" using Cons.prems by fastforce
    then show ?thesis using True by (simp add: filter_empty_conv)
  qed (use Cons in auto)
qed simp

lemma overlap_pairs_sorted:
  "sorted (map iv_start_mono rs) \<Longrightarrow> overlap_pairs rs = map (\<lambda>(a, b). mk_overlap a b)
    (filter (\<lambda>(a, b). iv_pid a \<noteq> iv_pid b \<and> iv_start_mono b < iv_end_mono a) (pairs rs))"
  by (induction rs) (simp_all add: overlaps_with_sorted filter_map comp_def)

lemma pairs_sorted: "sorted (map f rs) \<Longrightarrow> (a, b) \<in> set (pairs rs) \<Longrightarrow> a \<in> set rs \<and> b \<in> set rs \<and> f a \<le> f b"
  by (induction rs) auto

text \<open>Grouping by process keeps the events, under their process.\<close>

definition grouped :: "test_event set \<Rightarrow> (int \<times> test_event list) list \<Rightarrow> bool" where
  "grouped E al = (\<forall>(p, evs) \<in> set al. \<forall>e \<in> set evs. e \<in> E \<and> ev_pid e = p)"

lemma grouped_add: "grouped E al \<Longrightarrow> ev \<in> E \<Longrightarrow> grouped E (add_event ev al)"
  by (induction ev al rule: add_event.induct) (auto simp: grouped_def)

lemma grouped_fold: "set events \<subseteq> E \<Longrightarrow> grouped E al \<Longrightarrow> grouped E (fold add_event events al)"
  by (induction events arbitrary: al) (auto simp: grouped_add)

lemma by_pid_spec: "(p, evs) \<in> set (by_pid events) \<Longrightarrow> e \<in> set evs \<Longrightarrow> e \<in> set events \<and> ev_pid e = p"
  using grouped_fold [of events "set events" "[]"] by (auto simp: grouped_def by_pid_def)

lemma scan_test_end:
  "scan_test n hb es = (Some e, h, rest) \<Longrightarrow> e \<in> set es \<and> ev_nodeid e = n \<and> ev_event e = ''end''"
  by (induction n hb es rule: scan_test.induct) (auto simp: Let_def split: if_splits)

lemma scan_test_heartbeat:
  "scan_test n hb es = (x, Some e, rest) \<Longrightarrow> hb = Some e \<or> e \<in> set es \<and> ev_nodeid e = n \<and> ev_event e = ''heartbeat''"
  by (induction n hb es rule: scan_test.induct) (auto simp: Let_def split: if_splits)

lemma scan_test_suffix: "scan_test n hb es = (x, h, rest) \<Longrightarrow> \<exists>ys. es = ys @ rest"
proof (induction es arbitrary: hb)
  case (Cons e es)
  then have "rest = e # es \<or> (\<exists>hb1. scan_test n hb1 es = (x, h, rest))" by (auto simp: Let_def split: if_splits)
  then show ?case using Cons.IH by (metis append_Cons append_Nil)
qed simp

text \<open>An interval starts with a start event of its process and ends as its kind says.\<close>

definition ends_with :: "test_event set \<Rightarrow> interval \<Rightarrow> string \<Rightarrow> bool" where
  "ends_with E iv what = (\<exists>e \<in> E. ev_pid e = iv_pid iv \<and> ev_event e = what \<and> ev_mono e = iv_end_mono iv \<and>
     (what \<noteq> ''process_killed'' \<longrightarrow> ev_nodeid e = iv_nodeid iv \<and> iv_start_mono iv \<le> iv_end_mono iv))"

definition interval_ok :: "test_event set \<Rightarrow> interval \<Rightarrow> bool" where
  "interval_ok E iv = ((\<exists>ev \<in> E. ev_event ev = ''start'' \<and> ev_pid ev = iv_pid iv \<and> ev_mutant ev = iv_mutant iv \<and> ev_nodeid ev = iv_nodeid iv \<and>
       ev_mono ev = iv_start_mono iv) \<and> iv_duration_ms iv = (iv_end_mono iv - iv_start_mono iv) * 1000 \<and>
     (iv_end_kind iv = ''completed'' \<and> ends_with E iv ''end'' \<or> iv_end_kind iv = ''parent_killed'' \<and> ends_with E iv ''process_killed'' \<or>
      iv_end_kind iv = ''last_heartbeat'' \<and> ends_with E iv ''heartbeat'' \<or> iv_end_kind iv = ''no_end'' \<and> iv_end_mono iv = iv_start_mono iv))"

lemma mk_interval_fields:
  "iv_pid (mk_interval ev x kill hb) = ev_pid ev" "iv_mutant (mk_interval ev x kill hb) = ev_mutant ev"
  "iv_nodeid (mk_interval ev x kill hb) = ev_nodeid ev" "iv_start_mono (mk_interval ev x kill hb) = ev_mono ev"
  "iv_duration_ms (mk_interval ev x kill hb) = (iv_end_mono (mk_interval ev x kill hb) - ev_mono ev) * 1000"
  by (simp_all add: mk_interval_def case_prod_beta)

lemma mk_interval_ok:
  assumes "scan_test (ev_nodeid ev) None evs = (x, hb, rest)" "ev_event ev = ''start''" "ev \<in> E" "set evs \<subseteq> E"
    and "\<forall>e \<in> set evs. ev_pid e = ev_pid ev \<and> ev_mono ev \<le> ev_mono e"
    and "\<forall>e. kill = Some e \<longrightarrow> e \<in> E \<and> ev_pid e = ev_pid ev \<and> ev_event e = ''process_killed''"
  shows "interval_ok E (mk_interval ev x kill hb)"
proof -
  have x: "\<forall>e. x = Some e \<longrightarrow> e \<in> set evs \<and> ev_nodeid e = ev_nodeid ev \<and> ev_event e = ''end''"
    using scan_test_end assms(1) by blast
  have hb: "\<forall>e. hb = Some e \<longrightarrow> e \<in> set evs \<and> ev_nodeid e = ev_nodeid ev \<and> ev_event e = ''heartbeat''"
    using scan_test_heartbeat assms(1) by blast
  let ?iv = "mk_interval ev x kill hb"
  have "iv_end_kind ?iv = ''completed'' \<and> ends_with E ?iv ''end'' \<or> iv_end_kind ?iv = ''parent_killed'' \<and> ends_with E ?iv ''process_killed'' \<or>
      iv_end_kind ?iv = ''last_heartbeat'' \<and> ends_with E ?iv ''heartbeat'' \<or> iv_end_kind ?iv = ''no_end'' \<and> iv_end_mono ?iv = iv_start_mono ?iv"
  proof (cases x)
    case (Some e)
    then have "iv_end_kind ?iv = ''completed''" "iv_end_mono ?iv = ev_mono e" "e \<in> set evs" "ev_nodeid e = ev_nodeid ev" "ev_event e = ''end''"
      using x by (simp_all add: mk_interval_def)
    moreover from this assms(4,5) have "ends_with E ?iv ''end''" unfolding ends_with_def mk_interval_fields by (intro bexI [of _ e]) auto
    ultimately show ?thesis by blast
  next
    case None
    show ?thesis
    proof (cases kill)
      case (Some e)
      then have "iv_end_kind ?iv = ''parent_killed''" "iv_end_mono ?iv = ev_mono e" using None by (simp_all add: mk_interval_def)
      moreover from this assms(6) Some have "ends_with E ?iv ''process_killed''" unfolding ends_with_def mk_interval_fields by (intro bexI [of _ e]) auto
      ultimately show ?thesis by blast
    next
      case nokill: None
      show ?thesis
      proof (cases hb)
        case (Some e)
        then have "iv_end_kind ?iv = ''last_heartbeat''" "iv_end_mono ?iv = ev_mono e" "e \<in> set evs" "ev_nodeid e = ev_nodeid ev"
          "ev_event e = ''heartbeat''" using None nokill hb by (simp_all add: mk_interval_def)
        moreover from this assms(4,5) have "ends_with E ?iv ''heartbeat''" unfolding ends_with_def mk_interval_fields by (intro bexI [of _ e]) auto
        ultimately show ?thesis by blast
      qed (use None nokill in \<open>simp add: mk_interval_def\<close>)
    qed
  qed
  then show ?thesis using assms(2,3) unfolding interval_ok_def mk_interval_fields by blast
qed

lemma walk_ok:
  assumes "sorted (map ev_mono evs)" "set evs \<subseteq> E" "\<forall>e \<in> set evs. ev_pid e = p"
    and "\<forall>e. kill = Some e \<longrightarrow> e \<in> E \<and> ev_pid e = p \<and> ev_event e = ''process_killed''"
  shows "\<forall>iv \<in> set (walk kill evs). interval_ok E iv"
  using assms
proof (induction kill evs rule: walk.induct)
  case (2 kill ev evs)
  show ?case
  proof (cases "ev_event ev = ''start''")
    case True
    obtain x hb rest where s: "scan_test (ev_nodeid ev) None evs = (x, hb, rest)" using prod_cases3 by blast
    obtain ys where evs: "evs = ys @ rest" using scan_test_suffix [OF s] by blast
    have "interval_ok E (mk_interval ev x kill hb)"
      using "2.prems" True by (intro mk_interval_ok [OF s]) auto
    moreover have "\<forall>iv \<in> set (walk kill rest). interval_ok E iv"
      using "2.prems" True s evs by (intro "2.IH"(2) [of x _ hb rest]) (auto simp: sorted_append)
    ultimately show ?thesis using True s by simp
  qed (use 2 in auto)
qed simp

theorem intervals_sound: "iv \<in> set (build_test_intervals events) \<Longrightarrow> interval_ok (set events) iv"
proof -
  assume "iv \<in> set (build_test_intervals events)"
  then obtain p evs where g: "(p, evs) \<in> set (by_pid events)"
    and iv: "iv \<in> set (walk (kill_event (sort_key ev_mono evs)) (sort_key ev_mono evs))"
    by (auto simp: build_test_intervals_def Let_def)
  let ?s = "sort_key ev_mono evs"
  have evs: "set ?s \<subseteq> set events" "\<forall>e \<in> set ?s. ev_pid e = p" using by_pid_spec [OF g] by auto
  have "\<forall>e. kill_event ?s = Some e \<longrightarrow> e \<in> set events \<and> ev_pid e = p \<and> ev_event e = ''process_killed''"
    using evs unfolding kill_event_def find_Some_iff by (metis length_rev nth_mem set_rev subsetD)
  then show ?thesis using walk_ok [OF _ evs] iv by simp
qed

section \<open>Properties\<close>

text \<open>C40. The early exit of the overlap search misses nothing. The search stops at the first interval that starts after the current one has ended; its
  result is the list of all pairs of intervals of different processes, in the order of their starts, of which the second starts before
  the first has ended. If no interval ends before it starts, every reported overlap has a length of at least zero.\<close>

theorem overlaps_exact:
  "detect_cross_pid_overlaps records = all_overlaps records \<and>
   ((\<forall>iv \<in> set records. iv_start_mono iv \<le> iv_end_mono iv) \<longrightarrow> (\<forall>ov \<in> set (detect_cross_pid_overlaps records). 0 \<le> ol_ms ov))"
proof -
  have eq: "detect_cross_pid_overlaps records = all_overlaps records"
    unfolding detect_cross_pid_overlaps_def all_overlaps_def by (rule overlap_pairs_sorted) simp
  have "0 \<le> ol_ms ov" if wf: "\<forall>iv \<in> set records. iv_start_mono iv \<le> iv_end_mono iv" and ov: "ov \<in> set (all_overlaps records)" for ov
  proof -
    obtain a b where ab: "(a, b) \<in> set (pairs (sort_key iv_start_mono records))" "iv_start_mono b < iv_end_mono a" "ov = mk_overlap a b"
      using ov by (auto simp: all_overlaps_def)
    have "a \<in> set records" "b \<in> set records" "iv_start_mono a \<le> iv_start_mono b" using pairs_sorted [OF sorted_sort_key ab(1)] by auto
    then show ?thesis using wf ab(2,3) by (auto simp: mk_overlap_def)
  qed
  then show ?thesis using eq by simp
qed

definition demo_interval :: "int \<Rightarrow> rat \<Rightarrow> rat \<Rightarrow> interval" where
  "demo_interval p s e = \<lparr>iv_pid = p, iv_mutant = ''m'', iv_nodeid = Some ''t'', iv_start_mono = s, iv_start_ts = s, iv_end_mono = e, iv_end_ts = e,
     iv_end_kind = ''completed'', iv_duration_ms = (e - s) * 1000, iv_last_heartbeat_mono = None\<rparr>"

theorem overlaps_exact_witness:
  "map ol_ms (detect_cross_pid_overlaps [demo_interval 2 3 9, demo_interval 1 0 5, demo_interval 1 6 7]) = [2000, 1000] \<and>
   list_all (\<lambda>ov. 0 \<le> ol_ms ov) (detect_cross_pid_overlaps [demo_interval 2 3 9, demo_interval 1 0 5, demo_interval 1 6 7])"
proof -
  let ?r = "[demo_interval 2 3 9, demo_interval 1 0 5, demo_interval 1 6 7]"
  have "\<forall>iv \<in> set ?r. iv_start_mono iv \<le> iv_end_mono iv" by (simp add: demo_interval_def)
  then have "detect_cross_pid_overlaps ?r = all_overlaps ?r" "\<forall>ov \<in> set (detect_cross_pid_overlaps ?r). 0 \<le> ol_ms ov"
    using overlaps_exact [of ?r] by blast+
  moreover have "map ol_ms (all_overlaps ?r) = [2000, 1000]" by (simp add: all_overlaps_def demo_interval_def mk_overlap_def)
  ultimately show ?thesis by (simp add: list_all_iff)
qed

end
