(* ===== verification/Spec2Isabelle.thy ===== *)
theory Spec2Isabelle
  imports Consume_Props Async_Props Queue_Props Asgi_Props Prometheus Progress Superfluity Timeline
begin

text \<open>
  A verification library for \<^verbatim>\<open>redis_rate_limiter\<close>, a distributed rate limiter on Redis. Source paths are relative to
  \<^verbatim>\<open>src/src/redis_rate_limiter/\<close>.

  \<^bold>\<open>The program.\<close> A limiter has an identity, a rate (limit per window), a concurrency limit and a buffer of tasks in Redis. A process
  schedules tasks (\<^verbatim>\<open>schedule_task\<close>); a background loop (\<^verbatim>\<open>DrainLoop\<close>) runs \<^verbatim>\<open>drain()\<close>, which calls \<^verbatim>\<open>consume.lua\<close>. The script decides, in one
  atomic step on the server, whether the head of the buffer is admitted: it estimates the rate from two window counters, counts the leases of
  running tasks, and lets workers take turns. An admitted task gets a lease and is dispatched by the backend (a pool of the process or a message
  queue); while it runs, \<^verbatim>\<open>HeartbeatScheduler\<close> renews the lease; when it ends, \<^verbatim>\<open>TaskLifecycle\<close> releases it and wakes the loops of all
  processes. \<^verbatim>\<open>acquire()\<close> admits inline through a marker in the buffer. Managed classes (\<^verbatim>\<open>core/managed.py\<close>) share the configuration
  through Redis. The ASGI backend has no buffer: its middleware asks \<^verbatim>\<open>acquire.lua\<close> for every request.

  \<^bold>\<open>Modelling.\<close> A Python method is a function in the state-and-exception monad \<open>py\<close> (theory Prelude) over a record: \<open>'c scripts\<close> for the script
  cache of an instance, \<open>'c world\<close> for a distributed limiter in its process, \<open>'c asgi\<close> and \<open>'c http\<close> for the ASGI backend, a \<open>registry\<close> for a managed
  class. An exception is a value \<open>Inl e\<close> with the state at the point of the raise. Locks are atomic sections, background threads and asyncio tasks
  are step relations over the sections that the code executes under its lock. Redis, redis-py, executors, brokers, the import system, the user's functions, the
  ASGI server and prometheus_client are not part of the program: each is a record of functions, with its documented behaviour as a locale
  (\<open>redis_server\<close>, \<open>redis_client\<close>, \<open>executor_backend\<close>, \<open>prometheus_client\<close>) that is interpreted on an executable instance (Mem_Redis,
  Mem_Client, Pool_Props, Prometheus). The laws of \<open>redis_client\<close> allow that a connection is lost before or after a command has
  been executed, so every property of a method covers connection errors.

  \<^bold>\<open>Theories, from the server upwards.\<close>
  \<^item> Prelude, Numbers, Floats, Json: exceptions and the monad; \<^verbatim>\<open>tostring\<close> of Lua numbers; \<^verbatim>\<open>repr\<close> and \<^verbatim>\<open>float\<close>; \<^verbatim>\<open>json.dumps\<close> and \<^verbatim>\<open>json.loads\<close>.
  \<^item> Zset, Redis, Mem_Redis, Keys: sorted sets with their contract, the commands and their laws, the executable server, the keys of a limiter and the
    type of the value under each (\<open>typed\<close>).
  \<^item> Sliding_Window, Lua_Scripts: the arithmetic and the six scripts of \<^verbatim>\<open>lua/\<close>.
  \<^item> Consume, Consume_Props, Scripts_Props: \<^verbatim>\<open>consume.lua\<close> refines the function \<open>consume_ks\<close> on keyspaces; rate, concurrency, fate of a task, fairness; the
    outcomes of the other scripts.
  \<^item> System, Progress: any number of workers as a step relation on the server; rate and concurrency bounds, exact counters and type safety in every
    reachable state (the six scripts never fail there, and what the buffer holds decodes as the text of a task or a marker); draining ends.
  \<^item> Client, Mem_Client: \<^verbatim>\<open>AbstractSyncRateLimiter\<close>, \<^verbatim>\<open>AbstractAsyncRateLimiter\<close> (\<^verbatim>\<open>core/base.py\<close>), \<^verbatim>\<open>core/scripts.py\<close>: loading, caching and
    calling scripts; each call runs its script once, and a client that keeps answering NOSCRIPT ends in a RuntimeError (lemma \<open>eval_script_gives_up\<close>).
  \<^item> Limiter_Config, Config_Props: \<^verbatim>\<open>AbstractRateLimiter\<close> and the arithmetic of \<^verbatim>\<open>DistributedRateLimiterMixin\<close>: validation, lifetimes, recovery delay, jitter.
  \<^item> Task_Json: the text of a task from \<^verbatim>\<open>_get_task_data_str\<close> through \<^verbatim>\<open>schedule.lua\<close> back to the consumer.
  \<^item> Drain_Loop, Heartbeat: \<^verbatim>\<open>DrainLoop\<close>, \<^verbatim>\<open>HeartbeatScheduler\<close> and their asyncio versions as step relations: a requested wake stays
    pending until a turn of the loop drains for it and is not missed once due; every registered lease has a tuple in the heap unless a renewal for it
    has raised, which ends the thread and loses the tuple.
  \<^item> World, Distributed, Distributed_Props, Schedule_Props, Drain_Props: \<^verbatim>\<open>AbstractDistributedRateLimiter\<close>, \<^verbatim>\<open>TaskLifecycle\<close>, \<^verbatim>\<open>DrainSignalSubscriber\<close>,
    \<^verbatim>\<open>BackendHealthMonitor\<close> (\<^verbatim>\<open>core/limiters.py\<close>): what each method does to the server and the instance on every outcome;
    a drain asks for a follow-up within a bound on every outcome but one, an expired head removed while tokens remain.
  \<^item> Async_Distributed, Async_Props: \<^verbatim>\<open>core/async_limiters.py\<close>; on a running limiter the coroutines refine the synchronous methods, and
    construction with start and shutdown agree as well.
  \<^item> Managed, Distributed_Class, Shared_Config, Managed_Props, Managed_Limiters, Registry_Props: \<^verbatim>\<open>core/managed.py\<close> for every class that meets the locale
    \<open>managed_limiter\<close>, which the distributed and the ASGI limiters do: how configurations reach other processes, and where they do not.
  \<^item> Importing, Backends, Pool_Props, Queue_Props: \<^verbatim>\<open>core/importing.py\<close>, \<^verbatim>\<open>core/decorators.py\<close> and \<^verbatim>\<open>backends/\<close>: capacity of the pools, with the jobs that their
    counters never forget (submissions that raise, cancelled tasks), round trip of a
    task through a message queue.
  \<^item> Asgi, Asgi_Props: \<^verbatim>\<open>backends/asgi/\<close>.
  \<^item> Prometheus: \<^verbatim>\<open>integrations/prometheus.py\<close>.
  \<^item> Kill_Matrix, Superfluity, Timeline: the parts of the mutation testing tools under \<^verbatim>\<open>src/scripts/\<close> that compute something: the table of the tests that kill
    a mutant, passed from the test processes to their parent through files (\<^verbatim>\<open>mutmut_shared.py\<close>, \<^verbatim>\<open>run_mutmut.py\<close>), is exact; the tests that
    \<^verbatim>\<open>analyze_superfluity.py\<close> reports can be removed together, but its merged report loses files; the intervals and overlaps of
    \<^verbatim>\<open>generate_mutmut_report.py\<close>. They share the JSON model with the limiter and nothing else.
  \<^item> Demo: a concrete limiter for the witnesses.

  \<^bold>\<open>Numbers and bounds.\<close> Python integers are \<open>int\<close>. Floats of both languages are exact rationals: rounding of IEEE doubles is not modelled, and the
  windows nan and inf, which the constructor lets pass, have no counterpart. The scripts
  need a window of whole milliseconds (other windows are rejected by the server, lemma \<open>consume_fraction\<close>); server time is below \<open>10 ^ 14\<close>
  milliseconds, so that window starts print without exponent; a persisted window has at most sixteen decimals, so that its
  text reads back exactly. The rate bounds of System allow the workers different limits, as while an
  update propagates, and count the largest in use; the workers agree on the window. Every recursive definition is
  total (structural, or with a measure as in the JSON parser); no definition needs fuel that a caller has to choose.

  \<^bold>\<open>Not modelled.\<close> Logging and the wording of messages; clocks
  advance between the calls of a method's environment and not within a method; interleavings of asyncio tasks other than the delayed wakes that
  \<^verbatim>\<open>AsyncDrainLoop\<close> creates; the polling of a pub/sub connection; overrides of another type than the attribute they replace (the model refuses them). Tests,
  benchmarks, demos and examples of the repository are not part of the limiter; of the development scripts, those parts are left out that patch the internals of
  mutmut, classify diffs by regular expressions or format reports.
\<close>

end
